theory Spec2Isabelle
  imports Main "HOL-Library.Word" "HOL-Library.Char_ord" "HOL-Library.List_Lexorder"
begin

section \<open>Data model (pkg/models/alert.go)\<close>

text \<open>
  Go's \<^verbatim>\<open>int64\<close> columns that the code only compares and copies (ids, frequency,
  duration) are integers; \<^verbatim>\<open>StateChanges\<close>, the one field the code does arithmetic
  on (\<^verbatim>\<open>alert.StateChanges++\<close>), is a 64-bit word, whose \<open>+\<close> wraps as Go's does.
  A \<^verbatim>\<open>time.Time\<close> is an instant counted from Go's zero time, so \<open>0\<close> is the value
  for which \<^verbatim>\<open>IsZero()\<close> holds; \<^verbatim>\<open>UTC()\<close> keeps the instant.
\<close>

type_synonym int64 = int
type_synonym Time = int

text \<open>\<^verbatim>\<open>type AlertStateType string\<close> and its six constants.\<close>

type_synonym AlertStateType = string

definition AlertStateNoData :: AlertStateType where "AlertStateNoData = ''no_data''"
definition AlertStatePaused :: AlertStateType where "AlertStatePaused = ''paused''"
definition AlertStateAlerting :: AlertStateType where "AlertStateAlerting = ''alerting''"
definition AlertStateOK :: AlertStateType where "AlertStateOK = ''ok''"
definition AlertStatePending :: AlertStateType where "AlertStatePending = ''pending''"
definition AlertStateUnknown :: AlertStateType where "AlertStateUnknown = ''unknown''"

definition IsValid :: "AlertStateType \<Rightarrow> bool" where
  "IsValid s \<longleftrightarrow>
     s = AlertStateOK \<or> s = AlertStateNoData \<or> s = AlertStatePaused \<or>
     s = AlertStatePending \<or> s = AlertStateAlerting \<or> s = AlertStateUnknown"

text \<open>
  Modelled from the spec: \<^verbatim>\<open>simplejson.Json\<close> (pkg/components/simplejson, not under
  src/), the "opaque structured document holding conditions, notification references, and
  tag assignments". The document is represented by what the code under src/ observes of it:
  \<^item> \<open>Encode\<close>: the result of \<^verbatim>\<open>Encode()\<close>, \<open>None\<close> when marshalling returns an error;
  \<^item> \<open>alertRuleTags\<close>: \<open>None\<close> when \<^verbatim>\<open>CheckGet("alertRuleTags")\<close> finds no such key,
    otherwise the entries of \<^verbatim>\<open>MustMap()\<close> in iteration order, each value read by
    \<^verbatim>\<open>MustString()\<close>;
  \<^item> \<open>notifications\<close>: \<open>None\<close> when \<^verbatim>\<open>CheckGet("notifications")\<close> finds no such key,
    otherwise one entry per element of \<^verbatim>\<open>MustArray()\<close>: \<open>Some uid\<close> when the element's
    \<^verbatim>\<open>"uid"\<close> is a string, \<open>None\<close> when the type assertion \<^verbatim>\<open>mm["uid"].(string)\<close> panics.
  A nil \<^verbatim>\<open>*simplejson.Json\<close> is \<open>None :: Json option\<close>.
\<close>

record Json =
  Encode :: "string option"
  alertRuleTags :: "(string \<times> string) list option"
  notifications :: "string option list option"

text \<open>\<^verbatim>\<open>type Alert struct\<close>. The field \<^verbatim>\<open>Id\<close> is written \<open>ID\<close> here.\<close>

record Alert =
  ID :: int64
  Version :: int64
  OrgId :: int64
  DashboardId :: int64
  PanelId :: int64
  Name :: string
  Message :: string
  Severity :: string
  State :: AlertStateType
  Handler :: int64
  Silenced :: bool
  ExecutionError :: string
  Frequency :: int64
  For :: int64
  EvalData :: "Json option"
  NewStateDate :: Time
  StateChanges :: "64 word"
  Created :: Time
  Updated :: Time
  Settings :: "Json option"

text \<open>Modelled from the spec: \<^verbatim>\<open>models.Tag\<close> (declared outside src/), a (key, value)
  pair with the id of its row.\<close>

record Tag =
  tag_Id :: int64
  Key :: string
  Value :: string

text \<open>The commands and queries; a field whose name an \<open>Alert\<close> field already has carries
  the command's initials.\<close>

record SaveAlertsCommand =
  sa_DashboardId :: int64
  sa_UserId :: int64
  sa_OrgId :: int64
  Alerts :: "Alert list"

record PauseAlertCommand =
  pa_OrgId :: int64
  AlertIds :: "int64 list"
  Paused :: bool

record SetAlertStateCommand =
  AlertId :: int64
  sas_OrgId :: int64
  sas_State :: AlertStateType
  Error :: string
  sas_EvalData :: "Json option"

record GetAlertByIdQuery =
  q_Id :: int64

text \<open>Modelled from the spec: \<^verbatim>\<open>models.SignedInUser\<close> (declared outside src/), of which
  this code reads the role.\<close>

record SignedInUser =
  OrgRole :: string

text \<open>Modelled from the spec: \<^verbatim>\<open>models.ROLE_ADMIN\<close> (declared outside src/), "the elevated
  role that bypasses" the dashboard permission filter.\<close>

definition ROLE_ADMIN :: string where "ROLE_ADMIN = ''Admin''"

record GetAlertsQuery =
  q_OrgId :: int64
  q_State :: "string list"
  DashboardIDs :: "int64 list"
  q_PanelId :: int64
  Limit :: int64
  Query :: string
  User :: "SignedInUser option"
  StandaloneAlertsEnabled :: bool

record AlertListItemDTO =
  dto_Id :: int64
  dto_DashboardId :: int64
  DashboardUid :: string
  DashboardSlug :: string
  dto_PanelId :: int64
  dto_Name :: string
  dto_State :: AlertStateType
  dto_NewStateDate :: Time
  EvalDate :: Time
  dto_EvalData :: "Json option"
  dto_ExecutionError :: string
  Url :: string

text \<open>The errors the handlers return. \<open>ErrCouldNotFindAlert\<close> is the
  \<^verbatim>\<open>fmt.Errorf("could not find alert")\<close> of \<^verbatim>\<open>GetAlertById\<close> and \<^verbatim>\<open>SetAlertState\<close>,
  \<open>ErrNoAlertIds\<close> the \<^verbatim>\<open>fmt.Errorf("command contains no alertids")\<close> of \<^verbatim>\<open>PauseAlert\<close>;
  \<open>StorageError\<close> is an error returned by the database, \<open>Panic\<close> a Go run-time panic.\<close>

datatype error =
    ErrCouldNotFindAlert
  | ErrCannotChangeStateOnPausedAlert
  | ErrRequiresNewState
  | ErrNoAlertIds
  | StorageError
  | Panic

text \<open>\<^verbatim>\<open>ContainsUpdates\<close>: name and message are compared first; the settings documents only
  when both are present, and an encoding error on either side makes the answer \<open>False\<close>.\<close>

definition ContainsUpdates :: "Alert \<Rightarrow> Alert \<Rightarrow> bool" where
  "ContainsUpdates this other =
     (let result = False;
          result = (result \<or> Name this \<noteq> Name other);
          result = (result \<or> Message this \<noteq> Message other)
      in case (Settings this, Settings other) of
           (Some s1, Some s2) \<Rightarrow>
             (case (Encode s1, Encode s2) of
                (Some json1, Some json2) \<Rightarrow> result \<or> json1 \<noteq> json2
              | _ \<Rightarrow> False)
         | _ \<Rightarrow> result)"

definition GetTagsFromSettings :: "Alert \<Rightarrow> Tag list" where
  "GetTagsFromSettings alert =
     (case Settings alert of
        None \<Rightarrow> []
      | Some j \<Rightarrow>
          (case alertRuleTags j of
             None \<Rightarrow> []
           | Some kvs \<Rightarrow> map (\<lambda>(k, v). \<lparr>tag_Id = 0, Key = k, Value = v\<rparr>) kvs))"

text \<open>\<^verbatim>\<open>GetNotificationsFromSettings\<close>; \<open>None\<close> is the panic of the type assertion.\<close>

fun uids :: "string option list \<Rightarrow> string list option" where
  "uids [] = Some []"
| "uids (None # ms) = None"
| "uids (Some u # ms) = (case uids ms of None \<Rightarrow> None | Some us \<Rightarrow> Some (u # us))"

definition GetNotificationsFromSettings :: "Alert \<Rightarrow> string list option" where
  "GetNotificationsFromSettings alert =
     (case Settings alert of
        None \<Rightarrow> Some []
      | Some j \<Rightarrow> (case notifications j of None \<Rightarrow> Some [] | Some ms \<Rightarrow> uids ms))"

section \<open>The store\<close>

text \<open>
  Modelled from the spec: the relational store and the object mapper in front of it (xorm;
  not under src/). The persisted schema surface of the spec is one list of rows per table.
  Rows of \<open>annotation\<close>, \<open>alert_notification_state\<close>, \<open>alert_notification\<close> and
  \<open>dashboard\<close> belong to external collaborators; they carry the columns this code reads.
\<close>

record annotation_row =
  annotation_id :: int64
  annotation_alert_id :: int64

record notification_state_row =
  ans_id :: int64
  ans_alert_id :: int64

record alert_notification_row =
  an_id :: int64
  an_org_id :: int64
  an_uid :: string

record dashboard_row =
  dashboard_id :: int64
  dashboard_uid :: string
  dashboard_slug :: string

record store =
  alert_tbl :: "Alert list"
  annotation_tbl :: "annotation_row list"
  alert_notification_state_tbl :: "notification_state_row list"
  alert_rule_tag_tbl :: "(int64 \<times> int64) list"
  alert_rule_notification_tbl :: "(int64 \<times> int64) list"
  tag_tbl :: "Tag list"
  alert_notification_tbl :: "alert_notification_row list"
  dashboard_tbl :: "dashboard_row list"

text \<open>Modelled from the spec: \<^verbatim>\<open>ID(id).Get(&alert)\<close> finds the row with that primary key,
  if any.\<close>

definition xorm_Get :: "int64 \<Rightarrow> store \<Rightarrow> Alert option" where
  "xorm_Get i s = find (\<lambda>a. ID a = i) (alert_tbl s)"

text \<open>
  Modelled from the spec: \<^verbatim>\<open>ID(id).Update(bean)\<close>. The storage layer treats a field of
  the bean that holds its type's zero value (0, the empty string, the zero time, no
  document) as unset and leaves the column alone, unless
  the column is forced with \<^verbatim>\<open>MustCols\<close> (the reason for \<^verbatim>\<open>MustCols("message", "for")\<close>
  and for the one-space \<^verbatim>\<open>ExecutionError\<close> in \<^verbatim>\<open>SetAlertState\<close>). The auto-increment
  primary key is never written, and a boolean is written only when forced.
\<close>

definition xorm_Update_row :: "string list \<Rightarrow> Alert \<Rightarrow> Alert \<Rightarrow> Alert" where
  "xorm_Update_row must bean row = row
     \<lparr> Version := (if Version bean \<noteq> 0 \<or> ''version'' \<in> set must then Version bean else Version row),
       OrgId := (if OrgId bean \<noteq> 0 \<or> ''org_id'' \<in> set must then OrgId bean else OrgId row),
       DashboardId := (if DashboardId bean \<noteq> 0 \<or> ''dashboard_id'' \<in> set must
                       then DashboardId bean else DashboardId row),
       PanelId := (if PanelId bean \<noteq> 0 \<or> ''panel_id'' \<in> set must then PanelId bean else PanelId row),
       Name := (if Name bean \<noteq> [] \<or> ''name'' \<in> set must then Name bean else Name row),
       Message := (if Message bean \<noteq> [] \<or> ''message'' \<in> set must then Message bean else Message row),
       Severity := (if Severity bean \<noteq> [] \<or> ''severity'' \<in> set must then Severity bean else Severity row),
       State := (if State bean \<noteq> [] \<or> ''state'' \<in> set must then State bean else State row),
       Handler := (if Handler bean \<noteq> 0 \<or> ''handler'' \<in> set must then Handler bean else Handler row),
       Silenced := (if ''silenced'' \<in> set must then Silenced bean else Silenced row),
       ExecutionError := (if ExecutionError bean \<noteq> [] \<or> ''execution_error'' \<in> set must
                          then ExecutionError bean else ExecutionError row),
       Frequency := (if Frequency bean \<noteq> 0 \<or> ''frequency'' \<in> set must
                     then Frequency bean else Frequency row),
       For := (if For bean \<noteq> 0 \<or> ''for'' \<in> set must then For bean else For row),
       EvalData := (if EvalData bean \<noteq> None \<or> ''eval_data'' \<in> set must
                    then EvalData bean else EvalData row),
       NewStateDate := (if NewStateDate bean \<noteq> 0 \<or> ''new_state_date'' \<in> set must
                        then NewStateDate bean else NewStateDate row),
       StateChanges := (if StateChanges bean \<noteq> 0 \<or> ''state_changes'' \<in> set must
                        then StateChanges bean else StateChanges row),
       Created := (if Created bean \<noteq> 0 \<or> ''created'' \<in> set must then Created bean else Created row),
       Updated := (if Updated bean \<noteq> 0 \<or> ''updated'' \<in> set must then Updated bean else Updated row),
       Settings := (if Settings bean \<noteq> None \<or> ''settings'' \<in> set must
                    then Settings bean else Settings row) \<rparr>"

definition xorm_Update :: "string list \<Rightarrow> int64 \<Rightarrow> Alert \<Rightarrow> store \<Rightarrow> store" where
  "xorm_Update must i bean s =
     s\<lparr>alert_tbl :=
         map (\<lambda>row. if ID row = i then xorm_Update_row must bean row else row) (alert_tbl s)\<rparr>"

text \<open>
  Modelled from the spec: \<^verbatim>\<open>Insert(bean)\<close>. Every column is written. A bean whose \<open>ID\<close>
  is zero gets the next id of the table, larger than every id in it, which is written back
  to the bean; a bean with an id of its own is stored under that id, and the primary key
  rejects it when a row has it already. This is the one failure of the store that depends
  on the data; failures of the database itself (connection, disk) are left out.
\<close>

definition next_id :: "int64 list \<Rightarrow> int64" where
  "next_id ids = fold max ids 0 + 1"

definition xorm_Insert :: "Alert \<Rightarrow> store \<Rightarrow> error + (store \<times> Alert)" where
  "xorm_Insert bean s =
     (if ID bean = 0
      then (let bean' = bean\<lparr>ID := next_id (map ID (alert_tbl s))\<rparr>
            in Inr (s\<lparr>alert_tbl := alert_tbl s @ [bean']\<rparr>, bean'))
      else if ID bean \<in> set (map ID (alert_tbl s)) then Inl StorageError
      else Inr (s\<lparr>alert_tbl := alert_tbl s @ [bean]\<rparr>, bean))"

section \<open>Reading rules (pkg/services/sqlstore/alert.go)\<close>

definition GetAlertById :: "GetAlertByIdQuery \<Rightarrow> store \<Rightarrow> error + Alert" where
  "GetAlertById query s =
     (case xorm_Get (q_Id query) s of
        None \<Rightarrow> Inl ErrCouldNotFindAlert
      | Some alert \<Rightarrow> Inr alert)"

definition GetAllAlertQueryHandler :: "store \<Rightarrow> error + Alert list" where
  "GetAllAlertQueryHandler s = Inr (alert_tbl s)"

subsection \<open>Search\<close>

definition HasPrefix :: "string \<Rightarrow> string \<Rightarrow> bool" where
  "HasPrefix s p \<longleftrightarrow> take (length p) s = p"

definition TrimPrefix :: "string \<Rightarrow> string \<Rightarrow> string" where
  "TrimPrefix s p = (if HasPrefix s p then drop (length p) s else s)"

text \<open>
  \<^verbatim>\<open>strings.TrimSpace\<close> removes the leading and the trailing white space
  (\<^verbatim>\<open>unicode.IsSpace\<close>) of a string. A Go string is a sequence of bytes that holds its
  characters in UTF-8, so the white space characters are listed by their encodings: the six
  of ASCII, then U+0085, U+00A0, U+1680, U+2000 to U+200A, U+2028, U+2029, U+202F, U+205F
  and U+3000.
\<close>

definition whiteSpace :: "string list" where
  "whiteSpace =
     [[CHR 0x09], [CHR 0x0A], [CHR 0x0B], [CHR 0x0C], [CHR 0x0D], [CHR 0x20],
      [CHR 0xC2, CHR 0x85], [CHR 0xC2, CHR 0xA0], [CHR 0xE1, CHR 0x9A, CHR 0x80],
      [CHR 0xE2, CHR 0x80, CHR 0x80], [CHR 0xE2, CHR 0x80, CHR 0x81],
      [CHR 0xE2, CHR 0x80, CHR 0x82], [CHR 0xE2, CHR 0x80, CHR 0x83],
      [CHR 0xE2, CHR 0x80, CHR 0x84], [CHR 0xE2, CHR 0x80, CHR 0x85],
      [CHR 0xE2, CHR 0x80, CHR 0x86], [CHR 0xE2, CHR 0x80, CHR 0x87],
      [CHR 0xE2, CHR 0x80, CHR 0x88], [CHR 0xE2, CHR 0x80, CHR 0x89],
      [CHR 0xE2, CHR 0x80, CHR 0x8A], [CHR 0xE2, CHR 0x80, CHR 0xA8],
      [CHR 0xE2, CHR 0x80, CHR 0xA9], [CHR 0xE2, CHR 0x80, CHR 0xAF],
      [CHR 0xE2, CHR 0x81, CHR 0x9F], [CHR 0xE3, CHR 0x80, CHR 0x80]]"

text \<open>\<open>trimLeft ws s\<close> removes from the front of \<open>s\<close> every leading occurrence of a
  (non-empty) sequence of \<open>ws\<close>.\<close>

function trimLeft :: "string list \<Rightarrow> string \<Rightarrow> string" where
  "trimLeft ws s =
     (case find (\<lambda>w. w \<noteq> [] \<and> HasPrefix s w) ws of
        None \<Rightarrow> s
      | Some w \<Rightarrow> trimLeft ws (drop (length w) s))"
  by pat_completeness auto
termination
proof (relation "measure (\<lambda>(ws, s). length s)")
  show "wf (measure (\<lambda>(ws, s). length s))" by simp
next
  fix ws :: "string list" and s w :: string
  assume "find (\<lambda>w. w \<noteq> [] \<and> HasPrefix s w) ws = Some w"
  then have "w \<noteq> []" "take (length w) s = w"
    by (auto simp: find_Some_iff HasPrefix_def)
  then have "s \<noteq> []" by auto
  with \<open>w \<noteq> []\<close> show "((ws, drop (length w) s), (ws, s)) \<in> measure (\<lambda>(ws, s). length s)"
    by simp
qed

declare trimLeft.simps [simp del]

definition TrimSpace :: "string \<Rightarrow> string" where
  "TrimSpace s = rev (trimLeft (map rev whiteSpace) (rev (trimLeft whiteSpace s)))"

text \<open>The group \<^verbatim>\<open>( state = ? OR state <> ? ... )\<close> that the loop over \<^verbatim>\<open>query.State\<close>
  writes, read as the condition on a row's state that the database evaluates.\<close>

fun state_clause :: "string list \<Rightarrow> AlertStateType \<Rightarrow> bool" where
  "state_clause [] st = False"
| "state_clause (v # vs) st =
     ((if HasPrefix v ''not_'' then st \<noteq> TrimPrefix v ''not_'' else st = v) \<or> state_clause vs st)"

text \<open>\<^verbatim>\<open>FROM alert INNER JOIN dashboard\<close>, or \<^verbatim>\<open>LEFT OUTER JOIN\<close> for standalone alerts.\<close>

definition join_dashboard :: "bool \<Rightarrow> store \<Rightarrow> (Alert \<times> dashboard_row option) list" where
  "join_dashboard outer s =
     concat (map (\<lambda>a.
       (case filter (\<lambda>d. dashboard_id d = DashboardId a) (dashboard_tbl s) of
          [] \<Rightarrow> (if outer then [(a, None)] else [])
        | ds \<Rightarrow> map (\<lambda>d. (a, Some d)) ds)) (alert_tbl s))"

definition toListItem :: "Alert \<times> dashboard_row option \<Rightarrow> AlertListItemDTO" where
  "toListItem r =
     (case r of (a, d) \<Rightarrow>
       \<lparr> dto_Id = ID a, dto_DashboardId = DashboardId a,
         DashboardUid = (case d of None \<Rightarrow> [] | Some d \<Rightarrow> dashboard_uid d),
         DashboardSlug = (case d of None \<Rightarrow> [] | Some d \<Rightarrow> dashboard_slug d),
         dto_PanelId = PanelId a, dto_Name = Name a, dto_State = State a,
         dto_NewStateDate = NewStateDate a, EvalDate = 0, dto_EvalData = EvalData a,
         dto_ExecutionError = ExecutionError a, Url = [] \<rparr>)"

text \<open>
  \<^verbatim>\<open>HandleAlertsQuery\<close>. The query text the builder assembles is read as the selection it
  denotes: every \<^verbatim>\<open>builder.Write\<close> adds one conjunct to the \<^verbatim>\<open>WHERE\<close> clause. Two
  collaborators are parameters: \<open>LikeStr name pattern\<close> is the dialect's \<^verbatim>\<open>LIKE\<close>, and
  \<open>permissionFilter\<close> the condition that \<^verbatim>\<open>writeDashboardPermissionFilter\<close> (not under
  src/) writes for a user. \<^verbatim>\<open>ORDER BY name ASC\<close> is a stable sort. The column \<^verbatim>\<open>eval_date\<close> is no field of \<open>Alert\<close> and nothing here
  writes it; \<^verbatim>\<open>query.User\<close> is a pointer, and reading through a nil one panics.
\<close>

text \<open>
  Modelled from the spec: \<^verbatim>\<open>dialect.Limit\<close> (not under src/) writes \<^verbatim>\<open>LIMIT n\<close>, the
  result limit: the database keeps the first \<open>n\<close> rows. The code hands every non-zero
  \<open>n\<close> to the database; a negative \<open>n\<close> is no limit, as in SQLite, the default database.
\<close>

definition dialect_Limit :: "int64 \<Rightarrow> 'a list \<Rightarrow> 'a list" where
  "dialect_Limit n rows = (if n < 0 then rows else take (nat n) rows)"

definition alerts_where ::
  "(string \<Rightarrow> string \<Rightarrow> bool) \<Rightarrow> (SignedInUser \<Rightarrow> Alert \<times> dashboard_row option \<Rightarrow> bool) \<Rightarrow>
   GetAlertsQuery \<Rightarrow> SignedInUser \<Rightarrow> Alert \<times> dashboard_row option \<Rightarrow> bool" where
  "alerts_where LikeStr permissionFilter query user r =
     (OrgId (fst r) = q_OrgId query
      \<and> (if length (TrimSpace (Query query)) > 0
         then LikeStr (Name (fst r)) (''%'' @ Query query @ ''%'') else True)
      \<and> (if length (DashboardIDs query) > 0
         then DashboardId (fst r) \<in> set (DashboardIDs query) else True)
      \<and> (if q_PanelId query \<noteq> 0 then PanelId (fst r) = q_PanelId query else True)
      \<and> (if length (q_State query) > 0 \<and> hd (q_State query) \<noteq> ''all''
         then state_clause (q_State query) (State (fst r)) else True)
      \<and> (if OrgRole user \<noteq> ROLE_ADMIN then permissionFilter user r else True))"

definition normalizeExecutionError :: "AlertListItemDTO \<Rightarrow> AlertListItemDTO" where
  "normalizeExecutionError item =
     (if dto_ExecutionError item = '' '' then item\<lparr>dto_ExecutionError := []\<rparr> else item)"

definition HandleAlertsQuery ::
  "(string \<Rightarrow> string \<Rightarrow> bool) \<Rightarrow> (SignedInUser \<Rightarrow> Alert \<times> dashboard_row option \<Rightarrow> bool) \<Rightarrow>
   GetAlertsQuery \<Rightarrow> store \<Rightarrow> error + AlertListItemDTO list" where
  "HandleAlertsQuery LikeStr permissionFilter query s =
     (case User query of
        None \<Rightarrow> Inl Panic
      | Some user \<Rightarrow>
          (let rows = filter (alerts_where LikeStr permissionFilter query user)
                        (join_dashboard (StandaloneAlertsEnabled query) s);
               rows = sort_key (\<lambda>r. Name (fst r)) rows;
               rows = (if Limit query \<noteq> 0 then dialect_Limit (Limit query) rows else rows);
               alerts = map toListItem rows
           in Inr (map normalizeExecutionError alerts)))"

section \<open>The state transition guard\<close>

text \<open>\<^verbatim>\<open>SetAlertState\<close>. \<open>timeNow\<close> is the injected clock: \<open>timeNow i\<close> is what the
  \<open>i\<close>-th call of \<^verbatim>\<open>timeNow()\<close> within the operation returns. An error rolls the
  transaction back, so only a success carries a new store; with it comes \<^verbatim>\<open>cmd.Result\<close>.\<close>

definition SetAlertState ::
  "(nat \<Rightarrow> Time) \<Rightarrow> SetAlertStateCommand \<Rightarrow> store \<Rightarrow> error + (store \<times> Alert)" where
  "SetAlertState timeNow cmd s =
     (case xorm_Get (AlertId cmd) s of
        None \<Rightarrow> Inl ErrCouldNotFindAlert
      | Some alert \<Rightarrow>
          if State alert = AlertStatePaused then Inl ErrCannotChangeStateOnPausedAlert
          else if State alert = sas_State cmd then Inl ErrRequiresNewState
          else
            (let alert = alert\<lparr>State := sas_State cmd\<rparr>;
                 alert = alert\<lparr>StateChanges := StateChanges alert + 1\<rparr>;
                 alert = alert\<lparr>NewStateDate := timeNow 0\<rparr>;
                 alert = alert\<lparr>EvalData := sas_EvalData cmd\<rparr>;
                 alert = (if Error cmd = [] then alert\<lparr>ExecutionError := '' ''\<rparr>
                          else alert\<lparr>ExecutionError := Error cmd\<rparr>)
             in Inr (xorm_Update [] (ID alert) alert s, alert)))"

text \<open>\<^verbatim>\<open>UPDATE alert SET state = ?, new_state_date = ? WHERE id IN (...)\<close>, with the number
  of rows the \<^verbatim>\<open>WHERE\<close> clause selects as \<^verbatim>\<open>RowsAffected\<close>.\<close>

definition exec_set_state ::
  "AlertStateType \<Rightarrow> Time \<Rightarrow> (Alert \<Rightarrow> bool) \<Rightarrow> store \<Rightarrow> store \<times> int64" where
  "exec_set_state st t sel s =
     (s\<lparr>alert_tbl :=
          map (\<lambda>row. if sel row then row\<lparr>State := st, NewStateDate := t\<rparr> else row) (alert_tbl s)\<rparr>,
      int (length (filter sel (alert_tbl s))))"

definition PauseAlert ::
  "(nat \<Rightarrow> Time) \<Rightarrow> PauseAlertCommand \<Rightarrow> store \<Rightarrow> error + (store \<times> int64)" where
  "PauseAlert timeNow cmd s =
     (if length (AlertIds cmd) = 0 then Inl ErrNoAlertIds
      else
        (let params = (if Paused cmd then (AlertStatePaused, timeNow 0)
                       else (AlertStateUnknown, timeNow 0))
         in Inr (exec_set_state (fst params) (snd params)
                   (\<lambda>row. ID row \<in> set (AlertIds cmd)) s)))"

definition PauseAllAlerts :: "(nat \<Rightarrow> Time) \<Rightarrow> bool \<Rightarrow> store \<Rightarrow> error + (store \<times> int64)" where
  "PauseAllAlerts timeNow paused s =
     (let newState = (if paused then AlertStatePaused else AlertStateUnknown)
      in Inr (exec_set_state newState (timeNow 0) (\<lambda>row. True) s))"

section \<open>Deleting rules\<close>

text \<open>\<^verbatim>\<open>deleteAlertByIdInternal\<close>: five \<^verbatim>\<open>DELETE\<close> statements; \<open>reason\<close> is only logged.\<close>

definition deleteAlertByIdInternal :: "int64 \<Rightarrow> string \<Rightarrow> store \<Rightarrow> error + store" where
  "deleteAlertByIdInternal alertId reason s =
     (let s = s\<lparr>alert_tbl := filter (\<lambda>a. ID a \<noteq> alertId) (alert_tbl s)\<rparr>;
          s = s\<lparr>annotation_tbl :=
                 filter (\<lambda>r. annotation_alert_id r \<noteq> alertId) (annotation_tbl s)\<rparr>;
          s = s\<lparr>alert_notification_state_tbl :=
                 filter (\<lambda>r. ans_alert_id r \<noteq> alertId) (alert_notification_state_tbl s)\<rparr>;
          s = s\<lparr>alert_rule_tag_tbl := filter (\<lambda>r. fst r \<noteq> alertId) (alert_rule_tag_tbl s)\<rparr>;
          s = s\<lparr>alert_rule_notification_tbl :=
                 filter (\<lambda>r. fst r \<noteq> alertId) (alert_rule_notification_tbl s)\<rparr>
      in Inr s)"

definition DeleteAlert :: "int64 \<Rightarrow> store \<Rightarrow> error + store" where
  "DeleteAlert cmd_Id s = deleteAlertByIdInternal cmd_Id ''Alert deletion requested from the API'' s"

fun deleteAlerts :: "Alert list \<Rightarrow> store \<Rightarrow> error + store" where
  "deleteAlerts [] s = Inr s"
| "deleteAlerts (alert # alerts) s =
     (case deleteAlertByIdInternal (ID alert) ''Dashboard deleted'' s of
        Inl e \<Rightarrow> Inl e
      | Inr s' \<Rightarrow> deleteAlerts alerts s')"

definition GetAlertsByDashboardId2 :: "int64 \<Rightarrow> store \<Rightarrow> error + Alert list" where
  "GetAlertsByDashboardId2 dashboardId s =
     Inr (filter (\<lambda>a. DashboardId a = dashboardId) (alert_tbl s))"

definition deleteAlertDefinition :: "int64 \<Rightarrow> store \<Rightarrow> error + store" where
  "deleteAlertDefinition dashboardId s =
     deleteAlerts (filter (\<lambda>a. DashboardId a = dashboardId) (alert_tbl s)) s"

text \<open>Whether the rule \<open>i\<close>, or a row of a table that depends on it, is in the store.\<close>

definition references :: "int64 \<Rightarrow> store \<Rightarrow> bool" where
  "references i s \<longleftrightarrow>
     i \<in> ID ` set (alert_tbl s)
     \<or> i \<in> annotation_alert_id ` set (annotation_tbl s)
     \<or> i \<in> ans_alert_id ` set (alert_notification_state_tbl s)
     \<or> i \<in> fst ` set (alert_rule_tag_tbl s)
     \<or> i \<in> fst ` set (alert_rule_notification_tbl s)"

section \<open>Reconciliation\<close>

text \<open>
  Modelled from the spec: \<^verbatim>\<open>EnsureTagsExist\<close> (pkg/services/sqlstore/tags.go, not under
  src/), the "idempotent create-or-fetch" of tags: a tag whose key and value a row of \<open>tag\<close>
  has takes that row's id, any other is inserted under a new id.
\<close>

fun EnsureTagsExist :: "Tag list \<Rightarrow> store \<Rightarrow> store \<times> Tag list" where
  "EnsureTagsExist [] s = (s, [])"
| "EnsureTagsExist (t # ts) s =
     (case find (\<lambda>r. Key r = Key t \<and> Value r = Value t) (tag_tbl s) of
        Some existingTag \<Rightarrow>
          (case EnsureTagsExist ts s of (s', ts') \<Rightarrow> (s', t\<lparr>tag_Id := tag_Id existingTag\<rparr> # ts'))
      | None \<Rightarrow>
          (let t' = t\<lparr>tag_Id := next_id (map tag_Id (tag_tbl s))\<rparr>
           in case EnsureTagsExist ts (s\<lparr>tag_tbl := tag_tbl s @ [t']\<rparr>) of
                (s', ts') \<Rightarrow> (s', t' # ts')))"

definition insertTags :: "Tag list \<Rightarrow> int64 \<Rightarrow> store \<Rightarrow> error + store" where
  "insertTags tags alertID s =
     (case EnsureTagsExist tags s of
        (s', tags') \<Rightarrow>
          Inr (s'\<lparr>alert_rule_tag_tbl :=
                   alert_rule_tag_tbl s' @ map (\<lambda>t. (alertID, tag_Id t)) tags'\<rparr>))"

fun insertNotifications :: "int64 \<Rightarrow> int64 \<Rightarrow> string list \<Rightarrow> store \<Rightarrow> error + store" where
  "insertNotifications alertID orgID [] s = Inr s"
| "insertNotifications alertID orgID (uid # notificationUIDs) s =
     insertNotifications alertID orgID notificationUIDs
       (s\<lparr>alert_rule_notification_tbl :=
            alert_rule_notification_tbl s @
            map (\<lambda>n. (alertID, an_id n))
              (filter (\<lambda>n. an_org_id n = orgID \<and> an_uid n = uid) (alert_notification_tbl s))\<rparr>)"

text \<open>The second half of the body of the loop of \<^verbatim>\<open>updateAlerts\<close> (from
  \<^verbatim>\<open>tags := alert.GetTagsFromSettings()\<close> on): the rule's tag links and notification links
  are deleted and written again from its settings.\<close>

definition replaceLinks :: "Alert \<Rightarrow> store \<Rightarrow> error + store" where
  "replaceLinks alert s =
     (let tags = GetTagsFromSettings alert;
          s = s\<lparr>alert_rule_tag_tbl := filter (\<lambda>r. fst r \<noteq> ID alert) (alert_rule_tag_tbl s)\<rparr>
      in case insertTags tags (ID alert) s of
           Inl e \<Rightarrow> Inl e
         | Inr s \<Rightarrow>
             (case GetNotificationsFromSettings alert of
                None \<Rightarrow> Inl Panic
              | Some alertNotificationUIDs \<Rightarrow>
                  (let s = s\<lparr>alert_rule_notification_tbl :=
                               filter (\<lambda>r. fst r \<noteq> ID alert) (alert_rule_notification_tbl s)\<rparr>
                   in insertNotifications (ID alert) (OrgId alert) alertNotificationUIDs s)))"

text \<open>The first half of the body: the rule is matched by \<open>PanelId\<close> against the persisted
  rules, then updated (only when \<open>ContainsUpdates\<close>) or inserted. The result is the store,
  the rule as the code has changed it, and the number of clock readings taken so far.\<close>

definition upsertAlert ::
  "(nat \<Rightarrow> Time) \<Rightarrow> nat \<Rightarrow> Alert list \<Rightarrow> Alert \<Rightarrow> store \<Rightarrow> error + (store \<times> Alert \<times> nat)" where
  "upsertAlert timeNow n existingAlerts alert s =
     (case find (\<lambda>k. PanelId alert = PanelId k) existingAlerts of
        Some alertToUpdate \<Rightarrow>
          (let alert = alert\<lparr>ID := ID alertToUpdate\<rparr>
           in if ContainsUpdates alertToUpdate alert
              then (let alert = alert\<lparr>Updated := timeNow n\<rparr>;
                        alert = alert\<lparr>State := State alertToUpdate\<rparr>
                    in Inr (xorm_Update [''message'', ''for''] (ID alert) alert s, alert, n + 1))
              else Inr (s, alert, n))
      | None \<Rightarrow>
          (let alert = alert\<lparr>Updated := timeNow n\<rparr>;
               alert = alert\<lparr>Created := timeNow (n + 1)\<rparr>;
               alert = alert\<lparr>State := AlertStateUnknown\<rparr>;
               alert = alert\<lparr>NewStateDate := timeNow (n + 2)\<rparr>
           in case xorm_Insert alert s of
                Inl e \<Rightarrow> Inl e
              | Inr (s', alert') \<Rightarrow> Inr (s', alert', n + 3)))"

fun updateAlerts_loop ::
  "(nat \<Rightarrow> Time) \<Rightarrow> nat \<Rightarrow> Alert list \<Rightarrow> Alert list \<Rightarrow> store \<Rightarrow> error + store" where
  "updateAlerts_loop timeNow n existingAlerts [] s = Inr s"
| "updateAlerts_loop timeNow n existingAlerts (alert # alerts) s =
     (case upsertAlert timeNow n existingAlerts alert s of
        Inl e \<Rightarrow> Inl e
      | Inr (s1, alert', n') \<Rightarrow>
          (case replaceLinks alert' s1 of
             Inl e \<Rightarrow> Inl e
           | Inr s2 \<Rightarrow> updateAlerts_loop timeNow n' existingAlerts alerts s2))"

definition updateAlerts ::
  "(nat \<Rightarrow> Time) \<Rightarrow> Alert list \<Rightarrow> SaveAlertsCommand \<Rightarrow> store \<Rightarrow> error + store" where
  "updateAlerts timeNow existingAlerts cmd s =
     updateAlerts_loop timeNow 0 existingAlerts (Alerts cmd) s"

fun deleteMissingAlerts :: "Alert list \<Rightarrow> SaveAlertsCommand \<Rightarrow> store \<Rightarrow> error + store" where
  "deleteMissingAlerts [] cmd s = Inr s"
| "deleteMissingAlerts (missingAlert # alerts) cmd s =
     (let missing = (find (\<lambda>k. PanelId missingAlert = PanelId k) (Alerts cmd) = None)
      in if missing
         then (case deleteAlertByIdInternal (ID missingAlert) ''Removed from dashboard'' s of
                 Inl e \<Rightarrow> Inl e
               | Inr s' \<Rightarrow> deleteMissingAlerts alerts cmd s')
         else deleteMissingAlerts alerts cmd s)"

definition SaveAlerts :: "(nat \<Rightarrow> Time) \<Rightarrow> SaveAlertsCommand \<Rightarrow> store \<Rightarrow> error + store" where
  "SaveAlerts timeNow cmd s =
     (case GetAlertsByDashboardId2 (sa_DashboardId cmd) s of
        Inl e \<Rightarrow> Inl e
      | Inr existingAlerts \<Rightarrow>
          (case updateAlerts timeNow existingAlerts cmd s of
             Inl e \<Rightarrow> Inl e
           | Inr s1 \<Rightarrow> deleteMissingAlerts existingAlerts cmd s1))"


text \<open>Reconciliation run twice in a row with the same command: the second run starts from
  the store the first one leaves, and reads the clock \<open>timeNow2\<close>.\<close>

definition SaveAlerts_again ::
  "(nat \<Rightarrow> Time) \<Rightarrow> (nat \<Rightarrow> Time) \<Rightarrow> SaveAlertsCommand \<Rightarrow> store \<Rightarrow> error + store" where
  "SaveAlerts_again timeNow1 timeNow2 cmd s =
     (case SaveAlerts timeNow1 cmd s of
        Inl e \<Rightarrow> Inl e
      | Inr s1 \<Rightarrow> SaveAlerts timeNow2 cmd s1)"

text \<open>Notions for the properties of reconciliation: the persisted rule that a desired
  rule is matched to, the rule as the loop sends it to the store for an update and for an
  insert, and the row that the update leaves.\<close>

definition updateBean :: "(nat \<Rightarrow> Time) \<Rightarrow> nat \<Rightarrow> Alert \<Rightarrow> Alert \<Rightarrow> Alert" where
  "updateBean timeNow n alertToUpdate alert =
     alert\<lparr>ID := ID alertToUpdate, Updated := timeNow n, State := State alertToUpdate\<rparr>"

definition insertBean :: "(nat \<Rightarrow> Time) \<Rightarrow> nat \<Rightarrow> Alert \<Rightarrow> Alert" where
  "insertBean timeNow n alert =
     alert\<lparr>Updated := timeNow n, Created := timeNow (n + 1), State := AlertStateUnknown,
           NewStateDate := timeNow (n + 2)\<rparr>"

definition written :: "(nat \<Rightarrow> Time) \<Rightarrow> nat \<Rightarrow> Alert \<Rightarrow> Alert \<Rightarrow> Alert \<Rightarrow> Alert" where
  "written timeNow n alertToUpdate alert row =
     xorm_Update_row [''message'', ''for''] (updateBean timeNow n alertToUpdate alert) row"

definition matching :: "Alert list \<Rightarrow> Alert \<Rightarrow> Alert option" where
  "matching existingAlerts alert = find (\<lambda>k. PanelId alert = PanelId k) existingAlerts"

section \<open>Example data\<close>

definition exampleClock :: "nat \<Rightarrow> Time" where
  "exampleClock i = 1000 + int i"

definition laterClock :: "nat \<Rightarrow> Time" where
  "laterClock i = 2000 + int i"

definition exampleJson :: "string \<Rightarrow> Json" where
  "exampleJson enc =
     \<lparr>Encode = Some enc, alertRuleTags = Some [(''team'', ''ops'')],
      notifications = Some [Some ''mail'']\<rparr>"

definition exampleAlert :: "int64 \<Rightarrow> int64 \<Rightarrow> int64 \<Rightarrow> string \<Rightarrow> AlertStateType \<Rightarrow> Alert" where
  "exampleAlert i dash panel name st =
     \<lparr> ID = i, Version = 0, OrgId = 1, DashboardId = dash, PanelId = panel, Name = name,
       Message = ''msg'', Severity = [], State = st, Handler = 1, Silenced = False,
       ExecutionError = [], Frequency = 60, For = 0, EvalData = None, NewStateDate = 10,
       StateChanges = 0, Created = 10, Updated = 10, Settings = Some (exampleJson ''{}'') \<rparr>"

definition exampleStore :: "Alert list \<Rightarrow> store" where
  "exampleStore rows =
     \<lparr> alert_tbl = rows, annotation_tbl = [], alert_notification_state_tbl = [],
       alert_rule_tag_tbl = [], alert_rule_notification_tbl = [], tag_tbl = [],
       alert_notification_tbl = [], dashboard_tbl = [] \<rparr>"

definition pausedRule :: Alert where
  "pausedRule = exampleAlert 1 1 1 ''cpu'' AlertStatePaused"

definition okRule :: Alert where
  "okRule = exampleAlert 2 1 2 ''mem'' AlertStateOK"

definition stateStore :: store where
  "stateStore = exampleStore [pausedRule, okRule]"

definition setStateCmd :: "int64 \<Rightarrow> AlertStateType \<Rightarrow> SetAlertStateCommand" where
  "setStateCmd i st =
     \<lparr>AlertId = i, sas_OrgId = 1, sas_State = st, Error = [],
      sas_EvalData = Some (exampleJson ''[1]'')\<rparr>"

definition evaluatedRule :: Alert where
  "evaluatedRule = okRule\<lparr>EvalData := Some (exampleJson ''[0]'')\<rparr>"

definition wrappingRule :: Alert where
  "wrappingRule = okRule\<lparr>StateChanges := - 1\<rparr>"

definition zeroClock :: "nat \<Rightarrow> Time" where
  "zeroClock i = 0"

definition pauseCmd :: "int64 list \<Rightarrow> bool \<Rightarrow> PauseAlertCommand" where
  "pauseCmd ids p = \<lparr>pa_OrgId = 1, AlertIds = ids, Paused = p\<rparr>"

definition exampleLike :: "string \<Rightarrow> string \<Rightarrow> bool" where
  "exampleLike name pattern = True"

definition examplePermission :: "SignedInUser \<Rightarrow> Alert \<times> dashboard_row option \<Rightarrow> bool" where
  "examplePermission user r = True"

definition searchQuery :: "string list \<Rightarrow> GetAlertsQuery" where
  "searchQuery states =
     \<lparr> q_OrgId = 1, q_State = states, DashboardIDs = [], q_PanelId = 0, Limit = 0, Query = [],
       User = Some \<lparr>OrgRole = ROLE_ADMIN\<rparr>, StandaloneAlertsEnabled = True \<rparr>"

definition alertingRule :: Alert where
  "alertingRule = exampleAlert 3 1 3 ''disk'' AlertStateAlerting"

definition searchStore :: store where
  "searchStore = exampleStore [okRule, alertingRule]"

definition dependentStore :: store where
  "dependentStore =
     \<lparr> alert_tbl = [pausedRule, okRule],
       annotation_tbl = [\<lparr>annotation_id = 10, annotation_alert_id = 1\<rparr>,
                         \<lparr>annotation_id = 11, annotation_alert_id = 2\<rparr>],
       alert_notification_state_tbl = [\<lparr>ans_id = 20, ans_alert_id = 1\<rparr>],
       alert_rule_tag_tbl = [(1, 5), (2, 5)],
       alert_rule_notification_tbl = [(1, 6)],
       tag_tbl = [\<lparr>tag_Id = 5, Key = ''team'', Value = ''ops''\<rparr>],
       alert_notification_tbl = [\<lparr>an_id = 6, an_org_id = 1, an_uid = ''mail''\<rparr>],
       dashboard_tbl = [\<lparr>dashboard_id = 1, dashboard_uid = ''d1'', dashboard_slug = ''main''\<rparr>] \<rparr>"

definition emptySave :: SaveAlertsCommand where
  "emptySave = \<lparr>sa_DashboardId = 1, sa_UserId = 1, sa_OrgId = 1, Alerts = []\<rparr>"

definition desiredAlert :: "int64 \<Rightarrow> int64 \<Rightarrow> string \<Rightarrow> Alert" where
  "desiredAlert dash panel name =
     (exampleAlert 0 dash panel name [])\<lparr>NewStateDate := 0, Created := 0, Updated := 0\<rparr>"

definition pendingRule :: Alert where
  "pendingRule = exampleAlert 1 1 1 ''cpu'' AlertStatePending"

definition otherRule :: Alert where
  "otherRule = exampleAlert 9 2 1 ''other'' AlertStateOK"

definition reconcileStore :: store where
  "reconcileStore = exampleStore [pendingRule, okRule, alertingRule, otherRule]"

definition reconcileCmd :: SaveAlertsCommand where
  "reconcileCmd =
     \<lparr> sa_DashboardId = 1, sa_UserId = 1, sa_OrgId = 1,
       Alerts = [desiredAlert 1 2 ''mem'', desiredAlert 1 3 ''disk usage'', desiredAlert 1 4 ''net''] \<rparr>"

definition singleSave :: "Alert \<Rightarrow> SaveAlertsCommand" where
  "singleSave alert = \<lparr>sa_DashboardId = 1, sa_UserId = 1, sa_OrgId = 1, Alerts = [alert]\<rparr>"

definition unencodable :: Json where
  "unencodable = \<lparr>Encode = None, alertRuleTags = None, notifications = None\<rparr>"

section \<open>Properties of the state transition guard\<close>

lemma xorm_Get_None_iff: "xorm_Get i s = None \<longleftrightarrow> i \<notin> ID ` set (alert_tbl s)"
  by (auto simp: xorm_Get_def find_None_iff)

lemma xorm_Get_SomeD: "xorm_Get i s = Some a \<Longrightarrow> a \<in> set (alert_tbl s) \<and> ID a = i"
  by (auto simp: xorm_Get_def find_Some_iff)

lemma xorm_Update_row_sel:
  "ID (xorm_Update_row must bean row) = ID row"
  "Version (xorm_Update_row must bean row) =
     (if Version bean \<noteq> 0 \<or> ''version'' \<in> set must then Version bean else Version row)"
  "OrgId (xorm_Update_row must bean row) =
     (if OrgId bean \<noteq> 0 \<or> ''org_id'' \<in> set must then OrgId bean else OrgId row)"
  "DashboardId (xorm_Update_row must bean row) =
     (if DashboardId bean \<noteq> 0 \<or> ''dashboard_id'' \<in> set must then DashboardId bean else DashboardId row)"
  "PanelId (xorm_Update_row must bean row) =
     (if PanelId bean \<noteq> 0 \<or> ''panel_id'' \<in> set must then PanelId bean else PanelId row)"
  "Name (xorm_Update_row must bean row) =
     (if Name bean \<noteq> [] \<or> ''name'' \<in> set must then Name bean else Name row)"
  "Message (xorm_Update_row must bean row) =
     (if Message bean \<noteq> [] \<or> ''message'' \<in> set must then Message bean else Message row)"
  "State (xorm_Update_row must bean row) =
     (if State bean \<noteq> [] \<or> ''state'' \<in> set must then State bean else State row)"
  "ExecutionError (xorm_Update_row must bean row) =
     (if ExecutionError bean \<noteq> [] \<or> ''execution_error'' \<in> set must
      then ExecutionError bean else ExecutionError row)"
  "EvalData (xorm_Update_row must bean row) =
     (if EvalData bean \<noteq> None \<or> ''eval_data'' \<in> set must then EvalData bean else EvalData row)"
  "NewStateDate (xorm_Update_row must bean row) =
     (if NewStateDate bean \<noteq> 0 \<or> ''new_state_date'' \<in> set must
      then NewStateDate bean else NewStateDate row)"
  "StateChanges (xorm_Update_row must bean row) =
     (if StateChanges bean \<noteq> 0 \<or> ''state_changes'' \<in> set must
      then StateChanges bean else StateChanges row)"
  "Created (xorm_Update_row must bean row) =
     (if Created bean \<noteq> 0 \<or> ''created'' \<in> set must then Created bean else Created row)"
  "Updated (xorm_Update_row must bean row) =
     (if Updated bean \<noteq> 0 \<or> ''updated'' \<in> set must then Updated bean else Updated row)"
  "Settings (xorm_Update_row must bean row) =
     (if Settings bean \<noteq> None \<or> ''settings'' \<in> set must then Settings bean else Settings row)"
  unfolding xorm_Update_row_def by simp_all

text \<open>
  Claim C2, as amended. \<^verbatim>\<open>SetAlertState\<close> fails with \<open>ErrCouldNotFindAlert\<close> when no rule
  has the id; fails with \<open>ErrCannotChangeStateOnPausedAlert\<close> when the rule is paused,
  whatever state is requested; fails with \<open>ErrRequiresNewState\<close> when the rule is not paused
  and the requested state is its current state; and succeeds in every other case. The rule
  it then returns keeps its id and has the requested state, \<open>StateChanges\<close> one higher (in
  64-bit arithmetic), \<open>NewStateDate\<close> the clock's reading and the command's evaluation data.
  A row with the id remains, and every such row holds each of these four values that is not
  the zero value of its type (the empty state, a counter that has wrapped to 0, the zero
  time, no evaluation data): the storage layer's update leaves a zero value unwritten,
  which is why \<^verbatim>\<open>SetAlertState\<close> stores an empty error text as one space.
\<close>

theorem SetAlertState_transitions:
  "(AlertId cmd \<notin> ID ` set (alert_tbl s) \<longrightarrow>
      SetAlertState timeNow cmd s = Inl ErrCouldNotFindAlert)
   \<and> (\<forall>alert. xorm_Get (AlertId cmd) s = Some alert \<longrightarrow>
        (State alert = AlertStatePaused \<longrightarrow>
           SetAlertState timeNow cmd s = Inl ErrCannotChangeStateOnPausedAlert)
      \<and> (State alert \<noteq> AlertStatePaused \<and> sas_State cmd = State alert \<longrightarrow>
           SetAlertState timeNow cmd s = Inl ErrRequiresNewState)
      \<and> (State alert \<noteq> AlertStatePaused \<and> sas_State cmd \<noteq> State alert \<longrightarrow>
           (\<exists>s' r. SetAlertState timeNow cmd s = Inr (s', r)
              \<and> ID r = ID alert
              \<and> State r = sas_State cmd
              \<and> StateChanges r = StateChanges alert + 1
              \<and> NewStateDate r = timeNow 0
              \<and> EvalData r = sas_EvalData cmd
              \<and> (\<exists>row \<in> set (alert_tbl s'). ID row = AlertId cmd)
              \<and> (\<forall>row \<in> set (alert_tbl s'). ID row = AlertId cmd \<longrightarrow>
                    (sas_State cmd \<noteq> [] \<longrightarrow> State row = sas_State cmd)
                  \<and> (StateChanges alert + 1 \<noteq> 0 \<longrightarrow> StateChanges row = StateChanges alert + 1)
                  \<and> (timeNow 0 \<noteq> 0 \<longrightarrow> NewStateDate row = timeNow 0)
                  \<and> (sas_EvalData cmd \<noteq> None \<longrightarrow> EvalData row = sas_EvalData cmd)))))"
proof (intro conjI allI impI)
  assume "AlertId cmd \<notin> ID ` set (alert_tbl s)"
  then have "xorm_Get (AlertId cmd) s = None" by (simp add: xorm_Get_None_iff)
  then show "SetAlertState timeNow cmd s = Inl ErrCouldNotFindAlert"
    by (simp add: SetAlertState_def)
next
  fix alert
  assume "xorm_Get (AlertId cmd) s = Some alert" "State alert = AlertStatePaused"
  then show "SetAlertState timeNow cmd s = Inl ErrCannotChangeStateOnPausedAlert"
    by (simp add: SetAlertState_def)
next
  fix alert
  assume "xorm_Get (AlertId cmd) s = Some alert"
    "State alert \<noteq> AlertStatePaused \<and> sas_State cmd = State alert"
  then show "SetAlertState timeNow cmd s = Inl ErrRequiresNewState"
    by (simp add: SetAlertState_def)
next
  fix alert
  assume g: "xorm_Get (AlertId cmd) s = Some alert"
    and st: "State alert \<noteq> AlertStatePaused \<and> sas_State cmd \<noteq> State alert"
  from g have mem: "alert \<in> set (alert_tbl s)" and idv: "ID alert = AlertId cmd"
    using xorm_Get_SomeD by blast+
  define r where "r = alert\<lparr>State := sas_State cmd, StateChanges := StateChanges alert + 1,
      NewStateDate := timeNow 0, EvalData := sas_EvalData cmd,
      ExecutionError := (if Error cmd = [] then '' '' else Error cmd)\<rparr>"
  from st have st': "State alert \<noteq> sas_State cmd" by auto
  have res: "SetAlertState timeNow cmd s = Inr (xorm_Update [] (ID alert) r s, r)"
    using g st st' by (simp add: SetAlertState_def Let_def r_def)
  have rs: "ID r = ID alert" "State r = sas_State cmd" "StateChanges r = StateChanges alert + 1"
    "NewStateDate r = timeNow 0" "EvalData r = sas_EvalData cmd"
    by (simp_all add: r_def)
  let ?s' = "xorm_Update [] (ID alert) r s"
  have rows: "alert_tbl ?s' =
      map (\<lambda>row. if ID row = AlertId cmd then xorm_Update_row [] r row else row) (alert_tbl s)"
    by (simp add: xorm_Update_def idv)
  have ex: "\<exists>row \<in> set (alert_tbl ?s'). ID row = AlertId cmd"
  proof -
    have "xorm_Update_row [] r alert \<in> set (alert_tbl ?s')"
      unfolding rows using mem idv by (force simp: image_iff)
    moreover have "ID (xorm_Update_row [] r alert) = AlertId cmd"
      using idv by (simp add: xorm_Update_row_sel)
    ultimately show ?thesis by blast
  qed
  have all: "\<forall>row \<in> set (alert_tbl ?s'). ID row = AlertId cmd \<longrightarrow>
                    (sas_State cmd \<noteq> [] \<longrightarrow> State row = sas_State cmd)
                  \<and> (StateChanges alert + 1 \<noteq> 0 \<longrightarrow> StateChanges row = StateChanges alert + 1)
                  \<and> (timeNow 0 \<noteq> 0 \<longrightarrow> NewStateDate row = timeNow 0)
                  \<and> (sas_EvalData cmd \<noteq> None \<longrightarrow> EvalData row = sas_EvalData cmd)"
    unfolding rows by (auto simp: xorm_Update_row_sel rs)
  show "\<exists>s' r. SetAlertState timeNow cmd s = Inr (s', r)
              \<and> ID r = ID alert
              \<and> State r = sas_State cmd
              \<and> StateChanges r = StateChanges alert + 1
              \<and> NewStateDate r = timeNow 0
              \<and> EvalData r = sas_EvalData cmd
              \<and> (\<exists>row \<in> set (alert_tbl s'). ID row = AlertId cmd)
              \<and> (\<forall>row \<in> set (alert_tbl s'). ID row = AlertId cmd \<longrightarrow>
                    (sas_State cmd \<noteq> [] \<longrightarrow> State row = sas_State cmd)
                  \<and> (StateChanges alert + 1 \<noteq> 0 \<longrightarrow> StateChanges row = StateChanges alert + 1)
                  \<and> (timeNow 0 \<noteq> 0 \<longrightarrow> NewStateDate row = timeNow 0)
                  \<and> (sas_EvalData cmd \<noteq> None \<longrightarrow> EvalData row = sas_EvalData cmd))"
    using res rs ex all by blast
qed

lemma stateStore_Get:
  "xorm_Get 1 stateStore = Some pausedRule"
  "xorm_Get 2 stateStore = Some okRule"
  "xorm_Get 3 stateStore = None"
  by (simp_all add: xorm_Get_def stateStore_def exampleStore_def pausedRule_def okRule_def
      exampleAlert_def)

lemma example_states:
  "State pausedRule = AlertStatePaused" "State okRule = AlertStateOK"
  "StateChanges okRule = 0"
  "AlertStateOK \<noteq> AlertStatePaused" "AlertStateAlerting \<noteq> AlertStateOK"
  by (simp_all add: pausedRule_def okRule_def exampleAlert_def AlertStatePaused_def
      AlertStateOK_def AlertStateAlerting_def)

theorem SetAlertState_transitions_witness:
  "SetAlertState exampleClock (setStateCmd 3 AlertStateOK) stateStore = Inl ErrCouldNotFindAlert
   \<and> SetAlertState exampleClock (setStateCmd 1 AlertStateOK) stateStore
       = Inl ErrCannotChangeStateOnPausedAlert
   \<and> SetAlertState exampleClock (setStateCmd 2 AlertStateOK) stateStore = Inl ErrRequiresNewState
   \<and> (\<exists>s' r. SetAlertState exampleClock (setStateCmd 2 AlertStateAlerting) stateStore = Inr (s', r)
         \<and> State r = AlertStateAlerting \<and> StateChanges r = 1 \<and> NewStateDate r = 1000
         \<and> EvalData r = Some (exampleJson ''[1]'')
         \<and> (\<forall>row \<in> set (alert_tbl s'). ID row = 2 \<longrightarrow>
               State row = AlertStateAlerting \<and> StateChanges row = 1 \<and> NewStateDate row = 1000
             \<and> EvalData row = Some (exampleJson ''[1]'')))"
proof -
  have a: "AlertId (setStateCmd 3 AlertStateOK) \<notin> ID ` set (alert_tbl stateStore)"
    using stateStore_Get(3) by (simp add: xorm_Get_None_iff setStateCmd_def)
  have b: "xorm_Get (AlertId (setStateCmd 1 AlertStateOK)) stateStore = Some pausedRule"
    using stateStore_Get(1) by (simp add: setStateCmd_def)
  have c: "xorm_Get (AlertId (setStateCmd 2 AlertStateOK)) stateStore = Some okRule"
    using stateStore_Get(2) by (simp add: setStateCmd_def)
  have d: "xorm_Get (AlertId (setStateCmd 2 AlertStateAlerting)) stateStore = Some okRule"
    using stateStore_Get(2) by (simp add: setStateCmd_def)
  have sel: "\<And>i st. sas_State (setStateCmd i st) = st" "\<And>i st. AlertId (setStateCmd i st) = i"
    "\<And>i st. sas_EvalData (setStateCmd i st) = Some (exampleJson ''[1]'')"
    by (simp_all add: setStateCmd_def)
  have nz: "AlertStateAlerting \<noteq> []" "exampleClock 0 = 1000"
    by (simp_all add: AlertStateAlerting_def exampleClock_def)
  note t1 = SetAlertState_transitions [of "setStateCmd 3 AlertStateOK" stateStore exampleClock]
  note t2 = SetAlertState_transitions [of "setStateCmd 1 AlertStateOK" stateStore exampleClock]
  note t3 = SetAlertState_transitions [of "setStateCmd 2 AlertStateOK" stateStore exampleClock]
  note t4 = SetAlertState_transitions [of "setStateCmd 2 AlertStateAlerting" stateStore exampleClock]
  have 1: "SetAlertState exampleClock (setStateCmd 3 AlertStateOK) stateStore = Inl ErrCouldNotFindAlert"
    using t1 a by blast
  have 2: "SetAlertState exampleClock (setStateCmd 1 AlertStateOK) stateStore
       = Inl ErrCannotChangeStateOnPausedAlert"
    using t2 b example_states(1) by blast
  have 3: "SetAlertState exampleClock (setStateCmd 2 AlertStateOK) stateStore = Inl ErrRequiresNewState"
    using t3 c example_states(2,4) sel(1) by metis
  have 4: "\<exists>s' r. SetAlertState exampleClock (setStateCmd 2 AlertStateAlerting) stateStore = Inr (s', r)
         \<and> State r = AlertStateAlerting \<and> StateChanges r = 1 \<and> NewStateDate r = 1000
         \<and> EvalData r = Some (exampleJson ''[1]'')
         \<and> (\<forall>row \<in> set (alert_tbl s'). ID row = 2 \<longrightarrow>
               State row = AlertStateAlerting \<and> StateChanges row = 1 \<and> NewStateDate row = 1000
             \<and> EvalData row = Some (exampleJson ''[1]''))"
  proof -
    have pre: "State okRule \<noteq> AlertStatePaused \<and>
        sas_State (setStateCmd 2 AlertStateAlerting) \<noteq> State okRule"
      using example_states sel(1) by simp
    from t4 d pre obtain s' r where
      r: "SetAlertState exampleClock (setStateCmd 2 AlertStateAlerting) stateStore = Inr (s', r)"
        "State r = sas_State (setStateCmd 2 AlertStateAlerting)"
        "StateChanges r = StateChanges okRule + 1"
        "NewStateDate r = exampleClock 0"
        "EvalData r = sas_EvalData (setStateCmd 2 AlertStateAlerting)"
      and rows: "\<forall>row \<in> set (alert_tbl s'). ID row = AlertId (setStateCmd 2 AlertStateAlerting) \<longrightarrow>
                    (sas_State (setStateCmd 2 AlertStateAlerting) \<noteq> [] \<longrightarrow>
                       State row = sas_State (setStateCmd 2 AlertStateAlerting))
                  \<and> (StateChanges okRule + 1 \<noteq> 0 \<longrightarrow> StateChanges row = StateChanges okRule + 1)
                  \<and> (exampleClock 0 \<noteq> 0 \<longrightarrow> NewStateDate row = exampleClock 0)
                  \<and> (sas_EvalData (setStateCmd 2 AlertStateAlerting) \<noteq> None \<longrightarrow>
                       EvalData row = sas_EvalData (setStateCmd 2 AlertStateAlerting))"
      by blast
    show ?thesis
      using r rows by (simp add: sel nz example_states(3))
  qed
  show ?thesis using 1 2 3 4 by blast
qed

lemma okRule_sel:
  "ID okRule = 2" "State okRule = ''ok''" "StateChanges okRule = 0" "NewStateDate okRule = 10"
  "EvalData okRule = None" "ID pausedRule = 1" "State pausedRule = ''paused''"
  "NewStateDate pausedRule = 10" "EvalData pausedRule = None" "StateChanges pausedRule = 0"
  "OrgId okRule = 1" "OrgId pausedRule = 1"
  by (simp_all add: okRule_def pausedRule_def exampleAlert_def AlertStateOK_def
      AlertStatePaused_def)

lemma SetAlertState_Inr:
  assumes "xorm_Get (AlertId cmd) s = Some a" "State a \<noteq> AlertStatePaused"
    "State a \<noteq> sas_State cmd"
    "r = a\<lparr>State := sas_State cmd, StateChanges := StateChanges a + 1,
      NewStateDate := timeNow 0, EvalData := sas_EvalData cmd,
      ExecutionError := (if Error cmd = [] then '' '' else Error cmd)\<rparr>"
  shows "SetAlertState timeNow cmd s = Inr (xorm_Update [] (ID a) r s, r)"
  using assms(1-3) by (cases "Error cmd = []") (simp_all add: SetAlertState_def Let_def assms(4))

text \<open>The state change of a rule whose id no other row has.\<close>

lemma SetAlertState_row:
  assumes "alert_tbl s = pre @ [a] @ post" "ID a \<notin> ID ` set pre" "ID a \<notin> ID ` set post"
    "AlertId cmd = ID a" "State a \<noteq> AlertStatePaused" "State a \<noteq> sas_State cmd"
    "r = a\<lparr>State := sas_State cmd, StateChanges := StateChanges a + 1,
      NewStateDate := timeNow 0, EvalData := sas_EvalData cmd,
      ExecutionError := (if Error cmd = [] then '' '' else Error cmd)\<rparr>"
  shows "SetAlertState timeNow cmd s = Inr (s\<lparr>alert_tbl := pre @ [xorm_Update_row [] r a] @ post\<rparr>, r)"
proof -
  have g: "xorm_Get (AlertId cmd) s = Some a"
  proof -
    have "find (\<lambda>x. ID x = ID a) (pre @ [a] @ post) = Some a"
      using assms(2) by (induction pre) auto
    then show ?thesis by (simp add: xorm_Get_def assms(1,4))
  qed
  have p: "map (\<lambda>row. if ID row = ID a then xorm_Update_row [] r row else row) pre = pre"
    using assms(2) by (induction pre) auto
  have q: "map (\<lambda>row. if ID row = ID a then xorm_Update_row [] r row else row) post = post"
    using assms(3) by (induction post) auto
  have u: "xorm_Update [] (ID a) r s = s\<lparr>alert_tbl := pre @ [xorm_Update_row [] r a] @ post\<rparr>"
    by (simp add: xorm_Update_def assms(1) p q)
  have "SetAlertState timeNow cmd s = Inr (xorm_Update [] (ID a) r s, r)"
    by (rule SetAlertState_Inr [where timeNow = timeNow, OF g assms(5,6,7)])
  then show ?thesis by (simp only: u)
qed

text \<open>
  Claim C2 as stated fails at five inputs. A paused rule asked to go to \<open>paused\<close>: the
  requested state equals the current one, and the answer is the paused rule's error, not
  \<open>ErrRequiresNewState\<close>. And four state changes that succeed and return the rule with the
  new value, while the row keeps the old one: the empty state requested of an \<open>ok\<close> rule;
  a rule whose counter holds \<open>- 1\<close>, which the increment takes to 0; a clock that reads
  the zero time; and a command without evaluation data for a rule that has some.
\<close>

theorem SetAlertState_transitions_counterexample:
  "xorm_Get (AlertId (setStateCmd 1 AlertStatePaused)) stateStore = Some pausedRule
   \<and> sas_State (setStateCmd 1 AlertStatePaused) = State pausedRule
   \<and> SetAlertState exampleClock (setStateCmd 1 AlertStatePaused) stateStore
       = Inl ErrCannotChangeStateOnPausedAlert
   \<and> SetAlertState exampleClock (setStateCmd 1 AlertStatePaused) stateStore
       \<noteq> Inl ErrRequiresNewState
   \<and> map_sum id (\<lambda>(s', r). (State r, map State (alert_tbl s')))
        (SetAlertState exampleClock (setStateCmd 2 []) stateStore)
       = Inr ([], [''paused'', ''ok''])
   \<and> map_sum id (\<lambda>(s', r). (StateChanges r, map StateChanges (alert_tbl s')))
        (SetAlertState exampleClock (setStateCmd 2 AlertStateAlerting) (exampleStore [wrappingRule]))
       = Inr (0, [- 1])
   \<and> map_sum id (\<lambda>(s', r). (NewStateDate r, map NewStateDate (alert_tbl s')))
        (SetAlertState zeroClock (setStateCmd 2 AlertStateAlerting) stateStore)
       = Inr (0, [10, 10])
   \<and> map_sum id (\<lambda>(s', r). (EvalData r, map EvalData (alert_tbl s')))
        (SetAlertState exampleClock ((setStateCmd 2 AlertStateAlerting)\<lparr>sas_EvalData := None\<rparr>)
           (exampleStore [evaluatedRule]))
       = Inr (None, [Some (exampleJson ''[0]'')])"
proof -
  have sel: "\<And>i st. sas_State (setStateCmd i st) = st" "\<And>i st. AlertId (setStateCmd i st) = i"
    "\<And>i st. sas_EvalData (setStateCmd i st) = Some (exampleJson ''[1]'')"
    "\<And>i st. Error (setStateCmd i st) = []"
    by (simp_all add: setStateCmd_def)
  have ne: "State okRule \<noteq> AlertStatePaused" "State okRule \<noteq> []" "State okRule \<noteq> AlertStateAlerting"
    by (simp_all add: okRule_sel AlertStatePaused_def AlertStateAlerting_def)
  have a: "xorm_Get (AlertId (setStateCmd 1 AlertStatePaused)) stateStore = Some pausedRule
   \<and> sas_State (setStateCmd 1 AlertStatePaused) = State pausedRule
   \<and> SetAlertState exampleClock (setStateCmd 1 AlertStatePaused) stateStore
       = Inl ErrCannotChangeStateOnPausedAlert
   \<and> SetAlertState exampleClock (setStateCmd 1 AlertStatePaused) stateStore
       \<noteq> Inl ErrRequiresNewState"
    using stateStore_Get(1) example_states(1)
    by (simp add: SetAlertState_def setStateCmd_def)
  have t: "alert_tbl stateStore = [pausedRule] @ [okRule] @ []"
    by (simp add: stateStore_def exampleStore_def)
  have b: "map_sum id (\<lambda>(s', r). (State r, map State (alert_tbl s')))
        (SetAlertState exampleClock (setStateCmd 2 []) stateStore)
       = Inr ([], [''paused'', ''ok''])"
    using ne by (subst SetAlertState_row [OF t _ _ _ _ _ refl])
      (simp_all add: sel okRule_sel xorm_Update_row_sel)
  have c: "map_sum id (\<lambda>(s', r). (StateChanges r, map StateChanges (alert_tbl s')))
        (SetAlertState exampleClock (setStateCmd 2 AlertStateAlerting) (exampleStore [wrappingRule]))
       = Inr (0, [- 1])"
  proof -
    have t': "alert_tbl (exampleStore [wrappingRule]) = [] @ [wrappingRule] @ []"
      by (simp add: exampleStore_def)
    show ?thesis
      using ne by (subst SetAlertState_row [OF t' _ _ _ _ _ refl])
        (simp_all add: sel okRule_sel xorm_Update_row_sel wrappingRule_def)
  qed
  have d: "map_sum id (\<lambda>(s', r). (NewStateDate r, map NewStateDate (alert_tbl s')))
        (SetAlertState zeroClock (setStateCmd 2 AlertStateAlerting) stateStore)
       = Inr (0, [10, 10])"
    using ne by (subst SetAlertState_row [OF t _ _ _ _ _ refl])
      (simp_all add: sel okRule_sel xorm_Update_row_sel zeroClock_def)
  have e: "map_sum id (\<lambda>(s', r). (EvalData r, map EvalData (alert_tbl s')))
        (SetAlertState exampleClock ((setStateCmd 2 AlertStateAlerting)\<lparr>sas_EvalData := None\<rparr>)
           (exampleStore [evaluatedRule]))
       = Inr (None, [Some (exampleJson ''[0]'')])"
  proof -
    have t': "alert_tbl (exampleStore [evaluatedRule]) = [] @ [evaluatedRule] @ []"
      by (simp add: exampleStore_def)
    show ?thesis
      using ne by (subst SetAlertState_row [OF t' _ _ _ _ _ refl])
        (simp_all add: sel okRule_sel xorm_Update_row_sel evaluatedRule_def)
  qed
  from a have a1: "xorm_Get (AlertId (setStateCmd 1 AlertStatePaused)) stateStore = Some pausedRule"
    and a2: "sas_State (setStateCmd 1 AlertStatePaused) = State pausedRule"
    and a3: "SetAlertState exampleClock (setStateCmd 1 AlertStatePaused) stateStore
       = Inl ErrCannotChangeStateOnPausedAlert"
    and a4: "SetAlertState exampleClock (setStateCmd 1 AlertStatePaused) stateStore
       \<noteq> Inl ErrRequiresNewState"
    by argo+
  show ?thesis by (intro conjI) (fact a1 a2 a3 a4 b c d e)+
qed

lemma find_map_comp: "find P (map g xs) = map_option g (find (P \<circ> g) xs)"
  by (induction xs) auto

lemma find_distinct_ID:
  "distinct (map ID xs) \<Longrightarrow> a \<in> set xs \<Longrightarrow> find (\<lambda>x. ID x = ID a) xs = Some a"
  by (induction xs) (auto simp: image_iff)

lemma xorm_Get_member:
  "a \<in> set (alert_tbl s) \<Longrightarrow> \<exists>r \<in> set (alert_tbl s). ID r = ID a \<and> xorm_Get (ID a) s = Some r"
  unfolding xorm_Get_def
  by (cases "find (\<lambda>x. ID x = ID a) (alert_tbl s)") (auto simp: find_None_iff find_Some_iff)

text \<open>
  Claim C10. The \<open>OrgId\<close> of a \<^verbatim>\<open>SetAlertStateCommand\<close> has no influence on the result
  or on the store; \<^verbatim>\<open>GetAlertByIdQuery\<close> has no such field, and what \<^verbatim>\<open>GetAlertById\<close>
  finds does not depend on the organisation the rules belong to: moving the rules to other
  organisations changes the outcome only in the \<open>OrgId\<close> of the rule returned. So every
  rule of the store, of whatever organisation, is read by its id alone: \<^verbatim>\<open>GetAlertById\<close>
  returns a rule with that id, the rule itself when ids are unique. And it is
  state-transitioned by its id alone: when it is not paused and another state is requested,
  \<^verbatim>\<open>SetAlertState\<close> succeeds for every \<open>OrgId\<close> in the command, returns the rule with the
  requested state and its own organisation, and the row with the id has the requested
  (non-empty) state.
\<close>

theorem OrgId_is_ignored:
  "SetAlertState timeNow (cmd\<lparr>sas_OrgId := org\<rparr>) s = SetAlertState timeNow cmd s
   \<and> GetAlertById query (s\<lparr>alert_tbl := map (\<lambda>a. a\<lparr>OrgId := f a\<rparr>) (alert_tbl s)\<rparr>)
       = map_sum id (\<lambda>a. a\<lparr>OrgId := f a\<rparr>) (GetAlertById query s)
   \<and> (\<forall>a \<in> set (alert_tbl s).
        (\<exists>r \<in> set (alert_tbl s). ID r = ID a \<and> GetAlertById \<lparr>q_Id = ID a\<rparr> s = Inr r)
      \<and> (distinct (map ID (alert_tbl s)) \<longrightarrow>
            GetAlertById \<lparr>q_Id = ID a\<rparr> s = Inr a
          \<and> (AlertId cmd = ID a \<and> State a \<noteq> AlertStatePaused \<and> sas_State cmd \<noteq> State a \<longrightarrow>
               (\<exists>s' r. SetAlertState timeNow (cmd\<lparr>sas_OrgId := org\<rparr>) s = Inr (s', r)
                  \<and> ID r = ID a \<and> OrgId r = OrgId a \<and> State r = sas_State cmd
                  \<and> (\<forall>row \<in> set (alert_tbl s'). ID row = ID a \<longrightarrow>
                        OrgId row = OrgId a
                      \<and> (sas_State cmd \<noteq> [] \<longrightarrow> State row = sas_State cmd))))))"
proof (intro conjI ballI impI)
  show "SetAlertState timeNow (cmd\<lparr>sas_OrgId := org\<rparr>) s = SetAlertState timeNow cmd s"
    by (simp add: SetAlertState_def Let_def split: option.splits)
next
  have "(\<lambda>a. ID a = q_Id query) \<circ> (\<lambda>a. a\<lparr>OrgId := f a\<rparr>) = (\<lambda>a. ID a = q_Id query)"
    by (rule ext) simp
  then have "xorm_Get (q_Id query) (s\<lparr>alert_tbl := map (\<lambda>a. a\<lparr>OrgId := f a\<rparr>) (alert_tbl s)\<rparr>)
      = map_option (\<lambda>a. a\<lparr>OrgId := f a\<rparr>) (xorm_Get (q_Id query) s)"
    by (simp add: xorm_Get_def find_map_comp)
  then show "GetAlertById query (s\<lparr>alert_tbl := map (\<lambda>a. a\<lparr>OrgId := f a\<rparr>) (alert_tbl s)\<rparr>)
       = map_sum id (\<lambda>a. a\<lparr>OrgId := f a\<rparr>) (GetAlertById query s)"
    by (simp add: GetAlertById_def split: option.splits)
next
  fix a assume "a \<in> set (alert_tbl s)"
  from xorm_Get_member [OF this]
  show "\<exists>r \<in> set (alert_tbl s). ID r = ID a \<and> GetAlertById \<lparr>q_Id = ID a\<rparr> s = Inr r"
    by (auto simp: GetAlertById_def)
next
  fix a assume "a \<in> set (alert_tbl s)" "distinct (map ID (alert_tbl s))"
  then have "xorm_Get (ID a) s = Some a"
    by (simp add: xorm_Get_def find_distinct_ID)
  then show "GetAlertById \<lparr>q_Id = ID a\<rparr> s = Inr a"
    by (simp add: GetAlertById_def)
next
  fix a
  assume mem: "a \<in> set (alert_tbl s)" and dist: "distinct (map ID (alert_tbl s))"
    and pre: "AlertId cmd = ID a \<and> State a \<noteq> AlertStatePaused \<and> sas_State cmd \<noteq> State a"
  let ?cmd = "cmd\<lparr>sas_OrgId := org\<rparr>"
  define r where "r = a\<lparr>State := sas_State ?cmd, StateChanges := StateChanges a + 1,
      NewStateDate := timeNow 0, EvalData := sas_EvalData ?cmd,
      ExecutionError := (if Error ?cmd = [] then '' '' else Error ?cmd)\<rparr>"
  have g: "xorm_Get (AlertId ?cmd) s = Some a"
    using mem dist pre by (simp add: xorm_Get_def find_distinct_ID)
  have ne: "State a \<noteq> AlertStatePaused" "State a \<noteq> sas_State ?cmd"
    using pre by auto
  have res: "SetAlertState timeNow ?cmd s = Inr (xorm_Update [] (ID a) r s, r)"
    by (rule SetAlertState_Inr [where timeNow = timeNow, OF g ne r_def])
  have rs: "ID r = ID a" "OrgId r = OrgId a" "State r = sas_State cmd"
    by (simp_all add: r_def)
  have same: "\<And>row. row \<in> set (alert_tbl s) \<Longrightarrow> ID row = ID a \<Longrightarrow> row = a"
    using dist mem by (meson distinct_map inj_onD)
  have rows: "\<forall>row \<in> set (alert_tbl (xorm_Update [] (ID a) r s)). ID row = ID a \<longrightarrow>
                  OrgId row = OrgId a \<and> (sas_State cmd \<noteq> [] \<longrightarrow> State row = sas_State cmd)"
  proof (intro ballI impI)
    fix row assume "row \<in> set (alert_tbl (xorm_Update [] (ID a) r s))" "ID row = ID a"
    then obtain x where x: "x \<in> set (alert_tbl s)"
      "row = (if ID x = ID a then xorm_Update_row [] r x else x)"
      by (auto simp: xorm_Update_def)
    with \<open>ID row = ID a\<close> have "ID x = ID a"
      by (auto simp: xorm_Update_row_sel split: if_splits)
    with x(1) have "x = a" by (rule same)
    with x(2) have "row = xorm_Update_row [] r a" by simp
    then show "OrgId row = OrgId a \<and> (sas_State cmd \<noteq> [] \<longrightarrow> State row = sas_State cmd)"
      by (simp add: xorm_Update_row_sel rs)
  qed
  show "\<exists>s' r. SetAlertState timeNow ?cmd s = Inr (s', r)
                  \<and> ID r = ID a \<and> OrgId r = OrgId a \<and> State r = sas_State cmd
                  \<and> (\<forall>row \<in> set (alert_tbl s'). ID row = ID a \<longrightarrow>
                        OrgId row = OrgId a
                      \<and> (sas_State cmd \<noteq> [] \<longrightarrow> State row = sas_State cmd))"
    using res rs rows by (intro exI conjI) assumption+
qed

text \<open>The \<open>ok\<close> rule 2 of organisation 1 is read without naming an organisation, and
  set to \<open>alerting\<close> by a command that names organisation 7.\<close>

theorem OrgId_is_ignored_witness:
  "okRule \<in> set (alert_tbl stateStore) \<and> OrgId okRule = 1
   \<and> GetAlertById \<lparr>q_Id = 2\<rparr> stateStore = Inr okRule
   \<and> (\<exists>s' r. SetAlertState exampleClock ((setStateCmd 2 AlertStateAlerting)\<lparr>sas_OrgId := 7\<rparr>)
                 stateStore = Inr (s', r)
         \<and> ID r = 2 \<and> OrgId r = 1 \<and> State r = AlertStateAlerting
         \<and> (\<forall>row \<in> set (alert_tbl s'). ID row = 2 \<longrightarrow>
               OrgId row = 1 \<and> State row = AlertStateAlerting))"
proof -
  have mem: "okRule \<in> set (alert_tbl stateStore)"
    by (simp add: stateStore_def exampleStore_def)
  have dist: "distinct (map ID (alert_tbl stateStore))"
    by (simp add: stateStore_def exampleStore_def okRule_sel)
  have pre: "AlertId (setStateCmd 2 AlertStateAlerting) = ID okRule \<and> State okRule \<noteq> AlertStatePaused
      \<and> sas_State (setStateCmd 2 AlertStateAlerting) \<noteq> State okRule"
    by (simp add: setStateCmd_def okRule_sel AlertStatePaused_def AlertStateAlerting_def)
  note t = OrgId_is_ignored [where timeNow = exampleClock and cmd = "setStateCmd 2 AlertStateAlerting"
      and org = 7 and s = stateStore,
      THEN conjunct2, THEN conjunct2, rule_format, OF mem, THEN conjunct2, rule_format, OF dist]
  have get: "GetAlertById \<lparr>q_Id = 2\<rparr> stateStore = Inr okRule"
    using t [THEN conjunct1] by (simp add: okRule_sel)
  have set: "\<exists>s' r. SetAlertState exampleClock ((setStateCmd 2 AlertStateAlerting)\<lparr>sas_OrgId := 7\<rparr>)
                 stateStore = Inr (s', r)
         \<and> ID r = 2 \<and> OrgId r = 1 \<and> State r = AlertStateAlerting
         \<and> (\<forall>row \<in> set (alert_tbl s'). ID row = 2 \<longrightarrow>
               OrgId row = 1 \<and> State row = AlertStateAlerting)"
    using t [THEN conjunct2, rule_format, OF pre]
    by (simp add: okRule_sel setStateCmd_def AlertStateAlerting_def)
  show ?thesis
    using mem get set by (simp add: okRule_sel)
qed

section \<open>The one-space execution error\<close>

lemma HandleAlertsQuery_normalizes:
  assumes "HandleAlertsQuery LikeStr permissionFilter query s = Inr items" "item \<in> set items"
  shows "dto_ExecutionError item \<noteq> '' ''"
  using assms
  by (auto simp: HandleAlertsQuery_def Let_def normalizeExecutionError_def
      split: option.splits if_splits)

text \<open>
  Claim C3 fails on the code. Only \<^verbatim>\<open>HandleAlertsQuery\<close> replaces the one-space
  \<open>ExecutionError\<close> by the empty string (lemma \<open>HandleAlertsQuery_normalizes\<close>). After a
  state change with an empty error text, the rule that \<^verbatim>\<open>SetAlertState\<close> returns, the rule
  that \<^verbatim>\<open>GetAlertById\<close> returns and the list of \<^verbatim>\<open>GetAllAlertQueryHandler\<close> all carry
  the one-space value.
\<close>

theorem sentinel_returned_by_read_paths:
  "(case SetAlertState exampleClock (setStateCmd 2 AlertStateAlerting) stateStore of
      Inl e \<Rightarrow> False
    | Inr (s', r) \<Rightarrow>
        ExecutionError r = '' ''
        \<and> map_sum id ExecutionError (GetAlertById \<lparr>q_Id = 2\<rparr> s') = Inr '' ''
        \<and> map_sum id (map ExecutionError) (GetAllAlertQueryHandler s') = Inr [[], '' ''])"
proof -
  define r where "r = okRule\<lparr>State := AlertStateAlerting, StateChanges := StateChanges okRule + 1,
      NewStateDate := exampleClock 0, EvalData := Some (exampleJson ''[1]''),
      ExecutionError := '' ''\<rparr>"
  define s' where "s' = xorm_Update [] 2 r stateStore"
  have ids: "ID pausedRule = 1" "ID okRule = 2" "ExecutionError pausedRule = []"
    by (simp_all add: pausedRule_def okRule_def exampleAlert_def)
  have res: "SetAlertState exampleClock (setStateCmd 2 AlertStateAlerting) stateStore = Inr (s', r)"
    using stateStore_Get(2) example_states ids
    by (simp add: SetAlertState_def Let_def setStateCmd_def r_def s'_def)
  have rows: "alert_tbl s' = [pausedRule, xorm_Update_row [] r okRule]"
    using ids by (simp add: s'_def xorm_Update_def stateStore_def exampleStore_def)
  have e: "ExecutionError r = '' ''" "ExecutionError (xorm_Update_row [] r okRule) = '' ''"
    by (simp_all add: xorm_Update_row_sel r_def)
  have g: "GetAlertById \<lparr>q_Id = 2\<rparr> s' = Inr (xorm_Update_row [] r okRule)"
    using ids by (simp add: GetAlertById_def xorm_Get_def rows xorm_Update_row_sel)
  have a: "GetAllAlertQueryHandler s' = Inr [pausedRule, xorm_Update_row [] r okRule]"
    by (simp add: GetAllAlertQueryHandler_def rows)
  show ?thesis
    using e ids(3) by (simp add: res g a)
qed

section \<open>Pausing\<close>

lemma length_filter_map_same:
  "(\<And>x. P (g x) = P x) \<Longrightarrow> length (filter P (map g xs)) = length (filter P xs)"
  by (induction xs) auto

lemma exec_set_state_rows:
  "alert_tbl (fst (exec_set_state st t sel s)) =
     map (\<lambda>row. if sel row then row\<lparr>State := st, NewStateDate := t\<rparr> else row) (alert_tbl s)"
  "snd (exec_set_state st t sel s) = int (length (filter sel (alert_tbl s)))"
  "fst (exec_set_state st t sel s) = s\<lparr>alert_tbl := alert_tbl (fst (exec_set_state st t sel s))\<rparr>"
  by (simp_all add: exec_set_state_def)

lemma PauseAllAlerts_sets_state:
  "\<exists>s'. PauseAllAlerts timeNow paused s = Inr (s', int (length (alert_tbl s)))
     \<and> alert_tbl s' =
         map (\<lambda>row. row\<lparr>State := (if paused then AlertStatePaused else AlertStateUnknown),
                         NewStateDate := timeNow 0\<rparr>) (alert_tbl s)"
  by (simp add: PauseAllAlerts_def exec_set_state_def Let_def)

lemma PauseAlert_Inr:
  "AlertIds cmd \<noteq> [] \<Longrightarrow>
   PauseAlert timeNow cmd s =
     Inr (exec_set_state (if Paused cmd then AlertStatePaused else AlertStateUnknown) (timeNow 0)
            (\<lambda>row. ID row \<in> set (AlertIds cmd)) s)"
  by (simp add: PauseAlert_def Let_def)

text \<open>
  Claim C8. \<^verbatim>\<open>PauseAlert\<close> fails with \<open>ErrNoAlertIds\<close> on an empty list of ids. Otherwise it
  succeeds: every row whose id is listed gets the state \<open>paused\<close> (or \<open>unknown\<close> when
  \<open>Paused\<close> is false) and the clock's reading as \<open>NewStateDate\<close>, whatever its state was;
  every other row and every other table is unchanged; the count returned is the number of
  rows with a listed id, so an id no row has adds nothing and is no error. Unpausing the
  same ids afterwards succeeds with the same count and leaves each of these rows in state
  \<open>unknown\<close>.
\<close>

theorem PauseAlert_sets_state:
  "(AlertIds cmd = [] \<longrightarrow> PauseAlert timeNow cmd s = Inl ErrNoAlertIds)
   \<and> (AlertIds cmd \<noteq> [] \<longrightarrow>
        (\<exists>s' n. PauseAlert timeNow cmd s = Inr (s', n)
           \<and> n = int (length (filter (\<lambda>row. ID row \<in> set (AlertIds cmd)) (alert_tbl s)))
           \<and> s' = s\<lparr>alert_tbl := alert_tbl s'\<rparr>
           \<and> alert_tbl s' =
               map (\<lambda>row. if ID row \<in> set (AlertIds cmd)
                          then row\<lparr>State := (if Paused cmd then AlertStatePaused else AlertStateUnknown),
                                   NewStateDate := timeNow 0\<rparr>
                          else row) (alert_tbl s)
           \<and> (\<forall>timeNow2. \<exists>s'' m.
                 PauseAlert timeNow2 (cmd\<lparr>Paused := False\<rparr>) s' = Inr (s'', m) \<and> m = n
                 \<and> (\<forall>row \<in> set (alert_tbl s''). ID row \<in> set (AlertIds cmd) \<longrightarrow>
                       State row = AlertStateUnknown \<and> NewStateDate row = timeNow2 0))))"
proof (intro conjI impI)
  assume "AlertIds cmd = []"
  then show "PauseAlert timeNow cmd s = Inl ErrNoAlertIds" by (simp add: PauseAlert_def)
next
  assume ne: "AlertIds cmd \<noteq> []"
  let ?sel = "\<lambda>row. ID row \<in> set (AlertIds cmd)"
  let ?st = "if Paused cmd then AlertStatePaused else AlertStateUnknown"
  let ?r = "exec_set_state ?st (timeNow 0) ?sel s"
  let ?s' = "fst ?r"
  have res: "PauseAlert timeNow cmd s = Inr (?s', snd ?r)"
    using PauseAlert_Inr [OF ne, of timeNow s] by simp
  have rows: "alert_tbl ?s' = map (\<lambda>row. if ?sel row then row\<lparr>State := ?st, NewStateDate := timeNow 0\<rparr>
                          else row) (alert_tbl s)"
    by (rule exec_set_state_rows(1))
  have cnt: "snd ?r = int (length (filter ?sel (alert_tbl s)))"
    by (rule exec_set_state_rows(2))
  have frame: "?s' = s\<lparr>alert_tbl := alert_tbl ?s'\<rparr>"
    by (rule exec_set_state_rows(3))
  have unpause: "\<exists>s'' m. PauseAlert timeNow2 (cmd\<lparr>Paused := False\<rparr>) ?s' = Inr (s'', m) \<and> m = snd ?r
                 \<and> (\<forall>row \<in> set (alert_tbl s''). ID row \<in> set (AlertIds cmd) \<longrightarrow>
                       State row = AlertStateUnknown \<and> NewStateDate row = timeNow2 0)" for timeNow2
  proof -
    let ?r2 = "exec_set_state AlertStateUnknown (timeNow2 0) ?sel ?s'"
    have ne2: "AlertIds (cmd\<lparr>Paused := False\<rparr>) \<noteq> []" using ne by simp
    have res2: "PauseAlert timeNow2 (cmd\<lparr>Paused := False\<rparr>) ?s' = Inr (fst ?r2, snd ?r2)"
      using PauseAlert_Inr [OF ne2, of timeNow2 ?s'] by simp
    have "length (filter ?sel (alert_tbl ?s')) = length (filter ?sel (alert_tbl s))"
      unfolding rows by (rule length_filter_map_same) simp
    then have m: "snd ?r2 = snd ?r"
      by (simp add: exec_set_state_rows(2))
    have st: "\<forall>row \<in> set (alert_tbl (fst ?r2)). ID row \<in> set (AlertIds cmd) \<longrightarrow>
                       State row = AlertStateUnknown \<and> NewStateDate row = timeNow2 0"
      unfolding exec_set_state_rows(1) by auto
    show ?thesis using res2 m st by blast
  qed
  show "\<exists>s' n. PauseAlert timeNow cmd s = Inr (s', n)
           \<and> n = int (length (filter (\<lambda>row. ID row \<in> set (AlertIds cmd)) (alert_tbl s)))
           \<and> s' = s\<lparr>alert_tbl := alert_tbl s'\<rparr>
           \<and> alert_tbl s' =
               map (\<lambda>row. if ID row \<in> set (AlertIds cmd)
                          then row\<lparr>State := (if Paused cmd then AlertStatePaused else AlertStateUnknown),
                                   NewStateDate := timeNow 0\<rparr>
                          else row) (alert_tbl s)
           \<and> (\<forall>timeNow2. \<exists>s'' m.
                 PauseAlert timeNow2 (cmd\<lparr>Paused := False\<rparr>) s' = Inr (s'', m) \<and> m = n
                 \<and> (\<forall>row \<in> set (alert_tbl s''). ID row \<in> set (AlertIds cmd) \<longrightarrow>
                       State row = AlertStateUnknown \<and> NewStateDate row = timeNow2 0))"
    apply (rule exI[of _ ?s'], rule exI[of _ "snd ?r"])
    using res rows cnt frame unpause by blast
qed
text \<open>
  The theorem at the rules 1 (paused) and 2 (ok), for the ids 2 and 7: one row is counted,
  both rules are paused afterwards, and unpausing makes rule 2 \<open>unknown\<close>, not \<open>ok\<close>.
\<close>

theorem PauseAlert_sets_state_witness:
  "PauseAlert exampleClock (pauseCmd [] True) stateStore = Inl ErrNoAlertIds
   \<and> (\<exists>s' n. PauseAlert exampleClock (pauseCmd [2, 7] True) stateStore = Inr (s', n) \<and> n = 1
         \<and> map State (alert_tbl s') = [AlertStatePaused, AlertStatePaused]
         \<and> map NewStateDate (alert_tbl s') = [10, 1000]
         \<and> (\<exists>s'' m. PauseAlert exampleClock (pauseCmd [2, 7] False) s' = Inr (s'', m)
               \<and> (\<forall>row \<in> set (alert_tbl s''). ID row \<in> {2, 7} \<longrightarrow> State row = AlertStateUnknown)))"
proof -
  have sel: "AlertIds (pauseCmd [] True) = []" "AlertIds (pauseCmd [2, 7] True) = [2, 7]"
    "Paused (pauseCmd [2, 7] True)" "(pauseCmd [2, 7] True)\<lparr>Paused := False\<rparr> = pauseCmd [2, 7] False"
    by (simp_all add: pauseCmd_def)
  have rows: "alert_tbl stateStore = [pausedRule, okRule]" "ID pausedRule = 1" "ID okRule = 2"
    "State pausedRule = AlertStatePaused" "NewStateDate pausedRule = 10" "exampleClock 0 = 1000"
    by (simp_all add: stateStore_def exampleStore_def pausedRule_def okRule_def exampleAlert_def
        exampleClock_def)
  note t1 = PauseAlert_sets_state [where cmd = "pauseCmd [] True" and timeNow = exampleClock
      and s = stateStore]
  note t2 = PauseAlert_sets_state [where cmd = "pauseCmd [2, 7] True" and timeNow = exampleClock
      and s = stateStore]
  from t1 sel(1) have 1: "PauseAlert exampleClock (pauseCmd [] True) stateStore = Inl ErrNoAlertIds"
    by blast
  have ne: "AlertIds (pauseCmd [2, 7] True) \<noteq> []" by (simp add: sel)
  from t2 ne obtain s' n where
    r: "PauseAlert exampleClock (pauseCmd [2, 7] True) stateStore = Inr (s', n)"
    and n: "n = int (length (filter (\<lambda>row. ID row \<in> set (AlertIds (pauseCmd [2, 7] True)))
                (alert_tbl stateStore)))"
    and tbl: "alert_tbl s' =
               map (\<lambda>row. if ID row \<in> set (AlertIds (pauseCmd [2, 7] True))
                          then row\<lparr>State := (if Paused (pauseCmd [2, 7] True) then AlertStatePaused
                                                else AlertStateUnknown),
                                   NewStateDate := exampleClock 0\<rparr>
                          else row) (alert_tbl stateStore)"
    and u: "\<forall>timeNow2. \<exists>s'' m.
                 PauseAlert timeNow2 ((pauseCmd [2, 7] True)\<lparr>Paused := False\<rparr>) s' = Inr (s'', m)
                 \<and> m = n
                 \<and> (\<forall>row \<in> set (alert_tbl s''). ID row \<in> set (AlertIds (pauseCmd [2, 7] True)) \<longrightarrow>
                       State row = AlertStateUnknown \<and> NewStateDate row = timeNow2 0)"
    by blast
  have n1: "n = 1" unfolding n sel by (simp add: rows)
  have st: "map State (alert_tbl s') = [AlertStatePaused, AlertStatePaused]"
    "map NewStateDate (alert_tbl s') = [10, 1000]"
    unfolding tbl by (simp_all add: rows sel)
  from u [rule_format, of exampleClock] obtain s'' m where
    "PauseAlert exampleClock (pauseCmd [2, 7] False) s' = Inr (s'', m)"
    "\<forall>row \<in> set (alert_tbl s''). ID row \<in> {2, 7} \<longrightarrow> State row = AlertStateUnknown"
    unfolding sel by auto
  with r n1 st 1 show ?thesis by (intro conjI exI) assumption+
qed

section \<open>Search by state\<close>

lemma trimLeft_Nil: "trimLeft ws [] = []"
proof -
  have "find (\<lambda>w. w \<noteq> [] \<and> HasPrefix [] w) ws = None"
    by (auto simp: find_None_iff HasPrefix_def)
  then show ?thesis by (subst trimLeft.simps) simp
qed

lemma TrimSpace_Nil: "TrimSpace [] = []"
  by (simp add: TrimSpace_def trimLeft_Nil)

text \<open>White space is removed at both ends and kept inside; a text of white space only,
  here a space, a no-break space (U+00A0) and a line separator (U+2028), becomes empty.\<close>

lemma TrimSpace_examples:
  "TrimSpace ''  cpu load  '' = ''cpu load''"
  "TrimSpace [CHR 0x20, CHR 0xC2, CHR 0xA0, CHR 0xE2, CHR 0x80, CHR 0xA8] = []"
  "TrimSpace [CHR 0xC2, CHR 0xA0, CHR ''a'', CHR 0xA0] = [CHR ''a'', CHR 0xA0]"
  by code_simp+

lemma state_clause_iff:
  "state_clause vs st \<longleftrightarrow>
     (\<exists>v \<in> set vs. if HasPrefix v ''not_'' then st \<noteq> TrimPrefix v ''not_'' else st = v)"
  by (induction vs) auto

lemma dto_State_item [simp]: "dto_State (normalizeExecutionError (toListItem r)) = State (fst r)"
  by (cases r) (simp add: normalizeExecutionError_def toListItem_def)

lemma alerts_where_state:
  assumes "q_State query \<noteq> []" "hd (q_State query) \<noteq> ''all''"
  shows "alerts_where L P query user r \<longleftrightarrow>
     alerts_where L P (query\<lparr>q_State := []\<rparr>) user r \<and> state_clause (q_State query) (State (fst r))"
  using assms by (auto simp: alerts_where_def)

lemma alerts_where_all:
  "alerts_where L P (query\<lparr>q_State := ''all'' # rest\<rparr>) user
     = alerts_where L P (query\<lparr>q_State := []\<rparr>) user"
  by (rule ext) (simp add: alerts_where_def)

lemma HandleAlertsQuery_states:
  assumes "HandleAlertsQuery L P query s = Inr items" "item \<in> set items"
    "q_State query \<noteq> []" "hd (q_State query) \<noteq> ''all''"
  shows "state_clause (q_State query) (dto_State item)"
proof -
  from assms(1) obtain user where u: "User query = Some user"
    by (auto simp: HandleAlertsQuery_def split: option.splits)
  let ?rows = "filter (alerts_where L P query user) (join_dashboard (StandaloneAlertsEnabled query) s)"
  let ?sorted = "sort_key (\<lambda>r. Name (fst r)) ?rows"
  let ?limited = "if Limit query \<noteq> 0 then dialect_Limit (Limit query) ?sorted else ?sorted"
  have items: "items = map normalizeExecutionError (map toListItem ?limited)"
    using assms(1) u by (simp add: HandleAlertsQuery_def Let_def)
  have "set ?limited \<subseteq> set ?rows"
    using set_take_subset [of "nat (Limit query)" ?sorted] by (auto simp: dialect_Limit_def)
  with assms(2) items obtain r where r: "r \<in> set ?rows" "item = normalizeExecutionError (toListItem r)"
    by auto
  from r(1) have "alerts_where L P query user r" by simp
  then have "state_clause (q_State query) (State (fst r))"
    using alerts_where_state [OF assms(3,4)] by blast
  then show ?thesis using r(2) by simp
qed

lemma HandleAlertsQuery_unlimited:
  assumes "q_State query \<noteq> []" "hd (q_State query) \<noteq> ''all''" "Limit query = 0"
  shows "HandleAlertsQuery L P query s =
     map_sum id (filter (\<lambda>item. state_clause (q_State query) (dto_State item)))
       (HandleAlertsQuery L P (query\<lparr>q_State := []\<rparr>) s)"
proof (cases "User query")
  case None
  then show ?thesis by (simp add: HandleAlertsQuery_def)
next
  case (Some user)
  let ?J = "join_dashboard (StandaloneAlertsEnabled query) s"
  let ?W = "alerts_where L P (query\<lparr>q_State := []\<rparr>) user"
  let ?C = "\<lambda>r. state_clause (q_State query) (State (fst r))"
  have w: "alerts_where L P query user = (\<lambda>r. ?W r \<and> ?C r)"
    using alerts_where_state [OF assms(1,2)] by (intro ext) blast
  have "filter (alerts_where L P query user) ?J = filter ?C (filter ?W ?J)"
    unfolding w by simp
  then have rows: "sort_key (\<lambda>r. Name (fst r)) (filter (alerts_where L P query user) ?J)
      = filter ?C (sort_key (\<lambda>r. Name (fst r)) (filter ?W ?J))"
    by (simp add: filter_sort)
  have m: "map (normalizeExecutionError \<circ> toListItem) (filter ?C xs)
      = filter (\<lambda>item. state_clause (q_State query) (dto_State item))
          (map (normalizeExecutionError \<circ> toListItem) xs)" for xs
    by (induction xs) auto
  show ?thesis
    using Some assms(3) by (simp add: HandleAlertsQuery_def Let_def rows m)
qed

text \<open>
  Claim C7, as amended. With the state filter \<^verbatim>\<open>not_ok\<close> every rule returned has a state
  other than \<open>ok\<close>. In general, with a non-empty filter whose first token is not \<^verbatim>\<open>all\<close>,
  every rule returned satisfies one of the tokens (\<^verbatim>\<open>not_X\<close>: the state is not \<open>X\<close>; any
  other token: the state is that token), and without a row limit the result is exactly the
  result of the unfiltered query restricted to such rules. A filter whose first token is
  \<^verbatim>\<open>all\<close> gives the result of the query without a state filter.
\<close>

theorem search_state_filter:
  "(q_State query = [''not_ok''] \<and> HandleAlertsQuery L P query s = Inr items \<longrightarrow>
      (\<forall>item \<in> set items. dto_State item \<noteq> AlertStateOK))
   \<and> (q_State query \<noteq> [] \<and> hd (q_State query) \<noteq> ''all''
        \<and> HandleAlertsQuery L P query s = Inr items \<longrightarrow>
      (\<forall>item \<in> set items. \<exists>v \<in> set (q_State query).
         if HasPrefix v ''not_'' then dto_State item \<noteq> TrimPrefix v ''not_''
         else dto_State item = v))
   \<and> (q_State query \<noteq> [] \<and> hd (q_State query) \<noteq> ''all'' \<and> Limit query = 0 \<longrightarrow>
      HandleAlertsQuery L P query s =
        map_sum id (filter (\<lambda>item. state_clause (q_State query) (dto_State item)))
          (HandleAlertsQuery L P (query\<lparr>q_State := []\<rparr>) s))
   \<and> HandleAlertsQuery L P (query\<lparr>q_State := ''all'' # rest\<rparr>) s
       = HandleAlertsQuery L P (query\<lparr>q_State := []\<rparr>) s"
proof (intro conjI impI ballI)
  fix item
  assume a: "q_State query = [''not_ok''] \<and> HandleAlertsQuery L P query s = Inr items"
    and i: "item \<in> set items"
  then have "state_clause (q_State query) (dto_State item)"
    using HandleAlertsQuery_states [of L P query s items item] by simp
  with a show "dto_State item \<noteq> AlertStateOK"
    by (simp add: HasPrefix_def TrimPrefix_def AlertStateOK_def)
next
  fix item
  assume a: "q_State query \<noteq> [] \<and> hd (q_State query) \<noteq> ''all''
        \<and> HandleAlertsQuery L P query s = Inr items"
    and i: "item \<in> set items"
  then have "state_clause (q_State query) (dto_State item)"
    using HandleAlertsQuery_states [of L P query s items item] by simp
  then show "\<exists>v \<in> set (q_State query).
         if HasPrefix v ''not_'' then dto_State item \<noteq> TrimPrefix v ''not_''
         else dto_State item = v"
    by (simp add: state_clause_iff)
next
  assume "q_State query \<noteq> [] \<and> hd (q_State query) \<noteq> ''all'' \<and> Limit query = 0"
  then show "HandleAlertsQuery L P query s =
        map_sum id (filter (\<lambda>item. state_clause (q_State query) (dto_State item)))
          (HandleAlertsQuery L P (query\<lparr>q_State := []\<rparr>) s)"
    using HandleAlertsQuery_unlimited by blast
next
  show "HandleAlertsQuery L P (query\<lparr>q_State := ''all'' # rest\<rparr>) s
       = HandleAlertsQuery L P (query\<lparr>q_State := []\<rparr>) s"
    by (simp add: HandleAlertsQuery_def Let_def alerts_where_all split: option.splits)
qed

lemma searchStore_join:
  "join_dashboard True searchStore = [(okRule, None), (alertingRule, None)]"
  by (simp add: join_dashboard_def searchStore_def exampleStore_def)

lemma search_rows:
  "OrgId okRule = 1" "OrgId alertingRule = 1" "State okRule = ''ok''"
  "State alertingRule = ''alerting''" "Name okRule = ''mem''" "Name alertingRule = ''disk''"
  by (simp_all add: okRule_def alertingRule_def exampleAlert_def AlertStateOK_def
      AlertStateAlerting_def)

lemma search_where:
  "alerts_where exampleLike examplePermission (searchQuery sts) \<lparr>OrgRole = ROLE_ADMIN\<rparr> (a, None)
     \<longleftrightarrow> OrgId a = 1 \<and> (if sts \<noteq> [] \<and> hd sts \<noteq> ''all'' then state_clause sts (State a) else True)"
  by (simp add: alerts_where_def searchQuery_def TrimSpace_Nil)

lemma searchStore_query:
  "HandleAlertsQuery exampleLike examplePermission (searchQuery sts) searchStore =
     Inr (map normalizeExecutionError (map toListItem (sort_key (\<lambda>r. Name (fst r))
       (filter (\<lambda>r. if sts \<noteq> [] \<and> hd sts \<noteq> ''all'' then state_clause sts (State (fst r)) else True)
          [(okRule, None), (alertingRule, None)]))))"
proof -
  have q: "User (searchQuery sts) = Some \<lparr>OrgRole = ROLE_ADMIN\<rparr>"
    "StandaloneAlertsEnabled (searchQuery sts) = True" "Limit (searchQuery sts) = 0"
    by (simp_all add: searchQuery_def)
  have f: "filter (alerts_where exampleLike examplePermission (searchQuery sts) \<lparr>OrgRole = ROLE_ADMIN\<rparr>)
          [(okRule, None), (alertingRule, None)]
      = filter (\<lambda>r. if sts \<noteq> [] \<and> hd sts \<noteq> ''all'' then state_clause sts (State (fst r)) else True)
          [(okRule, None), (alertingRule, None)]"
    by (simp add: search_where search_rows(1,2))
  show ?thesis
    by (simp only: HandleAlertsQuery_def q option.case Let_def searchStore_join f if_False
        simp_thms)
qed

lemma dto_Name_item: "dto_Name (normalizeExecutionError (toListItem r)) = Name (fst r)"
    by (cases r) (simp add: normalizeExecutionError_def toListItem_def)

lemma ok_all_keeps_ok: "(if [''ok'',''all''] \<noteq> [] \<and> hd [''ok'',''all''] \<noteq> ''all'' then state_clause [''ok'',''all''] (State (fst (okRule, None :: dashboard_row option))) else True) = True"
  by (simp add: search_rows HasPrefix_def)

lemma ok_all_drops_alerting: "(if [''ok'',''all''] \<noteq> [] \<and> hd [''ok'',''all''] \<noteq> ''all'' then state_clause [''ok'',''all''] (State (fst (alertingRule, None :: dashboard_row option))) else True) = False"
  by (simp add: search_rows HasPrefix_def)

lemma ok_all_filter: "filter (\<lambda>r. if [''ok'', ''all''] \<noteq> [] \<and> hd [''ok'', ''all''] \<noteq> ''all'' then state_clause [''ok'', ''all''] (State (fst r)) else True)
          [(okRule, None :: dashboard_row option), (alertingRule, None)] = [(okRule, None)]"
  by (simp only: filter.simps ok_all_keeps_ok ok_all_drops_alerting if_True if_False)

lemma no_state_filter: "filter (\<lambda>r. if ([]::string list) \<noteq> [] \<and> hd [] \<noteq> ''all'' then state_clause [] (State (fst r)) else True)
          [(okRule, None :: dashboard_row option), (alertingRule, None)]
          = [(okRule, None), (alertingRule, None)]"
  by simp

lemma search_sorted: "sort_key (\<lambda>r. Name (fst r)) [(okRule, None :: dashboard_row option), (alertingRule, None)]
    = [(alertingRule, None), (okRule, None)]"
proof -
  have le: "\<not> Name okRule \<le> Name alertingRule"
    unfolding search_rows(5,6) by code_simp
  then show ?thesis by simp
qed

text \<open>
  The filter \<^verbatim>\<open>["ok", "all"]\<close> contains \<^verbatim>\<open>all\<close>, and the alerting rule is filtered out
  all the same: only the first token is compared with \<^verbatim>\<open>all\<close>.
\<close>

theorem all_not_first_counterexample:
  "map_sum id (map dto_Name)
     (HandleAlertsQuery exampleLike examplePermission (searchQuery [''ok'', ''all'']) searchStore)
     = Inr [''mem'']
   \<and> map_sum id (map dto_Name)
     (HandleAlertsQuery exampleLike examplePermission (searchQuery []) searchStore)
     = Inr [''disk'', ''mem'']"
  unfolding searchStore_query ok_all_filter no_state_filter search_sorted
  by (simp add: dto_Name_item search_rows(5,6))

text \<open>
  The theorem at a store with one rule in state \<open>ok\<close> and one in state \<open>alerting\<close>.
\<close>

theorem search_state_filter_witness:
  "\<exists>items. HandleAlertsQuery exampleLike examplePermission (searchQuery [''not_ok'']) searchStore
       = Inr items
     \<and> map dto_Name items = [''disk'']
     \<and> (\<forall>item \<in> set items. dto_State item \<noteq> AlertStateOK)
     \<and> HandleAlertsQuery exampleLike examplePermission
           ((searchQuery [''not_ok''])\<lparr>q_State := [''all'', ''ok'']\<rparr>) searchStore
         = HandleAlertsQuery exampleLike examplePermission
           ((searchQuery [''not_ok''])\<lparr>q_State := []\<rparr>) searchStore"
proof -
  let ?items = "[normalizeExecutionError (toListItem (alertingRule, None))]"
  have c: "(if [''not_ok''] \<noteq> [] \<and> hd [''not_ok''] \<noteq> ''all''
            then state_clause [''not_ok''] (State (fst (okRule, None :: dashboard_row option)))
            else True) = False"
    "(if [''not_ok''] \<noteq> [] \<and> hd [''not_ok''] \<noteq> ''all''
            then state_clause [''not_ok''] (State (fst (alertingRule, None :: dashboard_row option)))
            else True) = True"
    by (simp_all add: search_rows HasPrefix_def TrimPrefix_def)
  have f: "filter (\<lambda>r. if [''not_ok''] \<noteq> [] \<and> hd [''not_ok''] \<noteq> ''all''
                       then state_clause [''not_ok''] (State (fst r)) else True)
          [(okRule, None :: dashboard_row option), (alertingRule, None)] = [(alertingRule, None)]"
    by (simp only: filter.simps c if_True if_False)
  have e: "HandleAlertsQuery exampleLike examplePermission (searchQuery [''not_ok'']) searchStore
      = Inr ?items"
    unfolding searchStore_query f by simp
  have q: "q_State (searchQuery [''not_ok'']) = [''not_ok'']"
    by (simp add: searchQuery_def)
  note t = search_state_filter [where query = "searchQuery [''not_ok'']" and L = exampleLike
      and P = examplePermission and s = searchStore and items = ?items and rest = "[''ok'']"]
  from t e q have 1: "\<forall>item \<in> set ?items. dto_State item \<noteq> AlertStateOK" by blast
  from t have 2: "HandleAlertsQuery exampleLike examplePermission
           ((searchQuery [''not_ok''])\<lparr>q_State := [''all'', ''ok'']\<rparr>) searchStore
         = HandleAlertsQuery exampleLike examplePermission
           ((searchQuery [''not_ok''])\<lparr>q_State := []\<rparr>) searchStore" by blast
  have 3: "map dto_Name ?items = [''disk'']"
    by (simp add: dto_Name_item search_rows)
  show ?thesis
    by (rule exI [of _ ?items], intro conjI) (fact e, fact 3, fact 1, fact 2)
qed

section \<open>Cascading deletion\<close>

lemma deleteAlertByIdInternal_total:
  "\<exists>s'. deleteAlertByIdInternal i reason s = Inr s'"
  by (simp add: deleteAlertByIdInternal_def Let_def)

lemma deleteAlertByIdInternal_tables:
  assumes "deleteAlertByIdInternal i reason s = Inr s'"
  shows "alert_tbl s' = filter (\<lambda>a. ID a \<noteq> i) (alert_tbl s)"
    "annotation_tbl s' = filter (\<lambda>r. annotation_alert_id r \<noteq> i) (annotation_tbl s)"
    "alert_notification_state_tbl s' =
       filter (\<lambda>r. ans_alert_id r \<noteq> i) (alert_notification_state_tbl s)"
    "alert_rule_tag_tbl s' = filter (\<lambda>r. fst r \<noteq> i) (alert_rule_tag_tbl s)"
    "alert_rule_notification_tbl s' = filter (\<lambda>r. fst r \<noteq> i) (alert_rule_notification_tbl s)"
    "tag_tbl s' = tag_tbl s" "alert_notification_tbl s' = alert_notification_tbl s"
    "dashboard_tbl s' = dashboard_tbl s"
  using assms by (auto simp: deleteAlertByIdInternal_def Let_def)

lemma image_filter_neq:
  "j \<in> f ` set (filter (\<lambda>r. f r \<noteq> i) xs) \<longleftrightarrow> j \<in> f ` set xs \<and> j \<noteq> i"
  by auto

lemma deleteAlertByIdInternal_references:
  assumes "deleteAlertByIdInternal i reason s = Inr s'"
  shows "references j s' \<longleftrightarrow> references j s \<and> j \<noteq> i"
  unfolding references_def deleteAlertByIdInternal_tables [OF assms] image_filter_neq
  by blast

lemma deleteAlerts_references:
  "deleteAlerts alerts s = Inr s' \<Longrightarrow>
   references j s' \<longleftrightarrow> references j s \<and> j \<notin> ID ` set alerts"
proof (induction alerts arbitrary: s)
  case Nil
  then show ?case by simp
next
  case (Cons a alerts)
  from deleteAlertByIdInternal_total obtain s1 where
    s1: "deleteAlertByIdInternal (ID a) ''Dashboard deleted'' s = Inr s1" by blast
  with Cons.prems have "deleteAlerts alerts s1 = Inr s'" by simp
  from Cons.IH [OF this] deleteAlertByIdInternal_references [OF s1, of j]
  show ?case by auto
qed

lemma deleteAlerts_total: "\<exists>s'. deleteAlerts alerts s = Inr s'"
proof (induction alerts arbitrary: s)
  case Nil
  then show ?case by simp
next
  case (Cons a alerts)
  from deleteAlertByIdInternal_total obtain s1 where
    s1: "deleteAlertByIdInternal (ID a) ''Dashboard deleted'' s = Inr s1" by blast
  with Cons.IH [of s1] show ?case by simp
qed

lemma find_None_panel:
  "find (\<lambda>k. PanelId a = PanelId k) xs = None \<longleftrightarrow> PanelId a \<notin> PanelId ` set xs"
  by (auto simp: find_None_iff)

lemma deleteMissingAlerts_references:
  "deleteMissingAlerts existing cmd s = Inr s' \<Longrightarrow>
   references j s' \<longleftrightarrow>
     references j s \<and> j \<notin> ID ` {k \<in> set existing. PanelId k \<notin> PanelId ` set (Alerts cmd)}"
proof (induction existing arbitrary: s)
  case Nil
  then show ?case by simp
next
  case (Cons a existing)
  show ?case
  proof (cases "PanelId a \<in> PanelId ` set (Alerts cmd)")
    case True
    with Cons.prems have "deleteMissingAlerts existing cmd s = Inr s'"
      by (simp add: find_None_panel)
    from Cons.IH [OF this] True show ?thesis by auto
  next
    case False
    from deleteAlertByIdInternal_total obtain s1 where
      s1: "deleteAlertByIdInternal (ID a) ''Removed from dashboard'' s = Inr s1" by blast
    with Cons.prems False have "deleteMissingAlerts existing cmd s1 = Inr s'"
      by (simp add: find_None_panel)
    from Cons.IH [OF this] deleteAlertByIdInternal_references [OF s1, of j] False
    show ?thesis by auto
  qed
qed

lemma deleteMissingAlerts_total: "\<exists>s'. deleteMissingAlerts existing cmd s = Inr s'"
proof (induction existing arbitrary: s)
  case Nil
  then show ?case by simp
next
  case (Cons a existing)
  from deleteAlertByIdInternal_total obtain s1 where
    s1: "deleteAlertByIdInternal (ID a) ''Removed from dashboard'' s = Inr s1" by blast
  with Cons.IH [of s1] Cons.IH [of s] show ?case by (simp add: Let_def)
qed

lemma SaveAlerts_InrD:
  assumes "SaveAlerts timeNow cmd s = Inr s'"
  obtains s1 where
    "updateAlerts_loop timeNow 0 (filter (\<lambda>a. DashboardId a = sa_DashboardId cmd) (alert_tbl s))
       (Alerts cmd) s = Inr s1"
    "deleteMissingAlerts (filter (\<lambda>a. DashboardId a = sa_DashboardId cmd) (alert_tbl s)) cmd s1
       = Inr s'"
  using assms
  by (auto simp: SaveAlerts_def GetAlertsByDashboardId2_def updateAlerts_def split: sum.splits)

text \<open>
  Claim C9. \<open>references i s\<close> says that the rule \<open>i\<close> or a row depending on it (an
  annotation, a notification state, a tag link, a notification link) is in the store.
  \<^verbatim>\<open>DeleteAlert\<close> always succeeds, and afterwards nothing references the rule, while every
  other rule is referenced exactly as before. \<^verbatim>\<open>deleteAlertDefinition\<close> does the same for
  every rule of the dashboard, and a successful \<^verbatim>\<open>SaveAlerts\<close> for every persisted rule of
  the dashboard whose panel is not among the desired rules. Each is one transaction: the
  result is the store with all five deletions, or an error with the store rolled back.
\<close>

theorem delete_cascades:
  "(\<exists>s'. DeleteAlert i s = Inr s' \<and> \<not> references i s'
         \<and> (\<forall>j. references j s' \<longleftrightarrow> references j s \<and> j \<noteq> i))
   \<and> (\<exists>s'. deleteAlertDefinition d s = Inr s'
         \<and> (\<forall>a \<in> set (alert_tbl s). DashboardId a = d \<longrightarrow> \<not> references (ID a) s'))
   \<and> (\<forall>s'. SaveAlerts timeNow cmd s = Inr s' \<longrightarrow>
         (\<forall>a \<in> set (alert_tbl s).
            DashboardId a = sa_DashboardId cmd \<and> PanelId a \<notin> PanelId ` set (Alerts cmd) \<longrightarrow>
            \<not> references (ID a) s'))"
proof (intro conjI allI impI)
  from deleteAlertByIdInternal_total obtain s' where
    s': "deleteAlertByIdInternal i ''Alert deletion requested from the API'' s = Inr s'" by blast
  from deleteAlertByIdInternal_references [OF s'] s'
  show "\<exists>s'. DeleteAlert i s = Inr s' \<and> \<not> references i s'
         \<and> (\<forall>j. references j s' \<longleftrightarrow> references j s \<and> j \<noteq> i)"
    by (auto simp: DeleteAlert_def)
next
  from deleteAlerts_total obtain s' where
    s': "deleteAlerts (filter (\<lambda>a. DashboardId a = d) (alert_tbl s)) s = Inr s'" by blast
  from deleteAlerts_references [OF s'] s'
  show "\<exists>s'. deleteAlertDefinition d s = Inr s'
         \<and> (\<forall>a \<in> set (alert_tbl s). DashboardId a = d \<longrightarrow> \<not> references (ID a) s')"
    by (auto simp: deleteAlertDefinition_def)
next
  fix s'
  assume "SaveAlerts timeNow cmd s = Inr s'"
  then obtain s1 where
    d: "deleteMissingAlerts (filter (\<lambda>a. DashboardId a = sa_DashboardId cmd) (alert_tbl s)) cmd s1
       = Inr s'"
    by (rule SaveAlerts_InrD)
  show "\<forall>a \<in> set (alert_tbl s).
            DashboardId a = sa_DashboardId cmd \<and> PanelId a \<notin> PanelId ` set (Alerts cmd) \<longrightarrow>
            \<not> references (ID a) s'"
    using deleteMissingAlerts_references [OF d] by auto
qed
text \<open>
  The theorem at a store in which rule 1 has one row in each dependent table.
\<close>

theorem delete_cascades_witness:
  "(\<exists>s'. DeleteAlert 1 dependentStore = Inr s' \<and> \<not> references 1 s' \<and> references 2 s')
   \<and> (\<exists>s'. deleteAlertDefinition 1 dependentStore = Inr s'
         \<and> \<not> references 1 s' \<and> \<not> references 2 s')
   \<and> (\<exists>s'. SaveAlerts exampleClock emptySave dependentStore = Inr s'
         \<and> \<not> references 1 s' \<and> \<not> references 2 s')"
proof -
  have rows: "pausedRule \<in> set (alert_tbl dependentStore)" "okRule \<in> set (alert_tbl dependentStore)"
    "ID pausedRule = 1" "ID okRule = 2" "DashboardId pausedRule = 1" "DashboardId okRule = 1"
    by (simp_all add: dependentStore_def pausedRule_def okRule_def exampleAlert_def)
  have refs: "references 2 dependentStore"
    by (simp add: references_def dependentStore_def)
  have cmd: "sa_DashboardId emptySave = 1" "Alerts emptySave = []"
    by (simp_all add: emptySave_def)
  note t = delete_cascades [where i = 1 and s = dependentStore and d = 1 and cmd = emptySave
      and timeNow = exampleClock]
  from t refs have 1: "\<exists>s'. DeleteAlert 1 dependentStore = Inr s' \<and> \<not> references 1 s' \<and> references 2 s'"
    by auto
  from t rows have 2: "\<exists>s'. deleteAlertDefinition 1 dependentStore = Inr s'
         \<and> \<not> references 1 s' \<and> \<not> references 2 s'"
    by metis
  have "\<exists>s'. SaveAlerts exampleClock emptySave dependentStore = Inr s'"
    using deleteMissingAlerts_total
    by (simp add: SaveAlerts_def GetAlertsByDashboardId2_def updateAlerts_def cmd)
  then obtain s' where s': "SaveAlerts exampleClock emptySave dependentStore = Inr s'" ..
  with t rows cmd have "\<not> references 1 s' \<and> \<not> references 2 s'"
    by (metis empty_iff image_empty list.set(1))
  with s' 1 2 show ?thesis by blast
qed

section \<open>Properties of reconciliation\<close>

lemma ContainsUpdates_ID [simp]: "ContainsUpdates k (d\<lparr>ID := i\<rparr>) = ContainsUpdates k d"
  by (simp add: ContainsUpdates_def)

lemma upsertAlert_write:
  assumes "matching E d = Some k" "ContainsUpdates k d"
  shows "upsertAlert tn n E d s =
     Inr (xorm_Update [''message'', ''for''] (ID k) (updateBean tn n k d) s, updateBean tn n k d, n + 1)"
  using assms by (simp add: upsertAlert_def matching_def Let_def updateBean_def)

lemma upsertAlert_skip:
  assumes "matching E d = Some k" "\<not> ContainsUpdates k d"
  shows "upsertAlert tn n E d s = Inr (s, d\<lparr>ID := ID k\<rparr>, n)"
  using assms by (simp add: upsertAlert_def matching_def Let_def)

lemma upsertAlert_insert:
  assumes "matching E d = None"
  shows "upsertAlert tn n E d s =
     (case xorm_Insert (insertBean tn n d) s of
        Inl e \<Rightarrow> Inl e
      | Inr (s', a) \<Rightarrow> Inr (s', a, n + 3))"
  using assms by (simp add: upsertAlert_def matching_def Let_def insertBean_def)

lemma le_fold_max: "x \<in> set ids \<Longrightarrow> (x::int) \<le> fold max ids a"
proof (induction ids arbitrary: a)
  case Nil
  then show ?case by simp
next
  case (Cons y ids)
  have mono: "b \<le> fold max ids b" for b :: int
  proof (induction ids arbitrary: b)
    case Nil
    then show ?case by simp
  next
    case (Cons z zs)
    have "b \<le> max z b" by simp
    also have "\<dots> \<le> fold max zs (max z b)" by (rule Cons.IH)
    finally show ?case by simp
  qed
  show ?case
  proof (cases "x = y")
    case True
    have "y \<le> max y a" by simp
    also have "\<dots> \<le> fold max ids (max y a)" by (rule mono)
    finally show ?thesis using True by simp
  next
    case False
    with Cons.prems have "x \<in> set ids" by simp
    from Cons.IH [OF this] show ?thesis by simp
  qed
qed

lemma next_id_fresh: "next_id ids \<notin> set ids"
proof
  assume "next_id ids \<in> set ids"
  then have "next_id ids \<le> fold max ids 0" by (rule le_fold_max)
  then show False by (simp add: next_id_def)
qed

lemma xorm_Insert_Inr:
  assumes "xorm_Insert b s = Inr (s', a)"
  shows "a = b\<lparr>ID := ID a\<rparr>" "alert_tbl s' = alert_tbl s @ [b\<lparr>ID := ID a\<rparr>]"
    "ID a \<notin> ID ` set (alert_tbl s)" "s' = s\<lparr>alert_tbl := alert_tbl s'\<rparr>"
proof -
  from assms have a: "a = (if ID b = 0 then b\<lparr>ID := next_id (map ID (alert_tbl s))\<rparr> else b)"
    and s': "s' = s\<lparr>alert_tbl := alert_tbl s @ [a]\<rparr>"
    and ok: "ID b \<noteq> 0 \<longrightarrow> ID b \<notin> set (map ID (alert_tbl s))"
    by (auto simp: xorm_Insert_def Let_def split: if_splits)
  show eq: "a = b\<lparr>ID := ID a\<rparr>" using a by simp
  have "alert_tbl s' = alert_tbl s @ [a]" using s' by simp
  with eq show "alert_tbl s' = alert_tbl s @ [b\<lparr>ID := ID a\<rparr>]" by metis
  show "s' = s\<lparr>alert_tbl := alert_tbl s'\<rparr>" using s' by simp
  show "ID a \<notin> ID ` set (alert_tbl s)"
    using a ok next_id_fresh [of "map ID (alert_tbl s)"] by (auto split: if_splits)
qed

lemma xorm_Insert_zero:
  "ID b = 0 \<Longrightarrow> \<exists>s' a. xorm_Insert b s = Inr (s', a)"
  by (simp add: xorm_Insert_def Let_def)

lemma EnsureTagsExist_alert_tbl:
  "EnsureTagsExist ts s = (s', ts') \<Longrightarrow> alert_tbl s' = alert_tbl s"
proof (induction ts arbitrary: s s' ts')
  case Nil
  then show ?case by simp
next
  case (Cons t ts)
  show ?case
  proof (cases "find (\<lambda>r. Key r = Key t \<and> Value r = Value t) (tag_tbl s)")
    case None
    obtain s1 ts1 where r: "EnsureTagsExist ts (s\<lparr>tag_tbl := tag_tbl s @
        [t\<lparr>tag_Id := next_id (map tag_Id (tag_tbl s))\<rparr>]\<rparr>) = (s1, ts1)"
      by (cases "EnsureTagsExist ts (s\<lparr>tag_tbl := tag_tbl s @
        [t\<lparr>tag_Id := next_id (map tag_Id (tag_tbl s))\<rparr>]\<rparr>)") auto
    with Cons.prems None have "s' = s1" by (simp add: Let_def)
    with Cons.IH [OF r] show ?thesis by simp
  next
    case (Some e)
    obtain s1 ts1 where r: "EnsureTagsExist ts s = (s1, ts1)"
      by (cases "EnsureTagsExist ts s") auto
    with Cons.prems Some have "s' = s1" by simp
    with Cons.IH [OF r] show ?thesis by simp
  qed
qed

lemma insertTags_alert_tbl:
  "insertTags tags i s = Inr s' \<Longrightarrow> alert_tbl s' = alert_tbl s"
  by (auto simp: insertTags_def split: prod.splits dest: EnsureTagsExist_alert_tbl)

lemma insertTags_total: "\<exists>s'. insertTags tags i s = Inr s'"
  by (simp add: insertTags_def split: prod.splits)

lemma insertNotifications_alert_tbl:
  "insertNotifications i org us s = Inr s' \<Longrightarrow> alert_tbl s' = alert_tbl s"
  by (induction us arbitrary: s) auto

lemma insertNotifications_total: "\<exists>s'. insertNotifications i org us s = Inr s'"
  by (induction us arbitrary: s) auto

lemma replaceLinks_alert_tbl:
  assumes "replaceLinks a s = Inr s'"
  shows "alert_tbl s' = alert_tbl s"
proof -
  let ?s0 = "s\<lparr>alert_rule_tag_tbl := filter (\<lambda>r. fst r \<noteq> ID a) (alert_rule_tag_tbl s)\<rparr>"
  from insertTags_total obtain s1 where
    s1: "insertTags (GetTagsFromSettings a) (ID a) ?s0 = Inr s1" by blast
  from assms s1 obtain us where us: "GetNotificationsFromSettings a = Some us"
    and r: "insertNotifications (ID a) (OrgId a) us
        (s1\<lparr>alert_rule_notification_tbl :=
              filter (\<lambda>r. fst r \<noteq> ID a) (alert_rule_notification_tbl s1)\<rparr>) = Inr s'"
    by (auto simp: replaceLinks_def Let_def split: option.splits)
  from insertNotifications_alert_tbl [OF r] insertTags_alert_tbl [OF s1]
  show ?thesis by simp
qed

lemma replaceLinks_succeeds:
  "(\<exists>s'. replaceLinks a s = Inr s') \<longleftrightarrow> GetNotificationsFromSettings a \<noteq> None"
proof -
  let ?s0 = "s\<lparr>alert_rule_tag_tbl := filter (\<lambda>r. fst r \<noteq> ID a) (alert_rule_tag_tbl s)\<rparr>"
  from insertTags_total obtain s1 where
    s1: "insertTags (GetTagsFromSettings a) (ID a) ?s0 = Inr s1" by blast
  show ?thesis
    using s1 insertNotifications_total
    by (auto simp: replaceLinks_def Let_def split: option.splits)
qed

lemma matching_SomeD: "matching E d = Some k \<Longrightarrow> k \<in> set E \<and> PanelId k = PanelId d"
  by (auto simp: matching_def find_Some_iff in_set_conv_nth)

lemma matching_None: "matching E d = None \<longleftrightarrow> PanelId d \<notin> PanelId ` set E"
  by (auto simp: matching_def find_None_iff)

lemma written_ID [simp]: "ID (written tn n k d row) = ID row"
  by (simp add: written_def xorm_Update_row_sel)

lemma loop_Cons_write:
  assumes "updateAlerts_loop tn n E (d # ds) s = Inr s'" "matching E d = Some k"
    "ContainsUpdates k d"
  obtains s2 where "updateAlerts_loop tn (n + 1) E ds s2 = Inr s'"
    "alert_tbl s2 = map (\<lambda>row. if ID row = ID k then written tn n k d row else row) (alert_tbl s)"
proof -
  let ?s1 = "xorm_Update [''message'', ''for''] (ID k) (updateBean tn n k d) s"
  from assms obtain s2 where l: "replaceLinks (updateBean tn n k d) ?s1 = Inr s2"
    and r: "updateAlerts_loop tn (n + 1) E ds s2 = Inr s'"
    by (auto simp: upsertAlert_write split: sum.splits)
  have "alert_tbl s2 = alert_tbl ?s1" using l by (rule replaceLinks_alert_tbl)
  then have "alert_tbl s2 =
      map (\<lambda>row. if ID row = ID k then written tn n k d row else row) (alert_tbl s)"
    by (simp add: xorm_Update_def written_def)
  with r show thesis by (rule that)
qed

lemma loop_Cons_skip:
  assumes "updateAlerts_loop tn n E (d # ds) s = Inr s'" "matching E d = Some k"
    "\<not> ContainsUpdates k d"
  obtains s2 where "updateAlerts_loop tn n E ds s2 = Inr s'" "alert_tbl s2 = alert_tbl s"
proof -
  from assms obtain s2 where l: "replaceLinks (d\<lparr>ID := ID k\<rparr>) s = Inr s2"
    and r: "updateAlerts_loop tn n E ds s2 = Inr s'"
    by (auto simp: upsertAlert_skip split: sum.splits)
  from r replaceLinks_alert_tbl [OF l] show thesis by (rule that)
qed

lemma loop_Cons_insert:
  assumes "updateAlerts_loop tn n E (d # ds) s = Inr s'" "matching E d = None"
  obtains s2 i where "updateAlerts_loop tn (n + 3) E ds s2 = Inr s'"
    "i \<notin> ID ` set (alert_tbl s)"
    "alert_tbl s2 = alert_tbl s @ [(insertBean tn n d)\<lparr>ID := i\<rparr>]"
proof -
  from assms obtain s1 a s2 where i: "xorm_Insert (insertBean tn n d) s = Inr (s1, a)"
    and l: "replaceLinks a s1 = Inr s2"
    and r: "updateAlerts_loop tn (n + 3) E ds s2 = Inr s'"
    by (auto simp: upsertAlert_insert split: sum.splits)
  from xorm_Insert_Inr(2,3) [OF i] replaceLinks_alert_tbl [OF l]
  have "ID a \<notin> ID ` set (alert_tbl s)"
    "alert_tbl s2 = alert_tbl s @ [(insertBean tn n d)\<lparr>ID := ID a\<rparr>]" by simp_all
  with r show thesis by (rule that)
qed

lemma map_written_ID:
  "map ID (map (\<lambda>row. if ID row = i then written tn n k d row else row) rows) = map ID rows"
  by (induction rows) auto

lemma loop_ids:
  "updateAlerts_loop tn n E ds s = Inr s' \<Longrightarrow>
   ID ` set (alert_tbl s) \<subseteq> ID ` set (alert_tbl s')"
proof (induction ds arbitrary: s n)
  case Nil
  then show ?case by simp
next
  case (Cons d ds)
  show ?case
  proof (cases "matching E d")
    case None
    from Cons.prems None obtain s2 i where
      r: "updateAlerts_loop tn (n + 3) E ds s2 = Inr s'"
      and t: "alert_tbl s2 = alert_tbl s @ [(insertBean tn n d)\<lparr>ID := i\<rparr>]"
      by (rule loop_Cons_insert)
    from Cons.IH [OF r] t show ?thesis by auto
  next
    case (Some k)
    show ?thesis
    proof (cases "ContainsUpdates k d")
      case True
      from Cons.prems Some True obtain s2 where
        r: "updateAlerts_loop tn (n + 1) E ds s2 = Inr s'"
        and t: "alert_tbl s2 =
          map (\<lambda>row. if ID row = ID k then written tn n k d row else row) (alert_tbl s)"
        by (rule loop_Cons_write)
      have "map ID (alert_tbl s2) = map ID (alert_tbl s)"
        unfolding t by (rule map_written_ID)
      then have "ID ` set (alert_tbl s2) = ID ` set (alert_tbl s)"
        by (metis set_map)
      with Cons.IH [OF r] show ?thesis by simp
    next
      case False
      from Cons.prems Some False obtain s2 where
        r: "updateAlerts_loop tn n E ds s2 = Inr s'" and t: "alert_tbl s2 = alert_tbl s"
        by (rule loop_Cons_skip)
      from Cons.IH [OF r] t show ?thesis by simp
    qed
  qed
qed

lemma loop_distinct:
  "updateAlerts_loop tn n E ds s = Inr s' \<Longrightarrow> distinct (map ID (alert_tbl s)) \<Longrightarrow>
   distinct (map ID (alert_tbl s'))"
proof (induction ds arbitrary: s n)
  case Nil
  then show ?case by simp
next
  case (Cons d ds)
  show ?case
  proof (cases "matching E d")
    case None
    from Cons.prems(1) None obtain s2 i where
      r: "updateAlerts_loop tn (n + 3) E ds s2 = Inr s'"
      and f: "i \<notin> ID ` set (alert_tbl s)"
      and t: "alert_tbl s2 = alert_tbl s @ [(insertBean tn n d)\<lparr>ID := i\<rparr>]"
      by (rule loop_Cons_insert)
    from t f Cons.prems(2) have "distinct (map ID (alert_tbl s2))" by simp
    with Cons.IH [OF r] show ?thesis by simp
  next
    case (Some k)
    show ?thesis
    proof (cases "ContainsUpdates k d")
      case True
      from Cons.prems(1) Some True obtain s2 where
        r: "updateAlerts_loop tn (n + 1) E ds s2 = Inr s'"
        and t: "alert_tbl s2 =
          map (\<lambda>row. if ID row = ID k then written tn n k d row else row) (alert_tbl s)"
        by (rule loop_Cons_write)
      have "map ID (alert_tbl s2) = map ID (alert_tbl s)"
        unfolding t by (rule map_written_ID)
      with Cons.prems(2) Cons.IH [OF r] show ?thesis by simp
    next
      case False
      from Cons.prems(1) Some False obtain s2 where
        r: "updateAlerts_loop tn n E ds s2 = Inr s'" and t: "alert_tbl s2 = alert_tbl s"
        by (rule loop_Cons_skip)
      from Cons.IH [OF r] t Cons.prems(2) show ?thesis by simp
    qed
  qed
qed

text \<open>A row that no write of the loop is aimed at stays as it is.\<close>

lemma loop_frame:
  "updateAlerts_loop tn n E ds s = Inr s' \<Longrightarrow> r \<in> set (alert_tbl s) \<Longrightarrow>
   \<forall>d \<in> set ds. \<forall>k. matching E d = Some k \<and> ContainsUpdates k d \<longrightarrow> ID k \<noteq> ID r \<Longrightarrow>
   r \<in> set (alert_tbl s')"
proof (induction ds arbitrary: s n)
  case Nil
  then show ?case by simp
next
  case (Cons d ds)
  have later: "\<forall>d' \<in> set ds. \<forall>k. matching E d' = Some k \<and> ContainsUpdates k d' \<longrightarrow> ID k \<noteq> ID r"
    using Cons.prems(3) by simp
  show ?case
  proof (cases "matching E d")
    case None
    from Cons.prems(1) None obtain s2 i where
      r: "updateAlerts_loop tn (n + 3) E ds s2 = Inr s'"
      and t: "alert_tbl s2 = alert_tbl s @ [(insertBean tn n d)\<lparr>ID := i\<rparr>]"
      by (rule loop_Cons_insert)
    from t Cons.prems(2) have "r \<in> set (alert_tbl s2)" by simp
    from Cons.IH [OF r this later] show ?thesis .
  next
    case (Some k)
    show ?thesis
    proof (cases "ContainsUpdates k d")
      case True
      from Cons.prems(1) Some True obtain s2 where
        r: "updateAlerts_loop tn (n + 1) E ds s2 = Inr s'"
        and t: "alert_tbl s2 =
          map (\<lambda>row. if ID row = ID k then written tn n k d row else row) (alert_tbl s)"
        by (rule loop_Cons_write)
      have "ID k \<noteq> ID r" using Cons.prems(3) Some True by simp
      with Cons.prems(2) have "r \<in> set (alert_tbl s2)"
        unfolding t by (force simp: image_iff)
      from Cons.IH [OF r this later] show ?thesis .
    next
      case False
      from Cons.prems(1) Some False obtain s2 where
        r: "updateAlerts_loop tn n E ds s2 = Inr s'" and t: "alert_tbl s2 = alert_tbl s"
        by (rule loop_Cons_skip)
      from t Cons.prems(2) have "r \<in> set (alert_tbl s2)" by simp
      from Cons.IH [OF r this later] show ?thesis .
    qed
  qed
qed

lemma same_ID_same_row:
  "distinct (map ID E) \<Longrightarrow> k \<in> set E \<Longrightarrow> k' \<in> set E \<Longrightarrow> ID k = ID k' \<Longrightarrow> k = k'"
  by (metis distinct_map inj_onD)

lemma same_panel_same_rule:
  "distinct (map PanelId ds) \<Longrightarrow> d \<in> set ds \<Longrightarrow> d' \<in> set ds \<Longrightarrow> PanelId d = PanelId d' \<Longrightarrow>
   d = d'"
  by (metis distinct_map inj_onD)

text \<open>The one desired rule that is matched to a persisted rule and differs from it writes
  that rule's row once.\<close>

lemma loop_written:
  "updateAlerts_loop tn n E ds s = Inr s' \<Longrightarrow> distinct (map PanelId ds) \<Longrightarrow>
   distinct (map ID E) \<Longrightarrow> d \<in> set ds \<Longrightarrow> matching E d = Some k \<Longrightarrow> ContainsUpdates k d \<Longrightarrow>
   r \<in> set (alert_tbl s) \<Longrightarrow> ID r = ID k \<Longrightarrow>
   \<exists>i. written tn i k d r \<in> set (alert_tbl s')"
proof (induction ds arbitrary: s n)
  case Nil
  then show ?case by simp
next
  case (Cons d0 ds)
  from Cons.prems(5) have k: "k \<in> set E" "PanelId k = PanelId d"
    using matching_SomeD by blast+
  have other: "ID k' \<noteq> ID k"
    if "matching E d' = Some k'" "PanelId d' \<noteq> PanelId d" for d' k'
  proof
    assume "ID k' = ID k"
    moreover from that(1) have "k' \<in> set E" "PanelId k' = PanelId d'"
      using matching_SomeD by blast+
    ultimately have "k' = k" using k(1) Cons.prems(3) same_ID_same_row by blast
    with \<open>PanelId k' = PanelId d'\<close> k(2) that(2) show False by simp
  qed
  show ?case
  proof (cases "d0 = d")
    case True
    from Cons.prems(1,5,6) True obtain s2 where
      r: "updateAlerts_loop tn (n + 1) E ds s2 = Inr s'"
      and t: "alert_tbl s2 =
        map (\<lambda>row. if ID row = ID k then written tn n k d row else row) (alert_tbl s)"
      using loop_Cons_write by blast
    from Cons.prems(7,8) have w: "written tn n k d r \<in> set (alert_tbl s2)"
      unfolding t by (force simp: image_iff)
    have "\<forall>d' \<in> set ds. \<forall>k'. matching E d' = Some k' \<and> ContainsUpdates k' d' \<longrightarrow>
        ID k' \<noteq> ID (written tn n k d r)"
    proof (intro ballI allI impI)
      fix d' k'
      assume d': "d' \<in> set ds" and m: "matching E d' = Some k' \<and> ContainsUpdates k' d'"
      from d' have "PanelId d' \<in> PanelId ` set ds" by (rule imageI)
      with Cons.prems(2) True have "PanelId d' \<noteq> PanelId d" by force
      with m other have "ID k' \<noteq> ID k" by blast
      with Cons.prems(8) show "ID k' \<noteq> ID (written tn n k d r)" by simp
    qed
    from loop_frame [OF r w this] show ?thesis by blast
  next
    case False
    with Cons.prems(4) have d: "d \<in> set ds" by simp
    then have "PanelId d \<in> PanelId ` set ds" by (rule imageI)
    with Cons.prems(2) have p: "PanelId d0 \<noteq> PanelId d" by force
    from Cons.prems(2) have dist: "distinct (map PanelId ds)" by simp
    show ?thesis
    proof (cases "matching E d0")
      case None
      from Cons.prems(1) None obtain s2 i where
        r: "updateAlerts_loop tn (n + 3) E ds s2 = Inr s'"
        and t: "alert_tbl s2 = alert_tbl s @ [(insertBean tn n d0)\<lparr>ID := i\<rparr>]"
        by (rule loop_Cons_insert)
      from t Cons.prems(7) have "r \<in> set (alert_tbl s2)" by simp
      from Cons.IH [OF r dist Cons.prems(3) d Cons.prems(5,6) this Cons.prems(8)]
      show ?thesis .
    next
      case (Some k0)
      show ?thesis
      proof (cases "ContainsUpdates k0 d0")
        case True
        from Cons.prems(1) Some True obtain s2 where
          r: "updateAlerts_loop tn (n + 1) E ds s2 = Inr s'"
          and t: "alert_tbl s2 =
            map (\<lambda>row. if ID row = ID k0 then written tn n k0 d0 row else row) (alert_tbl s)"
          by (rule loop_Cons_write)
        from other [OF Some p] Cons.prems(8) have "ID r \<noteq> ID k0" by simp
        with Cons.prems(7) have "r \<in> set (alert_tbl s2)"
          unfolding t by (force simp: image_iff)
        from Cons.IH [OF r dist Cons.prems(3) d Cons.prems(5,6) this Cons.prems(8)]
        show ?thesis .
      next
        case False
        from Cons.prems(1) Some False obtain s2 where
          r: "updateAlerts_loop tn n E ds s2 = Inr s'" and t: "alert_tbl s2 = alert_tbl s"
          by (rule loop_Cons_skip)
        from t Cons.prems(7) have "r \<in> set (alert_tbl s2)" by simp
        from Cons.IH [OF r dist Cons.prems(3) d Cons.prems(5,6) this Cons.prems(8)]
        show ?thesis .
      qed
    qed
  qed
qed

text \<open>A desired rule that matches no persisted rule is inserted under an id that no row
  had, and the row stays as inserted.\<close>

lemma loop_inserted:
  "updateAlerts_loop tn n E ds s = Inr s' \<Longrightarrow> d \<in> set ds \<Longrightarrow> matching E d = None \<Longrightarrow>
   ID ` set E \<subseteq> ID ` set (alert_tbl s) \<Longrightarrow>
   \<exists>i j. (insertBean tn j d)\<lparr>ID := i\<rparr> \<in> set (alert_tbl s') \<and> i \<notin> ID ` set (alert_tbl s)"
proof (induction ds arbitrary: s n)
  case Nil
  then show ?case by simp
next
  case (Cons d0 ds)
  show ?case
  proof (cases "d0 = d")
    case True
    from Cons.prems(1,3) True obtain s2 i where
      r: "updateAlerts_loop tn (n + 3) E ds s2 = Inr s'"
      and f: "i \<notin> ID ` set (alert_tbl s)"
      and t: "alert_tbl s2 = alert_tbl s @ [(insertBean tn n d)\<lparr>ID := i\<rparr>]"
      using loop_Cons_insert by blast
    let ?a = "(insertBean tn n d)\<lparr>ID := i\<rparr>"
    have w: "?a \<in> set (alert_tbl s2)" using t by simp
    have "\<forall>d' \<in> set ds. \<forall>k'. matching E d' = Some k' \<and> ContainsUpdates k' d' \<longrightarrow> ID k' \<noteq> ID ?a"
    proof (intro ballI allI impI)
      fix d' k'
      assume "matching E d' = Some k' \<and> ContainsUpdates k' d'"
      then have "k' \<in> set E" using matching_SomeD by blast
      then have "ID k' \<in> ID ` set (alert_tbl s)" using Cons.prems(4) by blast
      with f show "ID k' \<noteq> ID ?a" by auto
    qed
    from loop_frame [OF r w this] have "?a \<in> set (alert_tbl s')" .
    with f show ?thesis by blast
  next
    case False
    with Cons.prems(2) have d: "d \<in> set ds" by simp
    have step: "\<exists>s2 n'. updateAlerts_loop tn n' E ds s2 = Inr s'
        \<and> ID ` set (alert_tbl s) \<subseteq> ID ` set (alert_tbl s2)"
    proof (cases "matching E d0")
      case None
      from Cons.prems(1) None obtain s2 i where
        "updateAlerts_loop tn (n + 3) E ds s2 = Inr s'"
        "alert_tbl s2 = alert_tbl s @ [(insertBean tn n d0)\<lparr>ID := i\<rparr>]"
        by (rule loop_Cons_insert)
      then show ?thesis by auto
    next
      case (Some k0)
      show ?thesis
      proof (cases "ContainsUpdates k0 d0")
        case True
        from Cons.prems(1) Some True obtain s2 where
          r: "updateAlerts_loop tn (n + 1) E ds s2 = Inr s'"
          and t: "alert_tbl s2 =
            map (\<lambda>row. if ID row = ID k0 then written tn n k0 d0 row else row) (alert_tbl s)"
          by (rule loop_Cons_write)
        have "map ID (alert_tbl s2) = map ID (alert_tbl s)"
          unfolding t by (rule map_written_ID)
        then have "ID ` set (alert_tbl s2) = ID ` set (alert_tbl s)"
          by (metis set_map)
        with r show ?thesis by blast
      next
        case False
        from Cons.prems(1) Some False obtain s2 where
          "updateAlerts_loop tn n E ds s2 = Inr s'" "alert_tbl s2 = alert_tbl s"
          by (rule loop_Cons_skip)
        then show ?thesis by auto
      qed
    qed
    then obtain s2 n' where r: "updateAlerts_loop tn n' E ds s2 = Inr s'"
      and sub: "ID ` set (alert_tbl s) \<subseteq> ID ` set (alert_tbl s2)" by blast
    from Cons.prems(4) sub have "ID ` set E \<subseteq> ID ` set (alert_tbl s2)" by blast
    from Cons.IH [OF r d Cons.prems(3) this] sub show ?thesis by blast
  qed
qed

lemma deleteMissingAlerts_alert_tbl:
  "deleteMissingAlerts E cmd s = Inr s' \<Longrightarrow>
   alert_tbl s' =
     filter (\<lambda>a. ID a \<notin> ID ` {k \<in> set E. PanelId k \<notin> PanelId ` set (Alerts cmd)}) (alert_tbl s)"
proof (induction E arbitrary: s)
  case Nil
  then show ?case by simp
next
  case (Cons k E)
  let ?X = "PanelId ` set (Alerts cmd)"
  show ?case
  proof (cases "PanelId k \<in> ?X")
    case True
    with Cons.prems have "deleteMissingAlerts E cmd s = Inr s'"
      by (simp add: find_None_panel)
    moreover have "{ka \<in> set (k # E). PanelId ka \<notin> ?X} = {ka \<in> set E. PanelId ka \<notin> ?X}"
      using True by auto
    ultimately show ?thesis using Cons.IH by simp
  next
    case False
    from deleteAlertByIdInternal_total obtain s1 where
      s1: "deleteAlertByIdInternal (ID k) ''Removed from dashboard'' s = Inr s1" by blast
    with Cons.prems False have "deleteMissingAlerts E cmd s1 = Inr s'"
      by (simp add: find_None_panel)
    from Cons.IH [OF this] have "alert_tbl s' =
        filter (\<lambda>a. ID a \<notin> ID ` {ka \<in> set E. PanelId ka \<notin> ?X}) (alert_tbl s1)" .
    also have "alert_tbl s1 = filter (\<lambda>a. ID a \<noteq> ID k) (alert_tbl s)"
      by (rule deleteAlertByIdInternal_tables(1) [OF s1])
    also have "filter (\<lambda>a. ID a \<notin> ID ` {ka \<in> set E. PanelId ka \<notin> ?X})
          (filter (\<lambda>a. ID a \<noteq> ID k) (alert_tbl s))
        = filter (\<lambda>a. ID a \<noteq> ID k \<and> ID a \<notin> ID ` {ka \<in> set E. PanelId ka \<notin> ?X}) (alert_tbl s)"
      by simp
    also have "(\<lambda>a. ID a \<noteq> ID k \<and> ID a \<notin> ID ` {ka \<in> set E. PanelId ka \<notin> ?X})
        = (\<lambda>a. ID a \<notin> ID ` {ka \<in> set (k # E). PanelId ka \<notin> ?X})"
      using False by (intro ext) auto
    finally show ?thesis .
  qed
qed

lemma persisted_rules:
  assumes "distinct (map ID (alert_tbl s))"
  shows "distinct (map ID (filter (\<lambda>a. DashboardId a = D) (alert_tbl s)))"
  using assms by (rule distinct_map_filter)

text \<open>What a successful reconciliation leaves in the row of a persisted rule that a desired
  rule is matched to, when ids are unique and no two desired rules share a panel.\<close>

lemma SaveAlerts_matched:
  assumes ok: "SaveAlerts tn cmd s = Inr s'"
    and pk: "distinct (map ID (alert_tbl s))"
    and dp: "distinct (map PanelId (Alerts cmd))"
    and d: "d \<in> set (Alerts cmd)"
    and m: "matching (filter (\<lambda>a. DashboardId a = sa_DashboardId cmd) (alert_tbl s)) d = Some k"
  shows "\<exists>row \<in> set (alert_tbl s').
           (if ContainsUpdates k d then \<exists>i. row = written tn i k d k else row = k)
           \<and> (\<forall>r \<in> set (alert_tbl s'). ID r = ID k \<longrightarrow> r = row)"
proof -
  let ?E = "filter (\<lambda>a. DashboardId a = sa_DashboardId cmd) (alert_tbl s)"
  let ?missing = "ID ` {k \<in> set ?E. PanelId k \<notin> PanelId ` set (Alerts cmd)}"
  from ok obtain s1 where
    loop: "updateAlerts_loop tn 0 ?E (Alerts cmd) s = Inr s1"
    and del: "deleteMissingAlerts ?E cmd s1 = Inr s'"
    by (rule SaveAlerts_InrD)
  have rows': "alert_tbl s' = filter (\<lambda>a. ID a \<notin> ?missing) (alert_tbl s1)"
    using del by (rule deleteMissingAlerts_alert_tbl)
  have dE: "distinct (map ID ?E)" using pk by (rule persisted_rules)
  from m have k: "k \<in> set ?E" "PanelId k = PanelId d" using matching_SomeD by blast+
  then have ks: "k \<in> set (alert_tbl s)" by simp
  have keep: "ID k \<notin> ?missing"
  proof
    assume "ID k \<in> ?missing"
    then obtain k' where k': "k' \<in> set ?E" "PanelId k' \<notin> PanelId ` set (Alerts cmd)" "ID k = ID k'"
      by auto
    with k(1) dE have "k = k'" using same_ID_same_row by blast
    with k' k(2) d show False by (metis imageI)
  qed
  have d1: "distinct (map ID (alert_tbl s1))" using loop pk by (rule loop_distinct)
  then have d': "distinct (map ID (alert_tbl s'))"
    unfolding rows' by (rule distinct_map_filter)
  have uniq: "\<forall>r \<in> set (alert_tbl s'). ID r = ID row \<longrightarrow> r = row" if "row \<in> set (alert_tbl s')" for row
    using d' that same_ID_same_row by blast
  show ?thesis
  proof (cases "ContainsUpdates k d")
    case True
    from loop_written [OF loop dp dE d m True ks refl] obtain i where
      "written tn i k d k \<in> set (alert_tbl s1)" by blast
    with keep have w: "written tn i k d k \<in> set (alert_tbl s')" unfolding rows' by simp
    from uniq [OF w] have "\<forall>r \<in> set (alert_tbl s'). ID r = ID k \<longrightarrow> r = written tn i k d k" by simp
    with w True show ?thesis by auto
  next
    case False
    have "\<forall>d' \<in> set (Alerts cmd). \<forall>k'. matching ?E d' = Some k' \<and> ContainsUpdates k' d' \<longrightarrow>
        ID k' \<noteq> ID k"
    proof (intro ballI allI impI notI)
      fix d' k'
      assume d': "d' \<in> set (Alerts cmd)" and m': "matching ?E d' = Some k' \<and> ContainsUpdates k' d'"
        and eq: "ID k' = ID k"
      from m' have k': "k' \<in> set ?E" "PanelId k' = PanelId d'" using matching_SomeD by blast+
      with k(1) dE eq have "k' = k" using same_ID_same_row by blast
      with k' k(2) have "PanelId d' = PanelId d" by simp
      with dp d d' have "d' = d" using same_panel_same_rule by blast
      with m' \<open>k' = k\<close> False show False by simp
    qed
    from loop_frame [OF loop ks this] have "k \<in> set (alert_tbl s1)" .
    with keep have w: "k \<in> set (alert_tbl s')" unfolding rows' by simp
    from uniq [OF w] w False show ?thesis by auto
  qed
qed


lemma ContainsUpdates_State [simp]:
  "ContainsUpdates (k\<lparr>State := st\<rparr>) d = ContainsUpdates k d"
  "ContainsUpdates k (d\<lparr>State := st\<rparr>) = ContainsUpdates k d"
  by (simp_all add: ContainsUpdates_def)

lemma written_sel:
  "State (written tn i k d row) = (if State k \<noteq> [] then State k else State row)"
  "Created (written tn i k d row) = (if Created d \<noteq> 0 then Created d else Created row)"
  "Updated (written tn i k d row) = (if tn i \<noteq> 0 then tn i else Updated row)"
  "Name (written tn i k d row) = (if Name d \<noteq> [] then Name d else Name row)"
  "Message (written tn i k d row) = Message d"
  "For (written tn i k d row) = For d"
  "Settings (written tn i k d row) = (if Settings d \<noteq> None then Settings d else Settings row)"
  "PanelId (written tn i k d row) = (if PanelId d \<noteq> 0 then PanelId d else PanelId row)"
  "DashboardId (written tn i k d row) =
     (if DashboardId d \<noteq> 0 then DashboardId d else DashboardId row)"
  by (simp_all add: written_def updateBean_def xorm_Update_row_sel xorm_Update_row_def)


text \<open>
  Claim C4, as amended. Let reconciliation succeed on a store with unique rule ids for a
  command without two desired rules for one panel, and let the desired rule \<open>d\<close> be
  matched to the persisted rule \<open>k\<close>. The one row with the id of \<open>k\<close> after reconciliation
  has the id and the state of \<open>k\<close>, whatever id and state \<open>d\<close> carried. It has the creation
  time of \<open>k\<close> when \<open>d\<close> carries none (the zero time), or when \<open>d\<close> does not differ from
  \<open>k\<close> and nothing is written.
\<close>

theorem SaveAlerts_preserves_identity:
  assumes "SaveAlerts timeNow cmd s = Inr s'"
    and "distinct (map ID (alert_tbl s))"
    and "distinct (map PanelId (Alerts cmd))"
    and "d \<in> set (Alerts cmd)"
    and "matching (filter (\<lambda>a. DashboardId a = sa_DashboardId cmd) (alert_tbl s)) d = Some k"
  shows "\<exists>row \<in> set (alert_tbl s').
           (\<forall>r \<in> set (alert_tbl s'). ID r = ID k \<longrightarrow> r = row)
           \<and> ID row = ID k \<and> State row = State k
           \<and> (Created d = 0 \<or> \<not> ContainsUpdates k d \<longrightarrow> Created row = Created k)"
proof -
  from SaveAlerts_matched [OF assms] obtain row where
    row: "row \<in> set (alert_tbl s')"
      "if ContainsUpdates k d then \<exists>i. row = written timeNow i k d k else row = k"
      "\<forall>r \<in> set (alert_tbl s'). ID r = ID k \<longrightarrow> r = row"
    by blast
  have "ID row = ID k \<and> State row = State k
      \<and> (Created d = 0 \<or> \<not> ContainsUpdates k d \<longrightarrow> Created row = Created k)"
  proof (cases "ContainsUpdates k d")
    case True
    with row(2) obtain i where "row = written timeNow i k d k" by auto
    then show ?thesis using True by (simp add: written_sel)
  next
    case False
    with row(2) show ?thesis by simp
  qed
  with row(1,3) show ?thesis by blast
qed

lemma GetNotificationsFromSettings_cong:
  "Settings a = Settings b \<Longrightarrow> GetNotificationsFromSettings a = GetNotificationsFromSettings b"
  by (simp add: GetNotificationsFromSettings_def)

lemma replaceLinks_ok:
  assumes "GetNotificationsFromSettings d \<noteq> None" "Settings a = Settings d"
  obtains s' where "replaceLinks a s = Inr s'"
  using assms replaceLinks_succeeds [of a s] GetNotificationsFromSettings_cong [of a d] by auto

text \<open>The loop succeeds when the notification references of every desired rule are
  well-formed and every rule to be inserted leaves the choice of its id to the store.\<close>

lemma loop_succeeds:
  "\<forall>d \<in> set ds. GetNotificationsFromSettings d \<noteq> None \<and> (ID d = 0 \<or> matching E d \<noteq> None) \<Longrightarrow>
   \<exists>s'. updateAlerts_loop tn n E ds s = Inr s'"
proof (induction ds arbitrary: s n)
  case Nil
  then show ?case by simp
next
  case (Cons d ds)
  from Cons.prems have g: "GetNotificationsFromSettings d \<noteq> None"
    and i: "ID d = 0 \<or> matching E d \<noteq> None"
    and rest: "\<forall>d \<in> set ds. GetNotificationsFromSettings d \<noteq> None \<and> (ID d = 0 \<or> matching E d \<noteq> None)"
    by simp_all
  show ?case
  proof (cases "matching E d")
    case None
    with i have "ID (insertBean tn n d) = 0" by (simp add: insertBean_def)
    from xorm_Insert_zero [OF this] obtain s1 a where
      ins: "xorm_Insert (insertBean tn n d) s = Inr (s1, a)" by blast
    from xorm_Insert_Inr(1) [OF ins] have "Settings a = Settings (insertBean tn n d)"
      by (metis Alert.select_convs(20) Alert.surjective Alert.update_convs(1))
    then have "Settings a = Settings d" by (simp add: insertBean_def)
    with g obtain s2 where l: "replaceLinks a s1 = Inr s2" by (rule replaceLinks_ok)
    from Cons.IH [OF rest] obtain s' where "updateAlerts_loop tn (n + 3) E ds s2 = Inr s'"
      by blast
    with None ins l show ?thesis by (simp add: upsertAlert_insert)
  next
    case (Some k)
    show ?thesis
    proof (cases "ContainsUpdates k d")
      case True
      have "Settings (updateBean tn n k d) = Settings d" by (simp add: updateBean_def)
      with g obtain s2 where
        l: "replaceLinks (updateBean tn n k d)
              (xorm_Update [''message'', ''for''] (ID k) (updateBean tn n k d) s) = Inr s2"
        by (rule replaceLinks_ok)
      from Cons.IH [OF rest] obtain s' where "updateAlerts_loop tn (n + 1) E ds s2 = Inr s'"
        by blast
      with Some True l show ?thesis by (simp add: upsertAlert_write)
    next
      case False
      have "Settings (d\<lparr>ID := ID k\<rparr>) = Settings d" by simp
      with g obtain s2 where l: "replaceLinks (d\<lparr>ID := ID k\<rparr>) s = Inr s2"
        by (rule replaceLinks_ok)
      from Cons.IH [OF rest] obtain s' where "updateAlerts_loop tn n E ds s2 = Inr s'"
        by blast
      with Some False l show ?thesis by (simp add: upsertAlert_skip)
    qed
  qed
qed

lemma SaveAlerts_succeeds:
  assumes "\<forall>d \<in> set (Alerts cmd). GetNotificationsFromSettings d \<noteq> None
      \<and> (ID d = 0 \<or> matching (filter (\<lambda>a. DashboardId a = sa_DashboardId cmd) (alert_tbl s)) d \<noteq> None)"
  shows "\<exists>s'. SaveAlerts tn cmd s = Inr s'"
proof -
  let ?E = "filter (\<lambda>a. DashboardId a = sa_DashboardId cmd) (alert_tbl s)"
  from loop_succeeds [OF assms] obtain s1 where
    "updateAlerts_loop tn 0 ?E (Alerts cmd) s = Inr s1" by blast
  moreover from deleteMissingAlerts_total obtain s' where
    "deleteMissingAlerts ?E cmd s1 = Inr s'" by blast
  ultimately show ?thesis
    by (simp add: SaveAlerts_def GetAlertsByDashboardId2_def updateAlerts_def)
qed

text \<open>When every desired rule is matched to a persisted rule it does not differ from, the
  loop writes no rule row.\<close>

lemma loop_no_change:
  "\<forall>d \<in> set ds. GetNotificationsFromSettings d \<noteq> None
      \<and> (\<exists>k. matching E d = Some k \<and> \<not> ContainsUpdates k d) \<Longrightarrow>
   \<exists>s'. updateAlerts_loop tn n E ds s = Inr s' \<and> alert_tbl s' = alert_tbl s"
proof (induction ds arbitrary: s)
  case Nil
  then show ?case by simp
next
  case (Cons d ds)
  from Cons.prems obtain k where g: "GetNotificationsFromSettings d \<noteq> None"
    and m: "matching E d = Some k" "\<not> ContainsUpdates k d"
    and rest: "\<forall>d \<in> set ds. GetNotificationsFromSettings d \<noteq> None
      \<and> (\<exists>k. matching E d = Some k \<and> \<not> ContainsUpdates k d)"
    by auto
  have "Settings (d\<lparr>ID := ID k\<rparr>) = Settings d" by simp
  with g obtain s2 where l: "replaceLinks (d\<lparr>ID := ID k\<rparr>) s = Inr s2"
    by (rule replaceLinks_ok)
  from Cons.IH [OF rest, of s2] obtain s' where
    "updateAlerts_loop tn n E ds s2 = Inr s'" "alert_tbl s' = alert_tbl s2" by blast
  with m l replaceLinks_alert_tbl [OF l] show ?case by (simp add: upsertAlert_skip)
qed

lemma SaveAlerts_no_change:
  assumes "\<forall>d \<in> set (Alerts cmd). GetNotificationsFromSettings d \<noteq> None
      \<and> (\<exists>k. matching (filter (\<lambda>a. DashboardId a = sa_DashboardId cmd) (alert_tbl s)) d = Some k
             \<and> \<not> ContainsUpdates k d)"
    and "\<forall>k \<in> set (alert_tbl s). DashboardId k = sa_DashboardId cmd \<longrightarrow>
      PanelId k \<in> PanelId ` set (Alerts cmd)"
  shows "\<exists>s'. SaveAlerts tn cmd s = Inr s' \<and> alert_tbl s' = alert_tbl s"
proof -
  let ?E = "filter (\<lambda>a. DashboardId a = sa_DashboardId cmd) (alert_tbl s)"
  from loop_no_change [OF assms(1)] obtain s1 where
    s1: "updateAlerts_loop tn 0 ?E (Alerts cmd) s = Inr s1" "alert_tbl s1 = alert_tbl s" by blast
  from deleteMissingAlerts_total obtain s' where
    s': "deleteMissingAlerts ?E cmd s1 = Inr s'" by blast
  have e: "ID ` {k \<in> set ?E. PanelId k \<notin> PanelId ` set (Alerts cmd)} = {}"
    using assms(2) by auto
  have "alert_tbl s' =
      filter (\<lambda>a. ID a \<notin> ID ` {k \<in> set ?E. PanelId k \<notin> PanelId ` set (Alerts cmd)}) (alert_tbl s1)"
    by (rule deleteMissingAlerts_alert_tbl [OF s'])
  then have "alert_tbl s' = alert_tbl s1" unfolding e by simp
  with s1(2) have "alert_tbl s' = alert_tbl s" by simp
  with s1(1) s' show ?thesis
    by (simp add: SaveAlerts_def GetAlertsByDashboardId2_def updateAlerts_def)
qed

text \<open>
  Claim C1. After a successful reconciliation:
  \<^item> no row has the id of a persisted rule of the dashboard whose panel no desired rule has;
  \<^item> with unique rule ids and no two desired rules for one panel, the one row with the id
    of a persisted rule \<open>k\<close> that a desired rule \<open>d\<close> is matched to is \<open>k\<close> updated from
    \<open>d\<close> when \<open>ContainsUpdates k d\<close>, and \<open>k\<close> itself, untouched, otherwise;
  \<^item> for a desired rule \<open>d\<close> whose panel no persisted rule of the dashboard has, there is a
    row under an id no row had before, with the content of \<open>d\<close>, state \<open>unknown\<close> and
    clock readings as its time stamps.
  Lemma \<open>SaveAlerts_succeeds\<close> gives conditions under which reconciliation succeeds.
\<close>

theorem SaveAlerts_partitions_by_panel:
  assumes "SaveAlerts timeNow cmd s = Inr s'"
  shows "(\<forall>k \<in> set (alert_tbl s).
            DashboardId k = sa_DashboardId cmd \<and> PanelId k \<notin> PanelId ` set (Alerts cmd) \<longrightarrow>
            ID k \<notin> ID ` set (alert_tbl s'))
       \<and> (distinct (map ID (alert_tbl s)) \<and> distinct (map PanelId (Alerts cmd)) \<longrightarrow>
            (\<forall>d \<in> set (Alerts cmd). \<forall>k.
               matching (filter (\<lambda>a. DashboardId a = sa_DashboardId cmd) (alert_tbl s)) d = Some k \<longrightarrow>
               (\<exists>row \<in> set (alert_tbl s').
                  (\<forall>r \<in> set (alert_tbl s'). ID r = ID k \<longrightarrow> r = row)
                  \<and> (if ContainsUpdates k d then \<exists>i. row = written timeNow i k d k else row = k))))
       \<and> (\<forall>d \<in> set (Alerts cmd).
            matching (filter (\<lambda>a. DashboardId a = sa_DashboardId cmd) (alert_tbl s)) d = None \<longrightarrow>
            (\<exists>row \<in> set (alert_tbl s').
               (\<exists>i j. row = (insertBean timeNow j d)\<lparr>ID := i\<rparr>)
               \<and> ID row \<notin> ID ` set (alert_tbl s)
               \<and> PanelId row = PanelId d \<and> State row = AlertStateUnknown))"
proof (intro conjI ballI allI impI)
  let ?E = "filter (\<lambda>a. DashboardId a = sa_DashboardId cmd) (alert_tbl s)"
  let ?missing = "ID ` {k \<in> set ?E. PanelId k \<notin> PanelId ` set (Alerts cmd)}"
  from assms obtain s1 where
    loop: "updateAlerts_loop timeNow 0 ?E (Alerts cmd) s = Inr s1"
    and del: "deleteMissingAlerts ?E cmd s1 = Inr s'"
    by (rule SaveAlerts_InrD)
  have rows': "alert_tbl s' = filter (\<lambda>a. ID a \<notin> ?missing) (alert_tbl s1)"
    using del by (rule deleteMissingAlerts_alert_tbl)
  {
    fix k
    assume "k \<in> set (alert_tbl s)"
      "DashboardId k = sa_DashboardId cmd \<and> PanelId k \<notin> PanelId ` set (Alerts cmd)"
    then have "ID k \<in> ?missing" by auto
    then show "ID k \<notin> ID ` set (alert_tbl s')" unfolding rows' by auto
  }
  {
    fix d k
    assume "distinct (map ID (alert_tbl s)) \<and> distinct (map PanelId (Alerts cmd))"
      "d \<in> set (Alerts cmd)" "matching ?E d = Some k"
    with SaveAlerts_matched [OF assms, of d k]
    show "\<exists>row \<in> set (alert_tbl s').
                  (\<forall>r \<in> set (alert_tbl s'). ID r = ID k \<longrightarrow> r = row)
                  \<and> (if ContainsUpdates k d then \<exists>i. row = written timeNow i k d k else row = k)"
      by blast
  }
  {
    fix d
    assume d: "d \<in> set (Alerts cmd)" and m: "matching ?E d = None"
    have sub: "ID ` set ?E \<subseteq> ID ` set (alert_tbl s)" by auto
    from loop_inserted [OF loop d m sub] obtain i j where
      a: "(insertBean timeNow j d)\<lparr>ID := i\<rparr> \<in> set (alert_tbl s1)" "i \<notin> ID ` set (alert_tbl s)"
      by blast
    let ?row = "(insertBean timeNow j d)\<lparr>ID := i\<rparr>"
    from a(2) sub have "i \<notin> ?missing" by auto
    with a(1) have "?row \<in> set (alert_tbl s')" unfolding rows' by simp
    moreover have "ID ?row \<notin> ID ` set (alert_tbl s)" using a(2) by simp
    moreover have "PanelId ?row = PanelId d" "State ?row = AlertStateUnknown"
      by (simp_all add: insertBean_def)
    ultimately show "\<exists>row \<in> set (alert_tbl s').
               (\<exists>i j. row = (insertBean timeNow j d)\<lparr>ID := i\<rparr>)
               \<and> ID row \<notin> ID ` set (alert_tbl s)
               \<and> PanelId row = PanelId d \<and> State row = AlertStateUnknown"
      by blast
  }
qed

lemma example_rows:
  "ID pendingRule = 1" "ID okRule = 2" "ID alertingRule = 3" "ID otherRule = 9"
  "DashboardId pendingRule = 1" "DashboardId okRule = 1" "DashboardId alertingRule = 1"
  "DashboardId otherRule = 2"
  "PanelId pendingRule = 1" "PanelId okRule = 2" "PanelId alertingRule = 3" "PanelId otherRule = 1"
  "Name okRule = ''mem''" "Name alertingRule = ''disk''" "Message okRule = ''msg''"
  "Message alertingRule = ''msg''" "Settings okRule = Some (exampleJson ''{}'')"
  "Settings alertingRule = Some (exampleJson ''{}'')"
  "State alertingRule = AlertStateAlerting" "Created alertingRule = 10" "Created okRule = 10"
  "Updated okRule = 10"
  by (simp_all add: pendingRule_def okRule_def alertingRule_def otherRule_def exampleAlert_def)

lemma desiredAlert_sel:
  "ID (desiredAlert dash panel name) = 0" "DashboardId (desiredAlert dash panel name) = dash"
  "PanelId (desiredAlert dash panel name) = panel" "Name (desiredAlert dash panel name) = name"
  "Message (desiredAlert dash panel name) = ''msg''"
  "Settings (desiredAlert dash panel name) = Some (exampleJson ''{}'')"
  "Created (desiredAlert dash panel name) = 0"
  by (simp_all add: desiredAlert_def exampleAlert_def)

lemma example_notifications:
  "Settings a = Some (exampleJson enc) \<Longrightarrow> GetNotificationsFromSettings a \<noteq> None"
  "Settings a = None \<Longrightarrow> GetNotificationsFromSettings a \<noteq> None"
  "Settings a = Some unencodable \<Longrightarrow> GetNotificationsFromSettings a \<noteq> None"
  by (simp_all add: GetNotificationsFromSettings_def exampleJson_def unencodable_def)

lemma desired_notifications:
  "GetNotificationsFromSettings (desiredAlert dash panel name) = Some [''mail'']"
  by (simp add: GetNotificationsFromSettings_def desiredAlert_sel exampleJson_def)

lemma reconcile_persisted:
  "filter (\<lambda>a. DashboardId a = sa_DashboardId reconcileCmd) (alert_tbl reconcileStore)
     = [pendingRule, okRule, alertingRule]"
  by (simp add: reconcileCmd_def reconcileStore_def exampleStore_def example_rows)

lemma reconcile_matching:
  "matching [pendingRule, okRule, alertingRule] (desiredAlert 1 2 ''mem'') = Some okRule"
  "matching [pendingRule, okRule, alertingRule] (desiredAlert 1 3 ''disk usage'') = Some alertingRule"
  "matching [pendingRule, okRule, alertingRule] (desiredAlert 1 4 ''net'') = None"
  by (simp_all add: matching_def desiredAlert_sel example_rows)

lemma reconcile_changes:
  "\<not> ContainsUpdates okRule (desiredAlert 1 2 ''mem'')"
  "ContainsUpdates alertingRule (desiredAlert 1 3 ''disk usage'')"
  by (simp_all add: ContainsUpdates_def desiredAlert_sel example_rows exampleJson_def)

lemma reconcile_wellformed:
  "distinct (map ID (alert_tbl reconcileStore))"
  "distinct (map PanelId (Alerts reconcileCmd))"
  "Alerts reconcileCmd
     = [desiredAlert 1 2 ''mem'', desiredAlert 1 3 ''disk usage'', desiredAlert 1 4 ''net'']"
  "ID ` set (alert_tbl reconcileStore) = {1, 2, 3, 9}"
  "pendingRule \<in> set (alert_tbl reconcileStore)"
  by (simp_all add: reconcileCmd_def reconcileStore_def exampleStore_def example_rows
      desiredAlert_sel)

lemma reconcile_succeeds:
  "\<exists>s'. SaveAlerts exampleClock reconcileCmd reconcileStore = Inr s'"
proof (rule SaveAlerts_succeeds)
  show "\<forall>d \<in> set (Alerts reconcileCmd). GetNotificationsFromSettings d \<noteq> None
      \<and> (ID d = 0 \<or> matching (filter (\<lambda>a. DashboardId a = sa_DashboardId reconcileCmd)
             (alert_tbl reconcileStore)) d \<noteq> None)"
    unfolding reconcile_wellformed(3)
    by (simp add: desiredAlert_sel desired_notifications)
qed

text \<open>
  The theorem at the persisted panels 1, 2, 3 and the desired panels 2, 3, 4 of dashboard
  1: rule 1 is gone, rule 2 (same content) is untouched, rule 3 (new name) is written with
  its id and state kept, and panel 4 has a new rule in state \<open>unknown\<close>.
\<close>

theorem SaveAlerts_partitions_by_panel_witness:
  "\<exists>s'. SaveAlerts exampleClock reconcileCmd reconcileStore = Inr s'
     \<and> 1 \<notin> ID ` set (alert_tbl s')
     \<and> okRule \<in> set (alert_tbl s')
     \<and> (\<exists>i. written exampleClock i alertingRule (desiredAlert 1 3 ''disk usage'') alertingRule
              \<in> set (alert_tbl s'))
     \<and> (\<exists>row \<in> set (alert_tbl s').
           PanelId row = 4 \<and> State row = AlertStateUnknown \<and> ID row \<notin> {1, 2, 3, 9})"
proof -
  from reconcile_succeeds obtain s' where
    ok: "SaveAlerts exampleClock reconcileCmd reconcileStore = Inr s'" by blast
  note t = SaveAlerts_partitions_by_panel [OF ok, unfolded reconcile_persisted]
  have d: "desiredAlert 1 2 ''mem'' \<in> set (Alerts reconcileCmd)"
    "desiredAlert 1 3 ''disk usage'' \<in> set (Alerts reconcileCmd)"
    "desiredAlert 1 4 ''net'' \<in> set (Alerts reconcileCmd)"
    by (simp_all add: reconcile_wellformed(3))
  have p1: "DashboardId pendingRule = sa_DashboardId reconcileCmd
      \<and> PanelId pendingRule \<notin> PanelId ` set (Alerts reconcileCmd)"
    by (simp add: reconcile_wellformed(3) desiredAlert_sel example_rows reconcileCmd_def)
  from t [THEN conjunct1, rule_format, OF reconcile_wellformed(5) p1]
  have "ID pendingRule \<notin> ID ` set (alert_tbl s')" .
  then have 1: "1 \<notin> ID ` set (alert_tbl s')" by (simp add: example_rows)
  note t2 = t [THEN conjunct2, THEN conjunct1, rule_format,
      OF conjI [OF reconcile_wellformed(1,2)]]
  from t2 [OF d(1) reconcile_matching(1)] reconcile_changes(1)
  have 2: "okRule \<in> set (alert_tbl s')" by auto
  from t2 [OF d(2) reconcile_matching(2)] reconcile_changes(2)
  have 3: "\<exists>i. written exampleClock i alertingRule (desiredAlert 1 3 ''disk usage'') alertingRule
              \<in> set (alert_tbl s')" by auto
  from t [THEN conjunct2, THEN conjunct2, rule_format, OF d(3) reconcile_matching(3)]
  have "\<exists>row \<in> set (alert_tbl s').
               (\<exists>i j. row = (insertBean exampleClock j (desiredAlert 1 4 ''net''))\<lparr>ID := i\<rparr>)
               \<and> ID row \<notin> ID ` set (alert_tbl reconcileStore)
               \<and> PanelId row = PanelId (desiredAlert 1 4 ''net'') \<and> State row = AlertStateUnknown" .
  then have 4: "\<exists>row \<in> set (alert_tbl s').
           PanelId row = 4 \<and> State row = AlertStateUnknown \<and> ID row \<notin> {1, 2, 3, 9}"
    unfolding reconcile_wellformed(4) desiredAlert_sel by blast
  from ok 1 2 3 4 show ?thesis by blast
qed

lemma reconcile_matching_store:
  "matching (filter (\<lambda>a. DashboardId a = sa_DashboardId reconcileCmd) (alert_tbl reconcileStore))
     (desiredAlert 1 2 ''mem'') = Some okRule"
  "matching (filter (\<lambda>a. DashboardId a = sa_DashboardId reconcileCmd) (alert_tbl reconcileStore))
     (desiredAlert 1 3 ''disk usage'') = Some alertingRule"
  by (simp_all add: reconcile_persisted reconcile_matching)

lemma reconcile_desired:
  "desiredAlert 1 2 ''mem'' \<in> set (Alerts reconcileCmd)"
  "desiredAlert 1 3 ''disk usage'' \<in> set (Alerts reconcileCmd)"
  by (simp_all add: reconcile_wellformed(3))


text \<open>One persisted rule and one desired rule for its panel.\<close>

lemma single_persisted:
  assumes "alert_tbl s = [k]" "DashboardId k = sa_DashboardId cmd"
  shows "filter (\<lambda>a. DashboardId a = sa_DashboardId cmd) (alert_tbl s) = [k]"
  using assms by simp

lemma SaveAlerts_single_write:
  assumes tbl: "alert_tbl s = [k]" and dash: "DashboardId k = sa_DashboardId cmd"
    and cmd: "Alerts cmd = [d]" and panel: "PanelId d = PanelId k"
    and cu: "ContainsUpdates k d" and g: "GetNotificationsFromSettings d \<noteq> None"
  shows "\<exists>s'. SaveAlerts tn cmd s = Inr s' \<and> alert_tbl s' = [written tn 0 k d k]"
proof -
  let ?E = "filter (\<lambda>a. DashboardId a = sa_DashboardId cmd) (alert_tbl s)"
  have E: "?E = [k]" using tbl dash by (rule single_persisted)
  have m: "matching ?E d = Some k" unfolding E using panel by (simp add: matching_def)
  have "\<exists>s'. SaveAlerts tn cmd s = Inr s'"
    by (rule SaveAlerts_succeeds) (use cmd g m in simp)
  then obtain s' where ok: "SaveAlerts tn cmd s = Inr s'" ..
  then obtain s1 where loop: "updateAlerts_loop tn 0 ?E (Alerts cmd) s = Inr s1"
    and del: "deleteMissingAlerts ?E cmd s1 = Inr s'"
    by (rule SaveAlerts_InrD)
  from loop [unfolded cmd] m cu obtain s2 where
    "updateAlerts_loop tn (0 + 1) ?E [] s2 = Inr s1"
    "alert_tbl s2 = map (\<lambda>row. if ID row = ID k then written tn 0 k d row else row) (alert_tbl s)"
    by (rule loop_Cons_write)
  then have s1: "alert_tbl s1 = [written tn 0 k d k]" using tbl by simp
  have e: "ID ` {k \<in> set ?E. PanelId k \<notin> PanelId ` set (Alerts cmd)} = {}"
    unfolding E cmd using panel by simp
  have "alert_tbl s' =
      filter (\<lambda>a. ID a \<notin> ID ` {k \<in> set ?E. PanelId k \<notin> PanelId ` set (Alerts cmd)}) (alert_tbl s1)"
    by (rule deleteMissingAlerts_alert_tbl [OF del])
  then have "alert_tbl s' = alert_tbl s1" unfolding e by simp
  with ok s1 show ?thesis by simp
qed


lemma single_store:
  "alert_tbl (exampleStore [k]) = [k]" "sa_DashboardId (singleSave d) = 1"
  "Alerts (singleSave d) = [d]"
  by (simp_all add: exampleStore_def singleSave_def)


text \<open>
  A desired rule that carries a creation time of its own and a new name: the row is
  written, and with it the caller's creation time; the persisted one (10) is lost.
\<close>

theorem caller_Created_counterexample:
  "Created okRule = 10
   \<and> map_sum id (map Created \<circ> alert_tbl)
       (SaveAlerts exampleClock (singleSave ((desiredAlert 1 2 ''memory'')\<lparr>Created := 5\<rparr>))
          (exampleStore [okRule])) = Inr [5]"
proof -
  let ?d = "(desiredAlert 1 2 ''memory'')\<lparr>Created := 5\<rparr>"
  have c: "ContainsUpdates okRule ?d"
    by (simp add: ContainsUpdates_def desiredAlert_sel example_rows exampleJson_def)
  have p: "PanelId ?d = PanelId okRule" "DashboardId okRule = sa_DashboardId (singleSave ?d)"
    by (simp_all add: desiredAlert_sel example_rows single_store)
  have g: "GetNotificationsFromSettings ?d \<noteq> None"
    by (simp add: example_notifications(1) [of _ "''{}''"] desiredAlert_sel)
  from SaveAlerts_single_write [OF single_store(1) p(2) single_store(3) p(1) c g,
      where tn = exampleClock]
  obtain s' where "SaveAlerts exampleClock (singleSave ?d) (exampleStore [okRule]) = Inr s'"
    "alert_tbl s' = [written exampleClock 0 okRule ?d okRule]" by blast
  then show ?thesis by (simp add: written_sel example_rows)
qed


text \<open>
  The theorem at the example above, for the rule of panel 3: written with a new name, it
  keeps its id, its state \<open>alerting\<close> and its creation time.
\<close>

theorem SaveAlerts_preserves_identity_witness:
  "\<exists>s'. SaveAlerts exampleClock reconcileCmd reconcileStore = Inr s'
     \<and> (\<exists>row \<in> set (alert_tbl s').
           ID row = 3 \<and> State row = AlertStateAlerting \<and> Created row = 10
           \<and> Name row = ''disk usage'')"
proof -
  from reconcile_succeeds obtain s' where
    ok: "SaveAlerts exampleClock reconcileCmd reconcileStore = Inr s'" by blast
  from SaveAlerts_preserves_identity [OF ok reconcile_wellformed(1,2)
      reconcile_desired(2) reconcile_matching_store(2)]
  obtain row where row: "row \<in> set (alert_tbl s')"
    "\<forall>r \<in> set (alert_tbl s'). ID r = ID alertingRule \<longrightarrow> r = row"
    "ID row = ID alertingRule" "State row = State alertingRule"
    "Created (desiredAlert 1 3 ''disk usage'') = 0
       \<or> \<not> ContainsUpdates alertingRule (desiredAlert 1 3 ''disk usage'')
     \<longrightarrow> Created row = Created alertingRule"
    by blast
  from SaveAlerts_matched [OF ok reconcile_wellformed(1,2)
      reconcile_desired(2) reconcile_matching_store(2)] reconcile_changes(2)
  obtain row' i where row': "row' \<in> set (alert_tbl s')"
    "row' = written exampleClock i alertingRule (desiredAlert 1 3 ''disk usage'') alertingRule"
    by auto
  from row' row(2) have "row = row'" by simp
  with row'(2) have "Name row = ''disk usage''" by (simp add: written_sel desiredAlert_sel)
  moreover from row(3,4,5) have "ID row = 3" "State row = AlertStateAlerting" "Created row = 10"
    by (simp_all add: example_rows desiredAlert_sel)
  ultimately show ?thesis using ok row(1) by blast
qed

section \<open>Idempotence of reconciliation\<close>

text \<open>Where the rows after the loop come from.\<close>

lemma loop_rows:
  "updateAlerts_loop tn n E ds s = Inr s' \<Longrightarrow> r1 \<in> set (alert_tbl s') \<Longrightarrow>
   r1 \<in> set (alert_tbl s)
   \<or> (\<exists>d \<in> set ds. \<exists>k i r. matching E d = Some k \<and> ContainsUpdates k d \<and> ID r = ID k
          \<and> r1 = written tn i k d r)
   \<or> (\<exists>d \<in> set ds. \<exists>i j. matching E d = None \<and> r1 = (insertBean tn j d)\<lparr>ID := i\<rparr>)"
proof (induction ds arbitrary: s n)
  case Nil
  then show ?case by simp
next
  case (Cons d ds)
  let ?W = "\<lambda>ds. \<exists>d \<in> set ds. \<exists>k i r. matching E d = Some k \<and> ContainsUpdates k d \<and> ID r = ID k
          \<and> r1 = written tn i k d r"
  let ?I = "\<lambda>ds. \<exists>d \<in> set ds. \<exists>i j. matching E d = None \<and> r1 = (insertBean tn j d)\<lparr>ID := i\<rparr>"
  have later: "?W ds \<longrightarrow> ?W (d # ds)" by auto
  have later': "?I ds \<longrightarrow> ?I (d # ds)" by auto
  show ?case
  proof (cases "matching E d")
    case None
    from Cons.prems(1) None obtain s2 i where
      r: "updateAlerts_loop tn (n + 3) E ds s2 = Inr s'"
      and t: "alert_tbl s2 = alert_tbl s @ [(insertBean tn n d)\<lparr>ID := i\<rparr>]"
      by (rule loop_Cons_insert)
    from Cons.IH [OF r Cons.prems(2)] have "r1 \<in> set (alert_tbl s2) \<or> ?W ds \<or> ?I ds" .
    moreover have "r1 \<in> set (alert_tbl s) \<or> ?I (d # ds)" if "r1 \<in> set (alert_tbl s2)"
    proof -
      from that t have "r1 \<in> set (alert_tbl s) \<or> r1 = (insertBean tn n d)\<lparr>ID := i\<rparr>" by auto
      with None show ?thesis by auto
    qed
    ultimately show ?thesis using later later' by argo
  next
    case (Some k)
    show ?thesis
    proof (cases "ContainsUpdates k d")
      case True
      from Cons.prems(1) Some True obtain s2 where
        r: "updateAlerts_loop tn (n + 1) E ds s2 = Inr s'"
        and t: "alert_tbl s2 =
          map (\<lambda>row. if ID row = ID k then written tn n k d row else row) (alert_tbl s)"
        by (rule loop_Cons_write)
      from Cons.IH [OF r Cons.prems(2)] have "r1 \<in> set (alert_tbl s2) \<or> ?W ds \<or> ?I ds" .
      moreover have "r1 \<in> set (alert_tbl s) \<or> ?W (d # ds)" if "r1 \<in> set (alert_tbl s2)"
      proof -
        from that obtain r where r: "r \<in> set (alert_tbl s)"
          "r1 = (if ID r = ID k then written tn n k d r else r)"
          unfolding t by auto
        show ?thesis
        proof (cases "ID r = ID k")
          case True
          with r(2) Some \<open>ContainsUpdates k d\<close> have "?W (d # ds)" by auto
          then show ?thesis ..
        next
          case False
          with r show ?thesis by simp
        qed
      qed
      ultimately show ?thesis using later later' by argo
    next
      case False
      from Cons.prems(1) Some False obtain s2 where
        r: "updateAlerts_loop tn n E ds s2 = Inr s'" and t: "alert_tbl s2 = alert_tbl s"
        by (rule loop_Cons_skip)
      from Cons.IH [OF r Cons.prems(2)] later later' show ?thesis unfolding t by argo
    qed
  qed
qed

lemma ContainsUpdates_same:
  "Name a = Name b \<Longrightarrow> Message a = Message b \<Longrightarrow> Settings a = Settings b \<or> Settings b = None \<Longrightarrow>
   \<not> ContainsUpdates a b"
  by (auto simp: ContainsUpdates_def split: option.splits)

lemma written_up_to_date:
  "Name d \<noteq> [] \<Longrightarrow> \<not> ContainsUpdates (written tn i k d r) d"
  by (rule ContainsUpdates_same) (simp_all add: written_sel)

lemma inserted_up_to_date:
  "\<not> ContainsUpdates ((insertBean tn j d)\<lparr>ID := i\<rparr>) d"
  by (rule ContainsUpdates_same) (simp_all add: insertBean_def)

lemma loop_Inr_notifications:
  "updateAlerts_loop tn n E ds s = Inr s' \<Longrightarrow>
   \<forall>d \<in> set ds. GetNotificationsFromSettings d \<noteq> None"
proof (induction ds arbitrary: s n)
  case Nil
  then show ?case by simp
next
  case (Cons d ds)
  from Cons.prems obtain s1 a n' s2 where u: "upsertAlert tn n E d s = Inr (s1, a, n')"
    and l: "replaceLinks a s1 = Inr s2" and r: "updateAlerts_loop tn n' E ds s2 = Inr s'"
    by (auto split: sum.splits)
  have "Settings a = Settings d"
  proof (cases "matching E d")
    case None
    with u obtain s0 where "xorm_Insert (insertBean tn n d) s = Inr (s0, a)"
      by (auto simp: upsertAlert_insert split: sum.splits)
    from xorm_Insert_Inr(1) [OF this] have "Settings a = Settings (insertBean tn n d)"
      by (metis Alert.select_convs(20) Alert.surjective Alert.update_convs(1))
    then show ?thesis by (simp add: insertBean_def)
  next
    case (Some k)
    with u show ?thesis
      by (cases "ContainsUpdates k d")
        (auto simp: upsertAlert_write upsertAlert_skip updateBean_def)
  qed
  then have "GetNotificationsFromSettings a = GetNotificationsFromSettings d"
    by (rule GetNotificationsFromSettings_cong)
  moreover from l replaceLinks_succeeds [of a s1] have "GetNotificationsFromSettings a \<noteq> None"
    by blast
  ultimately show ?case using Cons.IH [OF r] by simp
qed

lemma same_panel_same_row:
  "distinct (map PanelId E) \<Longrightarrow> k \<in> set E \<Longrightarrow> k' \<in> set E \<Longrightarrow> PanelId k = PanelId k' \<Longrightarrow> k = k'"
  by (metis distinct_map inj_onD)

lemma matching_Some_iff_panel:
  "(\<exists>k. matching E d = Some k) \<longleftrightarrow> PanelId d \<in> PanelId ` set E"
  using matching_None [of E d] by auto

text \<open>After a successful reconciliation of well-formed input, the rows of the dashboard are
  the rows of the desired rules, one per panel, and none differs from its desired rule.\<close>

lemma SaveAlerts_result:
  assumes ok: "SaveAlerts tn cmd s = Inr s'"
    and pk: "distinct (map ID (alert_tbl s))"
    and dp: "distinct (map PanelId (Alerts cmd))"
    and pp: "distinct (map PanelId (filter (\<lambda>a. DashboardId a = sa_DashboardId cmd) (alert_tbl s)))"
    and wf: "\<forall>d \<in> set (Alerts cmd). DashboardId d = sa_DashboardId cmd \<and> Name d \<noteq> []"
  shows "\<forall>r1 \<in> set (alert_tbl s'). DashboardId r1 = sa_DashboardId cmd \<longrightarrow>
           (\<exists>d \<in> set (Alerts cmd). PanelId d = PanelId r1 \<and> \<not> ContainsUpdates r1 d)"
    and "\<forall>d \<in> set (Alerts cmd). \<exists>r1 \<in> set (alert_tbl s').
           DashboardId r1 = sa_DashboardId cmd \<and> PanelId r1 = PanelId d"
proof -
  let ?D = "sa_DashboardId cmd"
  let ?E = "filter (\<lambda>a. DashboardId a = ?D) (alert_tbl s)"
  let ?missing = "ID ` {k \<in> set ?E. PanelId k \<notin> PanelId ` set (Alerts cmd)}"
  from ok obtain s1 where
    loop: "updateAlerts_loop tn 0 ?E (Alerts cmd) s = Inr s1"
    and del: "deleteMissingAlerts ?E cmd s1 = Inr s'"
    by (rule SaveAlerts_InrD)
  have rows': "alert_tbl s' = filter (\<lambda>a. ID a \<notin> ?missing) (alert_tbl s1)"
    using del by (rule deleteMissingAlerts_alert_tbl)
  note matched = SaveAlerts_matched [OF ok pk dp]
  show "\<forall>d \<in> set (Alerts cmd). \<exists>r1 \<in> set (alert_tbl s').
           DashboardId r1 = ?D \<and> PanelId r1 = PanelId d"
  proof
    fix d
    assume d: "d \<in> set (Alerts cmd)"
    with wf have dd: "DashboardId d = ?D" by simp
    show "\<exists>r1 \<in> set (alert_tbl s'). DashboardId r1 = ?D \<and> PanelId r1 = PanelId d"
    proof (cases "matching ?E d")
      case None
      have sub: "ID ` set ?E \<subseteq> ID ` set (alert_tbl s)" by auto
      from loop_inserted [OF loop d None sub] obtain i j where
        a: "(insertBean tn j d)\<lparr>ID := i\<rparr> \<in> set (alert_tbl s1)" "i \<notin> ID ` set (alert_tbl s)"
        by blast
      from a(2) sub have "i \<notin> ?missing" by auto
      with a(1) have "(insertBean tn j d)\<lparr>ID := i\<rparr> \<in> set (alert_tbl s')"
        unfolding rows' by simp
      moreover have "DashboardId ((insertBean tn j d)\<lparr>ID := i\<rparr>) = ?D"
        "PanelId ((insertBean tn j d)\<lparr>ID := i\<rparr>) = PanelId d"
        using dd by (simp_all add: insertBean_def)
      ultimately show ?thesis by blast
    next
      case (Some k)
      then have k: "k \<in> set ?E" "PanelId k = PanelId d" using matching_SomeD by blast+
      then have kd: "DashboardId k = ?D" by simp
      from matched [OF d Some] obtain row where row: "row \<in> set (alert_tbl s')"
        "if ContainsUpdates k d then \<exists>i. row = written tn i k d k else row = k"
        by blast
      have "DashboardId row = ?D \<and> PanelId row = PanelId d"
      proof (cases "ContainsUpdates k d")
        case True
        with row(2) obtain i where "row = written tn i k d k" by auto
        with k(2) kd dd show ?thesis by (simp add: written_sel)
      next
        case False
        with row(2) k(2) kd show ?thesis by simp
      qed
      with row(1) show ?thesis by blast
    qed
  qed
  show "\<forall>r1 \<in> set (alert_tbl s'). DashboardId r1 = ?D \<longrightarrow>
           (\<exists>d \<in> set (Alerts cmd). PanelId d = PanelId r1 \<and> \<not> ContainsUpdates r1 d)"
  proof (intro ballI impI)
    fix r1
    assume r1: "r1 \<in> set (alert_tbl s')" and r1d: "DashboardId r1 = ?D"
    from r1 have in1: "r1 \<in> set (alert_tbl s1)" and keep: "ID r1 \<notin> ?missing"
      unfolding rows' by simp_all
    from loop_rows [OF loop in1]
    consider (old) "r1 \<in> set (alert_tbl s)"
      | (upd) d k i r where "d \<in> set (Alerts cmd)" "matching ?E d = Some k" "ContainsUpdates k d"
          "ID r = ID k" "r1 = written tn i k d r"
      | (ins) d i j where "d \<in> set (Alerts cmd)" "matching ?E d = None"
          "r1 = (insertBean tn j d)\<lparr>ID := i\<rparr>"
      by blast
    then show "\<exists>d \<in> set (Alerts cmd). PanelId d = PanelId r1 \<and> \<not> ContainsUpdates r1 d"
    proof cases
      case old
      with r1d have e: "r1 \<in> set ?E" by simp
      with keep have "PanelId r1 \<in> PanelId ` set (Alerts cmd)" by blast
      then obtain d where d: "d \<in> set (Alerts cmd)" "PanelId d = PanelId r1" by auto
      with e have "PanelId d \<in> PanelId ` set ?E" by (metis imageI)
      then obtain k where m: "matching ?E d = Some k"
        using matching_Some_iff_panel by blast
      then have "k \<in> set ?E" "PanelId k = PanelId d" using matching_SomeD by blast+
      with e d(2) pp have "k = r1" using same_panel_same_row by metis
      with m have m1: "matching ?E d = Some r1" by simp
      from matched [OF d(1) m1] r1 have
        "if ContainsUpdates r1 d then \<exists>i. r1 = written tn i r1 d r1 else True"
        by (auto split: if_splits)
      moreover from wf d(1) have "Name d \<noteq> []" by simp
      ultimately have "\<not> ContainsUpdates r1 d"
        using written_up_to_date [of d tn _ r1 r1] by (metis (full_types))
      with d show ?thesis by blast
    next
      case upd
      from upd(2) have k: "PanelId k = PanelId d" using matching_SomeD by blast
      from matched [OF upd(1,2)] upd(3) obtain row i' where
        row: "row = written tn i' k d k" "\<forall>r \<in> set (alert_tbl s'). ID r = ID k \<longrightarrow> r = row"
        by auto
      from upd(4,5) have "ID r1 = ID k" by simp
      with row r1 have "r1 = written tn i' k d k" by simp
      with k have "PanelId d = PanelId r1" by (simp add: written_sel)
      moreover from wf upd(1) have "Name d \<noteq> []" by simp
      then have "\<not> ContainsUpdates r1 d" unfolding upd(5) by (rule written_up_to_date)
      ultimately show ?thesis using upd(1) by blast
    next
      case ins
      have "PanelId d = PanelId r1" unfolding ins(3) by (simp add: insertBean_def)
      moreover have "\<not> ContainsUpdates r1 d" unfolding ins(3) by (rule inserted_up_to_date)
      ultimately show ?thesis using ins(1) by blast
    qed
  qed
qed

text \<open>
  Claim C6, as amended. Let reconciliation succeed on a store with unique rule ids and at
  most one persisted rule per panel of the dashboard, for a command with at most one
  desired rule per panel, each carrying the dashboard's id and a non-empty name. Then
  reconciling again with the same command, at any later clock, succeeds and leaves the
  table of rules as the first run left it: no rule row is written, inserted or deleted,
  and every \<open>Updated\<close> and every \<open>State\<close> is what it was. (The tag links and notification
  links of each desired rule are deleted and written again in every run.)
\<close>

theorem SaveAlerts_idempotent:
  assumes "SaveAlerts timeNow1 cmd s = Inr s1"
    and "distinct (map ID (alert_tbl s))"
    and "distinct (map PanelId (Alerts cmd))"
    and "distinct (map PanelId (filter (\<lambda>a. DashboardId a = sa_DashboardId cmd) (alert_tbl s)))"
    and "\<forall>d \<in> set (Alerts cmd). DashboardId d = sa_DashboardId cmd \<and> Name d \<noteq> []"
  shows "\<exists>s2. SaveAlerts timeNow2 cmd s1 = Inr s2 \<and> alert_tbl s2 = alert_tbl s1
           \<and> map Updated (alert_tbl s2) = map Updated (alert_tbl s1)
           \<and> map State (alert_tbl s2) = map State (alert_tbl s1)"
proof -
  let ?D = "sa_DashboardId cmd"
  let ?E2 = "filter (\<lambda>a. DashboardId a = ?D) (alert_tbl s1)"
  note res = SaveAlerts_result [OF assms]
  from assms(1) obtain s0 where
    "updateAlerts_loop timeNow1 0 (filter (\<lambda>a. DashboardId a = ?D) (alert_tbl s)) (Alerts cmd) s
       = Inr s0"
    by (rule SaveAlerts_InrD)
  then have g: "\<forall>d \<in> set (Alerts cmd). GetNotificationsFromSettings d \<noteq> None"
    by (rule loop_Inr_notifications)
  have again: "\<forall>d \<in> set (Alerts cmd). GetNotificationsFromSettings d \<noteq> None
      \<and> (\<exists>k. matching ?E2 d = Some k \<and> \<not> ContainsUpdates k d)"
  proof
    fix d
    assume d: "d \<in> set (Alerts cmd)"
    with res(2) obtain r1 where "r1 \<in> set ?E2" "PanelId r1 = PanelId d" by auto
    then have "PanelId d \<in> PanelId ` set ?E2" by (metis imageI)
    then obtain k where m: "matching ?E2 d = Some k" using matching_Some_iff_panel by blast
    then have k: "k \<in> set ?E2" "PanelId k = PanelId d" using matching_SomeD by blast+
    with res(1) obtain d' where d': "d' \<in> set (Alerts cmd)" "PanelId d' = PanelId k"
      "\<not> ContainsUpdates k d'" by auto
    with d k(2) assms(3) have "d' = d" using same_panel_same_rule by metis
    with d' m g d show "GetNotificationsFromSettings d \<noteq> None
      \<and> (\<exists>k. matching ?E2 d = Some k \<and> \<not> ContainsUpdates k d)" by blast
  qed
  have all: "\<forall>k \<in> set (alert_tbl s1). DashboardId k = ?D \<longrightarrow> PanelId k \<in> PanelId ` set (Alerts cmd)"
    using res(1) by (metis imageI)
  from SaveAlerts_no_change [OF again all, of timeNow2] show ?thesis by auto
qed

lemma SaveAlerts_single_insert:
  assumes E: "filter (\<lambda>a. DashboardId a = sa_DashboardId cmd) (alert_tbl s) = []"
    and cmd: "Alerts cmd = [d]" and i: "ID d = 0"
    and g: "GetNotificationsFromSettings d \<noteq> None"
  shows "\<exists>s' i. SaveAlerts tn cmd s = Inr s'
           \<and> alert_tbl s' = alert_tbl s @ [(insertBean tn 0 d)\<lparr>ID := i\<rparr>]"
proof -
  let ?E = "filter (\<lambda>a. DashboardId a = sa_DashboardId cmd) (alert_tbl s)"
  have m: "matching ?E d = None" unfolding E by (simp add: matching_def)
  have "\<exists>s'. SaveAlerts tn cmd s = Inr s'"
    by (rule SaveAlerts_succeeds) (use cmd g i in simp)
  then obtain s' where ok: "SaveAlerts tn cmd s = Inr s'" ..
  then obtain s1 where loop: "updateAlerts_loop tn 0 ?E (Alerts cmd) s = Inr s1"
    and del: "deleteMissingAlerts ?E cmd s1 = Inr s'"
    by (rule SaveAlerts_InrD)
  from loop [unfolded cmd] m obtain s2 i where
    "updateAlerts_loop tn (0 + 3) ?E [] s2 = Inr s1"
    "alert_tbl s2 = alert_tbl s @ [(insertBean tn 0 d)\<lparr>ID := i\<rparr>]"
    by (rule loop_Cons_insert)
  then have s1: "alert_tbl s1 = alert_tbl s @ [(insertBean tn 0 d)\<lparr>ID := i\<rparr>]" by simp
  have e: "ID ` {k \<in> set ?E. PanelId k \<notin> PanelId ` set (Alerts cmd)} = {}"
    unfolding E by simp
  have "alert_tbl s' =
      filter (\<lambda>a. ID a \<notin> ID ` {k \<in> set ?E. PanelId k \<notin> PanelId ` set (Alerts cmd)}) (alert_tbl s1)"
    by (rule deleteMissingAlerts_alert_tbl [OF del])
  then have "alert_tbl s' = alert_tbl s1" unfolding e by simp
  with ok s1 show ?thesis by auto
qed

lemma laterClock_0: "laterClock 0 = 2000" "exampleClock 0 = 1000"
  by (simp_all add: laterClock_def exampleClock_def)

text \<open>
  Two commands whose second run writes again. A desired rule with an empty name for a
  persisted rule with a name: the update leaves the empty name unwritten, so the rule
  differs again in the second run, which stamps \<open>Updated\<close> anew (2000 after 1000). A desired
  rule that carries another dashboard's id: it is inserted under that dashboard, the second
  run does not find it among the persisted rules of the command's dashboard and inserts
  it once more.
\<close>

theorem not_idempotent_counterexample:
  "map_sum id (map Updated \<circ> alert_tbl)
     (SaveAlerts exampleClock (singleSave (desiredAlert 1 2 [])) (exampleStore [okRule]))
     = Inr [1000]
   \<and> map_sum id (map Updated \<circ> alert_tbl)
     (SaveAlerts_again exampleClock laterClock (singleSave (desiredAlert 1 2 []))
        (exampleStore [okRule]))
     = Inr [2000]
   \<and> map_sum id (length \<circ> alert_tbl)
     (SaveAlerts exampleClock (singleSave (desiredAlert 2 1 ''cpu'')) (exampleStore []))
     = Inr 1
   \<and> map_sum id (length \<circ> alert_tbl)
     (SaveAlerts_again exampleClock laterClock (singleSave (desiredAlert 2 1 ''cpu''))
        (exampleStore []))
     = Inr 2"
proof -
  let ?d = "desiredAlert 1 2 []"
  let ?cmd = "singleSave ?d"
  let ?w = "written exampleClock 0 okRule ?d okRule"
  have c: "ContainsUpdates okRule ?d"
    by (simp add: ContainsUpdates_def desiredAlert_sel example_rows exampleJson_def)
  have p: "PanelId ?d = PanelId okRule" "DashboardId okRule = sa_DashboardId ?cmd"
    by (simp_all add: desiredAlert_sel example_rows single_store)
  have g: "GetNotificationsFromSettings ?d \<noteq> None"
    by (simp add: desired_notifications)
  from SaveAlerts_single_write [OF single_store(1) p(2) single_store(3) p(1) c g,
      where tn = exampleClock]
  obtain s1 where s1: "SaveAlerts exampleClock ?cmd (exampleStore [okRule]) = Inr s1"
    "alert_tbl s1 = [?w]" by blast
  have w: "Name ?w = ''mem''" "Message ?w = ''msg''" "Settings ?w = Some (exampleJson ''{}'')"
    "PanelId ?w = 2" "DashboardId ?w = 1" "Updated ?w = 1000"
    by (simp_all add: written_sel desiredAlert_sel example_rows laterClock_0)
  have c2: "ContainsUpdates ?w ?d"
    by (simp add: ContainsUpdates_def desiredAlert_sel w exampleJson_def)
  have p2: "PanelId ?d = PanelId ?w" "DashboardId ?w = sa_DashboardId ?cmd"
    by (simp_all add: desiredAlert_sel w single_store)
  from SaveAlerts_single_write [OF s1(2) p2(2) single_store(3) p2(1) c2 g,
      where tn = laterClock]
  obtain s2 where s2: "SaveAlerts laterClock ?cmd s1 = Inr s2"
    "alert_tbl s2 = [written laterClock 0 ?w ?d ?w]" by blast
  have 1: "map_sum id (map Updated \<circ> alert_tbl)
      (SaveAlerts exampleClock ?cmd (exampleStore [okRule])) = Inr [1000]"
    using s1 w(6) by simp
  have 2: "map_sum id (map Updated \<circ> alert_tbl)
      (SaveAlerts_again exampleClock laterClock ?cmd (exampleStore [okRule])) = Inr [2000]"
    using s1(1) s2 by (simp add: SaveAlerts_again_def written_sel laterClock_0)
  let ?f = "desiredAlert 2 1 ''cpu''"
  let ?fc = "singleSave ?f"
  have e0: "filter (\<lambda>a. DashboardId a = sa_DashboardId ?fc) (alert_tbl (exampleStore [])) = []"
    by (simp add: exampleStore_def)
  have gf: "GetNotificationsFromSettings ?f \<noteq> None" by (simp add: desired_notifications)
  from SaveAlerts_single_insert [OF e0 single_store(3) desiredAlert_sel(1) gf,
      where tn = exampleClock]
  obtain t1 i where t1: "SaveAlerts exampleClock ?fc (exampleStore []) = Inr t1"
    "alert_tbl t1 = alert_tbl (exampleStore []) @ [(insertBean exampleClock 0 ?f)\<lparr>ID := i\<rparr>]"
    by blast
  have "DashboardId ((insertBean exampleClock 0 ?f)\<lparr>ID := i\<rparr>) = 2"
    by (simp add: insertBean_def desiredAlert_sel)
  then have e1: "filter (\<lambda>a. DashboardId a = sa_DashboardId ?fc) (alert_tbl t1) = []"
    unfolding t1(2) by (simp add: exampleStore_def single_store)
  from SaveAlerts_single_insert [OF e1 single_store(3) desiredAlert_sel(1) gf,
      where tn = laterClock]
  obtain t2 j where t2: "SaveAlerts laterClock ?fc t1 = Inr t2"
    "alert_tbl t2 = alert_tbl t1 @ [(insertBean laterClock 0 ?f)\<lparr>ID := j\<rparr>]"
    by blast
  have 3: "map_sum id (length \<circ> alert_tbl) (SaveAlerts exampleClock ?fc (exampleStore [])) = Inr 1"
    using t1 by (simp add: exampleStore_def)
  have 4: "map_sum id (length \<circ> alert_tbl)
      (SaveAlerts_again exampleClock laterClock ?fc (exampleStore [])) = Inr 2"
    using t1 t2 by (simp add: SaveAlerts_again_def exampleStore_def)
  from 1 2 3 4 show ?thesis by (intro conjI)
qed

text \<open>
  The theorem at the example of the panels 1, 2, 3 and 2, 3, 4.
\<close>

theorem SaveAlerts_idempotent_witness:
  "\<exists>s1 s2. SaveAlerts exampleClock reconcileCmd reconcileStore = Inr s1
     \<and> SaveAlerts laterClock reconcileCmd s1 = Inr s2
     \<and> alert_tbl s2 = alert_tbl s1"
proof -
  from reconcile_succeeds obtain s1 where
    ok: "SaveAlerts exampleClock reconcileCmd reconcileStore = Inr s1" by blast
  have pp: "distinct (map PanelId (filter (\<lambda>a. DashboardId a = sa_DashboardId reconcileCmd)
      (alert_tbl reconcileStore)))"
    unfolding reconcile_persisted by (simp add: example_rows)
  have wf: "\<forall>d \<in> set (Alerts reconcileCmd).
      DashboardId d = sa_DashboardId reconcileCmd \<and> Name d \<noteq> []"
    unfolding reconcile_wellformed(3) by (simp add: desiredAlert_sel reconcileCmd_def)
  from SaveAlerts_idempotent [OF ok reconcile_wellformed(1,2) pp wf, of laterClock]
  obtain s2 where "SaveAlerts laterClock reconcileCmd s1 = Inr s2" "alert_tbl s2 = alert_tbl s1"
    by blast
  with ok show ?thesis by blast
qed

end
